(* ===== verification/Prelude.thy ===== *)
theory Prelude
  imports Main "HOL-Library.AList" "HOL-Library.List_Lexorder" "HOL-Library.Char_ord"
begin

text \<open>
  Vocabulary shared by every component of the workflow runtime: the three ways a Go call can
  end (a value, an error, a panic), loops over slices that stop at the first error, and the
  association lists that stand for Go maps. The named collections gather the facts that the
  component proofs hand to the simplifier:
  \<^item> \<open>go_simps\<close>: unfolding of the Go library functions on strings and values;
  \<^item> \<open>flow_simps\<close>: unfolding of the small pieces of control flow of the runtime.
\<close>

named_theorems go_simps
named_theorems flow_simps

section \<open>How a Go call ends\<close>

text \<open>
  \<open>Ok\<close> is a nil error, \<open>Err\<close> a non-nil error, \<open>Panic\<close> a panic that unwinds the caller until
  a deferred \<open>recover\<close>.
\<close>

datatype ('e, 'a) outcome = Ok 'a | Err 'e | Panic string

fun is_ok :: "('e, 'a) outcome \<Rightarrow> bool" where
  "is_ok (Ok _) = True"
| "is_ok _ = False"

text \<open>
  A stateful call keeps the state it reached whatever way it ends; \<open>bnd\<close> is the sequence of two
  statements of which the second runs only when the first ended with a nil error.
\<close>

type_synonym ('s, 'e, 'a) prog = "'s \<Rightarrow> ('e, 'a) outcome \<times> 's"

definition ret :: "'a \<Rightarrow> ('s, 'e, 'a) prog" where
  "ret x = (\<lambda>s. (Ok x, s))"

definition fail :: "'e \<Rightarrow> ('s, 'e, 'a) prog" where
  "fail e = (\<lambda>s. (Err e, s))"

definition bnd :: "('s, 'e, 'a) prog \<Rightarrow> ('a \<Rightarrow> ('s, 'e, 'b) prog) \<Rightarrow> ('s, 'e, 'b) prog" where
  "bnd m f = (\<lambda>s. case m s of
      (Ok x, s') \<Rightarrow> f x s'
    | (Err e, s') \<Rightarrow> (Err e, s')
    | (Panic p, s') \<Rightarrow> (Panic p, s'))"

lemma ret_apply [simp]: "ret x s = (Ok x, s)"
  by (simp add: ret_def)

lemma fail_apply [simp]: "fail e s = (Err e, s)"
  by (simp add: fail_def)

lemma bnd_Ok: "m s = (Ok x, s') \<Longrightarrow> bnd m f s = f x s'"
  by (simp add: bnd_def)

lemma bnd_Err: "m s = (Err e, s') \<Longrightarrow> bnd m f s = (Err e, s')"
  by (simp add: bnd_def)

lemma bnd_Panic: "m s = (Panic p, s') \<Longrightarrow> bnd m f s = (Panic p, s')"
  by (simp add: bnd_def)

lemma bnd_ret [simp]: "bnd (ret x) f = f x"
  by (rule ext) (simp add: bnd_def)

lemma bnd_OkE:
  assumes "bnd m f s = (Ok y, t)"
  obtains x s' where "m s = (Ok x, s')" and "f x s' = (Ok y, t)"
  using assms by (auto simp: bnd_def split: prod.splits outcome.splits)

lemma bnd_assoc: "bnd (bnd m f) g = bnd m (\<lambda>x. bnd (f x) g)"
  by (rule ext) (simp add: bnd_def split: prod.splits outcome.splits)

section \<open>Loops that stop at the first error\<close>

text \<open>
  \<open>traverse f\<close> is the loop that appends the result of \<open>f\<close> for each element and returns at the
  first error; \<open>first_some f\<close> is the loop that returns the first non-nil error.
\<close>

fun traverse :: "('a \<Rightarrow> 'e + 'b) \<Rightarrow> 'a list \<Rightarrow> 'e + 'b list" where
  "traverse f [] = Inr []"
| "traverse f (x # xs) =
     (case f x of
        Inl e \<Rightarrow> Inl e
      | Inr y \<Rightarrow> (case traverse f xs of Inl e \<Rightarrow> Inl e | Inr ys \<Rightarrow> Inr (y # ys)))"

lemma traverse_cong [fundef_cong]:
  assumes "xs = ys" and "\<And>x. x \<in> set ys \<Longrightarrow> f x = g x"
  shows "traverse f xs = traverse g ys"
proof -
  have "(\<And>x. x \<in> set zs \<Longrightarrow> f x = g x) \<Longrightarrow> traverse f zs = traverse g zs" for zs
    by (induction zs) (auto split: sum.splits)
  with assms show ?thesis by simp
qed

lemma traverse_Inr_iff: "traverse f xs = Inr ys \<longleftrightarrow> list_all2 (\<lambda>x y. f x = Inr y) xs ys"
proof (induction xs arbitrary: ys)
  case Nil
  then show ?case by auto
next
  case (Cons x xs)
  show ?case
  proof (cases "traverse f xs")
    case (Inl e)
    with Cons.IH have "\<not> list_all2 (\<lambda>x y. f x = Inr y) xs zs" for zs by auto
    with Inl show ?thesis by (cases ys) (auto split: sum.splits)
  next
    case (Inr us)
    with Cons.IH have "us = zs \<longleftrightarrow> list_all2 (\<lambda>x y. f x = Inr y) xs zs" for zs by auto
    with Inr show ?thesis by (cases ys) (auto split: sum.splits)
  qed
qed

lemma traverse_Inr_length: "traverse f xs = Inr ys \<Longrightarrow> length ys = length xs"
  by (simp add: traverse_Inr_iff list_all2_lengthD)

lemma traverse_Inr_mem:
  assumes "traverse f xs = Inr ys" and "y \<in> set ys"
  obtains x where "x \<in> set xs" and "f x = Inr y"
proof -
  from assms obtain i where i: "i < length ys" "y = ys ! i" by (auto simp: in_set_conv_nth)
  with assms(1) have "i < length xs" "f (xs ! i) = Inr y"
    by (auto simp: traverse_Inr_iff list_all2_conv_all_nth)
  then show thesis by (rule that [OF nth_mem])
qed

lemma traverse_append:
  "traverse f (xs @ ys) =
     (case traverse f xs of
        Inl e \<Rightarrow> Inl e
      | Inr us \<Rightarrow> (case traverse f ys of Inl e \<Rightarrow> Inl e | Inr vs \<Rightarrow> Inr (us @ vs)))"
  by (induction xs) (auto split: sum.splits)

fun first_some :: "('a \<Rightarrow> 'b option) \<Rightarrow> 'a list \<Rightarrow> 'b option" where
  "first_some f [] = None"
| "first_some f (x # xs) = (case f x of None \<Rightarrow> first_some f xs | Some y \<Rightarrow> Some y)"

lemma first_some_cong [fundef_cong]:
  assumes "xs = ys" and "\<And>x. x \<in> set ys \<Longrightarrow> f x = g x"
  shows "first_some f xs = first_some g ys"
proof -
  have "(\<And>x. x \<in> set zs \<Longrightarrow> f x = g x) \<Longrightarrow> first_some f zs = first_some g zs" for zs
    by (induction zs) (auto split: option.splits)
  with assms show ?thesis by simp
qed

lemma first_some_None_iff [simp]: "first_some f xs = None \<longleftrightarrow> (\<forall>x\<in>set xs. f x = None)"
  by (induction xs) (auto split: option.splits)

lemma case_option_chain_None [simp]:
  "(case x of None \<Rightarrow> y | Some e \<Rightarrow> Some e) = None \<longleftrightarrow> x = None \<and> y = None"
  by (cases x) auto

lemma first_some_SomeE:
  assumes "first_some f xs = Some y"
  obtains x where "x \<in> set xs" and "f x = Some y"
  using assms by (induction xs) (auto split: option.splits)

section \<open>Lists and association lists\<close>

lemma map_of_map_pair:
  "x \<in> set xs \<Longrightarrow> distinct (map f xs) \<Longrightarrow> map_of (map (\<lambda>x. (f x, g x)) xs) (f x) = Some (g x)"
  by (rule map_of_is_SomeI) (auto simp: comp_def)

end
