(* ===== verification/GoStrings.thy ===== *)
theory GoStrings
  imports Prelude "HOL-Library.Sublist"
begin

text \<open>
  The part of Go's \<open>strings\<close>, \<open>unicode/utf8\<close> and \<open>strconv\<close> packages that the sources call.
  A Go string is a sequence of bytes, so it is a HOL \<open>string\<close> whose characters are bytes;
  multi-byte white space is listed by its UTF-8 encoding.
\<close>

section \<open>Trimming\<close>

text \<open>The 25 code points for which \<open>unicode.IsSpace\<close> holds, as UTF-8.\<close>

definition spaces :: "string list" where
  "spaces =
     [[CHR 0x20], [CHR 0x0A], [CHR 0x09], [CHR 0x0D], [CHR 0x0B], [CHR 0x0C],
      [CHR 0xC2, CHR 0x85], [CHR 0xC2, CHR 0xA0], [CHR 0xE1, CHR 0x9A, CHR 0x80],
      [CHR 0xE2, CHR 0x80, CHR 0x80], [CHR 0xE2, CHR 0x80, CHR 0x81],
      [CHR 0xE2, CHR 0x80, CHR 0x82], [CHR 0xE2, CHR 0x80, CHR 0x83],
      [CHR 0xE2, CHR 0x80, CHR 0x84], [CHR 0xE2, CHR 0x80, CHR 0x85],
      [CHR 0xE2, CHR 0x80, CHR 0x86], [CHR 0xE2, CHR 0x80, CHR 0x87],
      [CHR 0xE2, CHR 0x80, CHR 0x88], [CHR 0xE2, CHR 0x80, CHR 0x89],
      [CHR 0xE2, CHR 0x80, CHR 0x8A], [CHR 0xE2, CHR 0x80, CHR 0xA8],
      [CHR 0xE2, CHR 0x80, CHR 0xA9], [CHR 0xE2, CHR 0x80, CHR 0xAF],
      [CHR 0xE2, CHR 0x81, CHR 0x9F], [CHR 0xE3, CHR 0x80, CHR 0x80]]"

definition lead :: "string list \<Rightarrow> string \<Rightarrow> string option" where
  "lead ws s = find (\<lambda>w. w \<noteq> [] \<and> prefix w s) ws"

lemma lead_SomeD: "lead ws s = Some w \<Longrightarrow> w \<noteq> [] \<and> prefix w s"
  by (auto simp: lead_def find_Some_iff)

lemma lead_Some_shorter: "lead ws s = Some w \<Longrightarrow> length (drop (length w) s) < length s"
  by (auto dest!: lead_SomeD simp: prefix_def)

function strip :: "string list \<Rightarrow> string \<Rightarrow> string" where
  "strip ws s = (case lead ws s of None \<Rightarrow> s | Some w \<Rightarrow> strip ws (drop (length w) s))"
  by pat_completeness auto
termination
  by (relation "measure (\<lambda>(ws, s). length s)") (auto dest: lead_Some_shorter)

declare strip.simps [simp del]

text \<open>Equations by the form of the string, for evaluation.\<close>

lemma strip_code [code]:
  "strip ws [] = []"
  "strip ws (c # s) = (case lead ws (c # s) of None \<Rightarrow> c # s | Some w \<Rightarrow> strip ws (drop (length w) (c # s)))"
proof -
  have "lead ws [] = None" using lead_SomeD [of ws "[]"] by (cases "lead ws []") auto
  then show "strip ws [] = []" by (subst strip.simps) simp
qed (subst strip.simps, rule refl)

definition trim_space :: "string \<Rightarrow> string" where
  "trim_space s = rev (strip (map rev spaces) (rev (strip spaces s)))"

definition trim_prefix :: "string \<Rightarrow> string \<Rightarrow> string" where
  "trim_prefix p s = (if prefix p s then drop (length p) s else s)"

definition trim_suffix :: "string \<Rightarrow> string \<Rightarrow> string" where
  "trim_suffix p s = (if suffix p s then take (length s - length p) s else s)"

lemma strip_clean: "lead ws (strip ws s) = None"
proof (induction ws s rule: strip.induct)
  case (1 ws s)
  then show ?case
    by (cases "lead ws s") (auto simp: strip.simps [of ws s])
qed

lemma strip_id: "lead ws s = None \<Longrightarrow> strip ws s = s"
  by (simp add: strip.simps)

lemma strip_suffix: "suffix (strip ws s) s"
proof (induction ws s rule: strip.induct)
  case (1 ws s)
  then show ?case
    by (cases "lead ws s")
      (auto simp: strip.simps [of ws s] intro: suffix_order.trans suffix_drop)
qed

lemma lead_prefix_None:
  assumes "lead ws s = None" and "prefix t s"
  shows "lead ws t = None"
  using assms by (auto simp: lead_def find_None_iff intro: prefix_order.trans)

lemma lead_trim_space: "lead spaces (trim_space s) = None"
proof -
  have "suffix (strip (map rev spaces) (rev (strip spaces s))) (rev (strip spaces s))"
    by (rule strip_suffix)
  then have "prefix (trim_space s) (strip spaces s)"
    by (simp add: trim_space_def suffix_to_prefix)
  with strip_clean show ?thesis by (rule lead_prefix_None)
qed

lemma lead_rev_trim_space: "lead (map rev spaces) (rev (trim_space s)) = None"
  by (simp add: trim_space_def strip_clean)

lemma trim_space_id:
  "lead spaces s = None \<Longrightarrow> lead (map rev spaces) (rev s) = None \<Longrightarrow> trim_space s = s"
  by (simp add: trim_space_def strip_id)

lemma trim_space_idem [simp]: "trim_space (trim_space s) = trim_space s"
  by (rule trim_space_id [OF lead_trim_space lead_rev_trim_space])

lemma trim_space_Nil [simp]: "trim_space [] = []"
  by (simp add: trim_space_def strip.simps lead_def spaces_def)

section \<open>Letter case, joining, decimal numbers\<close>

text \<open>
  \<open>strings.ToLower\<close> maps the ASCII capitals, and the two non-ASCII capitals whose lower case is
  an ASCII letter: the Kelvin sign U+212A and the dotted capital I, U+0130. Every other
  non-ASCII character stays non-ASCII, and the sources compare the result with ASCII words only.
\<close>

definition lower_char :: "char \<Rightarrow> char" where
  "lower_char c =
     (if 65 \<le> (of_char c :: nat) \<and> (of_char c :: nat) \<le> 90 then char_of ((of_char c :: nat) + 32) else c)"

fun to_lower :: "string \<Rightarrow> string" where
  "to_lower [] = []"
| "to_lower (c # s) =
     (if c = CHR 0xE2 \<and> take 2 s = [CHR 0x84, CHR 0xAA] then CHR ''k'' # to_lower (drop 2 s)
      else if c = CHR 0xC4 \<and> take 1 s = [CHR 0xB0] then CHR ''i'' # to_lower (drop 1 s)
      else lower_char c # to_lower s)"

text \<open>
  \<open>strings.EqualFold\<close> is called with the word \<open>true\<close> only, none of whose letters folds to a
  non-ASCII one.
\<close>

definition equal_fold_true :: "string \<Rightarrow> bool" where
  "equal_fold_true s \<longleftrightarrow> map lower_char s = ''true''"

fun join :: "string \<Rightarrow> string list \<Rightarrow> string" where
  "join sep [] = []"
| "join sep [x] = x"
| "join sep (x # y # xs) = x @ sep @ join sep (y # xs)"

fun show_nat :: "nat \<Rightarrow> string" where
  "show_nat n =
     (if n < 10 then [char_of (n + 48)] else show_nat (n div 10) @ [char_of (n mod 10 + 48)])"

declare show_nat.simps [simp del]

definition show_int :: "int \<Rightarrow> string" where
  "show_int i = (if i < 0 then ''-'' @ show_nat (nat (- i)) else show_nat (nat i))"

text \<open>\<open>strconv.ParseBool\<close>: \<open>None\<close> is the syntax error.\<close>

definition parse_bool :: "string \<Rightarrow> bool option" where
  "parse_bool s =
     (if s \<in> set [''1'', ''t'', ''T'', ''TRUE'', ''true'', ''True''] then Some True
      else if s \<in> set [''0'', ''f'', ''F'', ''FALSE'', ''false'', ''False''] then Some False
      else None)"

section \<open>UTF-8\<close>

text \<open>
  \<open>utf8.DecodeRuneInString\<close>: the code point and its width in bytes; U+FFFD of width 1 for an
  ill-formed sequence, of width 0 for the empty string.
\<close>

definition cont :: "nat \<Rightarrow> nat \<Rightarrow> char \<Rightarrow> bool" where
  "cont lo hi c \<longleftrightarrow> lo \<le> (of_char c :: nat) \<and> (of_char c :: nat) \<le> hi"

abbreviation rune_error :: nat where
  "rune_error \<equiv> 0xFFFD"

definition decode_rune :: "string \<Rightarrow> nat \<times> nat" where
  "decode_rune s = (case s of
     [] \<Rightarrow> (rune_error, 0)
   | c # t \<Rightarrow>
      (let b = (of_char c :: nat) in
       if b < 0x80 then (b, 1)
       else if 0xC2 \<le> b \<and> b \<le> 0xDF then
         (case t of
            c1 # _ \<Rightarrow> if cont 0x80 0xBF c1 then ((b - 0xC0) * 64 + (of_char c1 - 0x80), 2) else (rune_error, 1)
          | [] \<Rightarrow> (rune_error, 1))
       else if 0xE0 \<le> b \<and> b \<le> 0xEF then
         (case t of
            c1 # c2 # _ \<Rightarrow>
              if cont (if b = 0xE0 then 0xA0 else 0x80) (if b = 0xED then 0x9F else 0xBF) c1
                 \<and> cont 0x80 0xBF c2
              then ((b - 0xE0) * 4096 + (of_char c1 - 0x80) * 64 + (of_char c2 - 0x80), 3)
              else (rune_error, 1)
          | _ \<Rightarrow> (rune_error, 1))
       else if 0xF0 \<le> b \<and> b \<le> 0xF4 then
         (case t of
            c1 # c2 # c3 # _ \<Rightarrow>
              if cont (if b = 0xF0 then 0x90 else 0x80) (if b = 0xF4 then 0x8F else 0xBF) c1
                 \<and> cont 0x80 0xBF c2 \<and> cont 0x80 0xBF c3
              then ((b - 0xF0) * 262144 + (of_char c1 - 0x80) * 4096
                      + (of_char c2 - 0x80) * 64 + (of_char c3 - 0x80), 4)
              else (rune_error, 1)
          | _ \<Rightarrow> (rune_error, 1))
       else (rune_error, 1)))"

lemma decode_rune_width:
  "s \<noteq> [] \<Longrightarrow> 0 < snd (decode_rune s) \<and> snd (decode_rune s) \<le> length s"
  by (auto simp: decode_rune_def Let_def split: list.splits if_splits)

lemma decode_rune_ascii: "(of_char c :: nat) < 0x80 \<Longrightarrow> decode_rune (c # s) = (of_char c, 1)"
  by (simp add: decode_rune_def Let_def)

lemma decode_rune_high:
  assumes c: "0x80 \<le> (of_char c :: nat)"
  shows "0x80 \<le> fst (decode_rune (c # s))"
proof -
  let ?b = "of_char c :: nat"
  consider "?b < 0xC2" | "0xC2 \<le> ?b" "?b \<le> 0xDF" | "0xE0 \<le> ?b" "?b \<le> 0xEF"
    | "0xF0 \<le> ?b" "?b \<le> 0xF4" | "0xF4 < ?b" by linarith
  then show ?thesis
  proof cases
    case 1
    with c show ?thesis by (simp add: decode_rune_def Let_def)
  next
    case 2
    then have "0x80 \<le> (?b - 0xC0) * 64" by arith
    with 2 show ?thesis by (simp add: decode_rune_def Let_def trans_le_add1 split: list.split)
  next
    case 3
    show ?thesis
    proof (cases "?b = 0xE0")
      case True
      then show ?thesis by (auto simp: decode_rune_def Let_def cont_def split: list.split)
    next
      case False
      with 3 have "0x80 \<le> (?b - 0xE0) * 4096" by arith
      with 3 False show ?thesis
        by (simp add: decode_rune_def Let_def trans_le_add1 split: list.split)
    qed
  next
    case 4
    show ?thesis
    proof (cases "?b = 0xF0")
      case True
      then show ?thesis by (auto simp: decode_rune_def Let_def cont_def split: list.split)
    next
      case False
      with 4 have "0x80 \<le> (?b - 0xF0) * 262144" by arith
      with 4 False show ?thesis
        by (simp add: decode_rune_def Let_def trans_le_add1 split: list.split)
    qed
  next
    case 5
    then show ?thesis by (simp add: decode_rune_def Let_def)
  qed
qed

text \<open>\<open>utf8.RuneLen\<close> of a code point.\<close>

definition rune_len :: "nat \<Rightarrow> int" where
  "rune_len r =
     (if r < 0x80 then 1 else if r < 0x800 then 2
      else if 0xD800 \<le> r \<and> r \<le> 0xDFFF then -1
      else if r \<le> 0xFFFF then 3 else if r \<le> 0x10FFFF then 4 else -1)"

text \<open>\<open>utf8.EncodeRune\<close>: a surrogate or an out-of-range value is written as U+FFFD.\<close>

definition encode_rune :: "nat \<Rightarrow> string" where
  "encode_rune r0 =
     (let r = (if 0xD800 \<le> r0 \<and> r0 \<le> 0xDFFF \<or> 0x10FFFF < r0 then rune_error else r0) in
      map char_of
        (if r < 0x80 then [r]
         else if r < 0x800 then [0xC0 + r div 64, 0x80 + r mod 64]
         else if r < 0x10000 then [0xE0 + r div 4096, 0x80 + r div 64 mod 64, 0x80 + r mod 64]
         else [0xF0 + r div 262144, 0x80 + r div 4096 mod 64, 0x80 + r div 64 mod 64, 0x80 + r mod 64]))"

lemmas go_string_defs [go_simps] =
  trim_prefix_def trim_suffix_def equal_fold_true_def show_int_def parse_bool_def

end
