(* ===== verification/GoValue.thy ===== *)
theory GoValue
  imports GoStrings
begin

text \<open>
  Dynamically typed Go values (\<open>interface{}\<close>) as the YAML and JSON decoders build them, the
  conversion helpers that \<open>third_party/swf/swf.go\<close> and \<open>internal/task/runtime_util.go\<close> both
  define (\<open>asMap\<close>, \<open>asSlice\<close>, \<open>asString\<close>, \<open>asBool\<close>, \<open>expressionString\<close>, \<open>firstNonEmpty\<close>,
  \<open>mustJSON\<close>), and the parts of \<open>fmt\<close> and \<open>encoding/json\<close> they call.

  Two kinds of value are known to the program only through the texts the library prints for
  them, and are represented by these texts: a \<open>float64\<close> by what \<open>fmt\<close> prints and what
  \<open>encoding/json\<close> prints (both are the shortest decimal that reads back as the same number, so
  they determine it; JSON has no text for infinities and NaN), and a \<open>time.Time\<close>, which the
  YAML decoder makes of a timestamp. Go iterates over a map in an order it does not specify:
  the order of a map's association list is the order of the run being described, and a fact
  proved for every list is a fact about every order.
\<close>

section \<open>Values\<close>

datatype gval =
    VNil
  | VBool bool
  | VInt int
  | VFloat string "string option"
  | VStr string
  | VTime string string
  | VSeq "gval list"
  | VMap "(string \<times> gval) list"
  | VMapI "(gval \<times> gval) list"

text \<open>A \<open>map[string]interface{}\<close> variable: \<open>None\<close> is the nil map, which reads as an empty one.\<close>

type_synonym gomap = "(string \<times> gval) list option"

definition mget :: "gomap \<Rightarrow> string \<Rightarrow> gval" where
  "mget m k = (case m of None \<Rightarrow> VNil
     | Some es \<Rightarrow> (case map_of es k of None \<Rightarrow> VNil | Some v \<Rightarrow> v))"

definition mhas :: "gomap \<Rightarrow> string \<Rightarrow> bool" where
  "mhas m k = (case m of None \<Rightarrow> False | Some es \<Rightarrow> map_of es k \<noteq> None)"

definition mentries :: "gomap \<Rightarrow> (string \<times> gval) list" where
  "mentries m = (case m of None \<Rightarrow> [] | Some es \<Rightarrow> es)"

definition mempty :: "gomap \<Rightarrow> bool" where
  "mempty m \<longleftrightarrow> mentries m = []"

section \<open>fmt.Sprint\<close>

fun sprint :: "gval \<Rightarrow> string" where
  "sprint VNil = ''<nil>''"
| "sprint (VBool b) = (if b then ''true'' else ''false'')"
| "sprint (VInt i) = show_int i"
| "sprint (VFloat t _) = t"
| "sprint (VStr s) = s"
| "sprint (VTime t _) = t"
| "sprint (VSeq xs) = ''['' @ join '' '' (map sprint xs) @ '']''"
| "sprint (VMap es) =
     ''map['' @ join '' '' (map (\<lambda>(k, v). k @ '':'' @ sprint v) (sort_key fst es)) @ '']''"
| "sprint (VMapI es) =
     ''map['' @ join '' '' (map (\<lambda>(k, v). sprint k @ '':'' @ sprint v) es) @ '']''"

section \<open>The conversion helpers\<close>

definition asMap :: "gval \<Rightarrow> gomap" where
  "asMap value = (case value of
     VMap es \<Rightarrow> Some es
   | VMapI es \<Rightarrow> Some (fold (\<lambda>(key, item) res. AList.update (sprint key) item res) es [])
   | _ \<Rightarrow> None)"

definition asSlice :: "gval \<Rightarrow> gval list" where
  "asSlice value = (case value of VSeq items \<Rightarrow> items | _ \<Rightarrow> [])"

definition asString :: "gval \<Rightarrow> string" where
  "asString value = (case value of VNil \<Rightarrow> [] | _ \<Rightarrow> sprint value)"

definition asBool :: "gval \<Rightarrow> bool" where
  "asBool value = (case value of VBool b \<Rightarrow> b | _ \<Rightarrow> equal_fold_true (asString value))"

definition expressionString :: "gval \<Rightarrow> string" where
  "expressionString value =
     (let text = trim_space (asString value);
          text = trim_prefix ''${'' text;
          text = trim_suffix ''}'' text
      in trim_space text)"

fun firstNonEmpty :: "string list \<Rightarrow> string" where
  "firstNonEmpty [] = []"
| "firstNonEmpty (value # values) = (if value \<noteq> [] then value else firstNonEmpty values)"

section \<open>json.Marshal\<close>

definition hex_digit :: "nat \<Rightarrow> char" where
  "hex_digit n = (if n < 10 then char_of (n + 48) else char_of (n + 87))"

definition json_byte :: "char \<Rightarrow> string" where
  "json_byte c =
     (if c = CHR 0x5C \<or> c = CHR 0x22 then [CHR 0x5C, c]
      else if c = CHR 0x0A then [CHR 0x5C, CHR ''n'']
      else if c = CHR 0x0D then [CHR 0x5C, CHR ''r'']
      else if c = CHR 0x09 then [CHR 0x5C, CHR ''t'']
      else if (of_char c :: nat) < 0x20 \<or> c \<in> {CHR 0x3C, CHR 0x3E, CHR 0x26}
        then [CHR 0x5C, CHR ''u'', CHR ''0'', CHR ''0'',
              hex_digit (of_char c div 16), hex_digit (of_char c mod 16)]
      else [c])"

function json_chars :: "string \<Rightarrow> string" where
  "json_chars s = (case s of
     [] \<Rightarrow> []
   | c # t \<Rightarrow>
      (if (of_char c :: nat) < 0x80 then json_byte c @ json_chars t
       else (let (r, n) = decode_rune s in
         if r = rune_error \<and> n = 1 then CHR 0x5C # ''ufffd'' @ json_chars t
         else if r = 0x2028 \<or> r = 0x2029
           then CHR 0x5C # ''u202'' @ [hex_digit (r mod 16)] @ json_chars (drop n s)
         else take n s @ json_chars (drop n s))))"
  by pat_completeness auto
termination
proof (relation "measure length")
  fix s :: string and c t x r n
  assume "s = c # t" and "x = decode_rune s" and "(r, n) = x"
  then show "(drop n s, s) \<in> measure length"
    using decode_rune_width [of s] by (auto simp: prod_eq_iff)
  then show "(drop n s, s) \<in> measure length" .
qed auto

declare json_chars.simps [simp del]

lemma json_chars_code [code]:
  "json_chars [] = []"
  "json_chars (c # t) =
     (if (of_char c :: nat) < 0x80 then json_byte c @ json_chars t
      else (let (r, n) = decode_rune (c # t) in
        if r = rune_error \<and> n = 1 then CHR 0x5C # ''ufffd'' @ json_chars t
        else if r = 0x2028 \<or> r = 0x2029
          then CHR 0x5C # ''u202'' @ [hex_digit (r mod 16)] @ json_chars (drop n (c # t))
        else take n (c # t) @ json_chars (drop n (c # t))))"
  by (simp_all add: json_chars.simps [of "[]"] json_chars.simps [of "c # t"])

definition json_quote :: "string \<Rightarrow> string" where
  "json_quote s = CHR 0x22 # json_chars s @ [CHR 0x22]"

text \<open>\<open>None\<close> is the error: a NaN or an infinity, or a map with keys of interface type.\<close>

fun json_marshal :: "gval \<Rightarrow> string option" where
  "json_marshal VNil = Some ''null''"
| "json_marshal (VBool b) = Some (if b then ''true'' else ''false'')"
| "json_marshal (VInt i) = Some (show_int i)"
| "json_marshal (VFloat _ j) = j"
| "json_marshal (VStr s) = Some (json_quote s)"
| "json_marshal (VTime _ j) = Some (json_quote j)"
| "json_marshal (VSeq xs) =
     map_option (\<lambda>ts. ''['' @ join '','' ts @ '']'') (those (map json_marshal xs))"
| "json_marshal (VMap es) =
     map_option (\<lambda>ts. ''{'' @ join '','' ts @ ''}'')
       (those (map (\<lambda>(k, v). map_option (\<lambda>t. json_quote k @ '':'' @ t) (json_marshal v))
          (sort_key fst es)))"
| "json_marshal (VMapI _) = None"

definition mustJSON :: "gomap \<Rightarrow> string" where
  "mustJSON value = (case value of
     None \<Rightarrow> ''null''
   | Some es \<Rightarrow> (case json_marshal (VMap es) of None \<Rightarrow> [] | Some t \<Rightarrow> t))"

section \<open>Sizes, for recursion into nested values\<close>

fun gsz :: "gval \<Rightarrow> nat" where
  "gsz (VSeq xs) = Suc (sum_list (map gsz xs))"
| "gsz (VMap es) = Suc (sum_list (map (\<lambda>(k, v). gsz v) es))"
| "gsz (VMapI es) = Suc (sum_list (map (\<lambda>(k, v). gsz k + gsz v) es))"
| "gsz _ = 1"

definition msz :: "gomap \<Rightarrow> nat" where
  "msz m = sum_list (map (\<lambda>(k, v). gsz v) (mentries m))"

lemma gsz_pos [simp]: "0 < gsz v"
  by (cases v) auto

lemma gsz_mentries: "(k, v) \<in> set (mentries m) \<Longrightarrow> gsz v \<le> msz m"
  unfolding msz_def by (rule member_le_sum_list) force+

lemma gsz_mget: "gsz (mget m k) \<le> max 1 (msz m)"
proof (cases "\<exists>es v. m = Some es \<and> map_of es k = Some v")
  case True
  then obtain es v where m: "m = Some es" "map_of es k = Some v" by blast
  then have "(k, v) \<in> set (mentries m)" by (auto simp: mentries_def dest: map_of_SomeD)
  from gsz_mentries [OF this] m show ?thesis by (simp add: mget_def)
next
  case False
  then have "mget m k = VNil" by (auto simp: mget_def split: option.splits)
  then show ?thesis by simp
qed

lemma msz_update:
  "sum_list (map (\<lambda>(k, v). gsz v) (AList.update k v es)) \<le> gsz v + sum_list (map (\<lambda>(k, v). gsz v) es)"
  by (induction es) auto

lemma msz_asMap: "msz (asMap v) < gsz v"
proof (cases v)
  case (VMapI es)
  have "sum_list (map (\<lambda>(k, v). gsz v)
            (fold (\<lambda>(key, item) res. AList.update (sprint key) item res) es acc))
          \<le> sum_list (map (\<lambda>(k, v). gsz k + gsz v) es) + sum_list (map (\<lambda>(k, v). gsz v) acc)" for acc
  proof (induction es arbitrary: acc)
    case (Cons e es)
    obtain k v where e: "e = (k, v)" by force
    show ?case
      using Cons.IH [of "AList.update (sprint k) v acc"] msz_update [of "sprint k" v acc]
      by (simp add: e)
  qed simp
  from this [of "[]"] VMapI show ?thesis by (simp add: asMap_def msz_def mentries_def)
qed (auto simp: asMap_def msz_def mentries_def)

lemma gsz_asSlice: "x \<in> set (asSlice v) \<Longrightarrow> Suc (gsz x) \<le> gsz v"
  by (cases v) (auto simp: asSlice_def intro!: member_le_sum_list)

section \<open>Reading helpers\<close>

lemma mget_None [simp]: "mget None k = VNil"
  by (simp add: mget_def)

lemma mget_Some [simp]:
  "mget (Some es) k = (case map_of es k of None \<Rightarrow> VNil | Some v \<Rightarrow> v)"
  by (simp add: mget_def)

lemma mhas_None [simp]: "mhas None k = False"
  by (simp add: mhas_def)

lemma mhas_Some [simp]: "mhas (Some es) k = (map_of es k \<noteq> None)"
  by (simp add: mhas_def)

lemma mentries_simps [simp]: "mentries None = []" "mentries (Some es) = es"
  by (simp_all add: mentries_def)

lemma as_simps [simp]:
  "asMap VNil = None" "asMap (VMap es) = Some es" "asMap (VStr s) = None" "asMap (VSeq xs) = None"
  "asSlice VNil = []" "asSlice (VSeq xs) = xs" "asSlice (VMap es) = []" "asSlice (VStr s) = []"
  "asString VNil = []" "asString (VStr s) = s" "asString (VBool True) = ''true''"
  "asBool (VBool b) = b" "asBool VNil = False"
  by (simp_all add: asMap_def asSlice_def asString_def asBool_def equal_fold_true_def)

lemma firstNonEmpty_spec:
  "firstNonEmpty vs = (case filter (\<lambda>v. v \<noteq> []) vs of [] \<Rightarrow> [] | v # _ \<Rightarrow> v)"
  by (induction vs) auto

lemma expressionString_trimmed: "trim_space (expressionString v) = expressionString v"
  by (simp add: expressionString_def Let_def)

lemma expressionString_VNil [simp]: "expressionString VNil = []"
  by (simp add: expressionString_def trim_prefix_def trim_suffix_def)

end
