(* ===== verification/Swf.thy ===== *)
theory Swf
  imports GoValue
begin

text \<open>
  The workflow model of \<open>third_party/swf/model.go\<close>: the structures the two DSL parsers build,
  the flattening of nested tasks and the validation every parsed workflow passes. The slices of
  pointers of the source hold no nil pointers (every element is the address of a fresh
  structure), so they are lists of structures.
\<close>

section \<open>Structures\<close>

abbreviation (input) TaskTypeOperation :: string where "TaskTypeOperation \<equiv> ''operation''"
abbreviation (input) TaskTypeEvent :: string where "TaskTypeEvent \<equiv> ''event''"
abbreviation (input) TaskTypeSwitch :: string where "TaskTypeSwitch \<equiv> ''switch''"
abbreviation (input) TaskTypeSet :: string where "TaskTypeSet \<equiv> ''set''"
abbreviation (input) TaskTypeDo :: string where "TaskTypeDo \<equiv> ''do''"
abbreviation (input) TaskTypeFork :: string where "TaskTypeFork \<equiv> ''fork''"
abbreviation (input) TaskTypeFor :: string where "TaskTypeFor \<equiv> ''for''"
abbreviation (input) TaskTypeTry :: string where "TaskTypeTry \<equiv> ''try''"
abbreviation (input) TaskTypeWait :: string where "TaskTypeWait \<equiv> ''wait''"
abbreviation (input) TaskTypeRaise :: string where "TaskTypeRaise \<equiv> ''raise''"
abbreviation (input) TaskTypeRun :: string where "TaskTypeRun \<equiv> ''run''"
abbreviation (input) TaskTypeEmit :: string where "TaskTypeEmit \<equiv> ''emit''"
abbreviation (input) TaskTypeListen :: string where "TaskTypeListen \<equiv> ''listen''"

record schedule =
  schStart :: string
  schCron :: string
  schAfter :: string

record func =
  fnName :: string
  fnOperation :: string
  fnType :: string

record action =
  OperationName :: string
  OperationType :: string

record switchCase =
  caseName :: string
  caseCondition :: string
  caseThen :: string
  caseIsDefault :: bool

datatype task = Task
  (tName: string)
  (tType: string)
  (tInputFilter: string)
  (tOutputFilter: string)
  (tInlineData: string)
  (tThen: string)
  (tExplicitThen: bool)
  (tActions: "action list")
  (tCases: "switchCase list")
  (tChildren: "task list")
  (tRaw: string)

record workflow =
  wfID :: string
  wfName :: string
  wfVersion :: string
  wfDSL :: string
  wfNamespace :: string
  wfStart :: string
  wfTasks :: "task list"
  wfFunctions :: "(string \<times> func) list"
  wfSchedule :: "schedule option"
  wfInput :: string
  wfOutput :: string
  wfLegacy :: bool

text \<open>The errors of \<open>swf.go\<close> and \<open>model.go\<close>, with the values their messages carry.\<close>

datatype swf_error =
    YamlError string
  | DocumentNameRequired
  | DocumentVersionRequired
  | DocumentDslRequired
  | DoEmpty
  | IdRequired
  | StatesEmpty
  | TaskNameRequired
  | NoTasks
  | UnnamedTask
  | DuplicateTaskName string
  | ThenTargetNotFound string string
  | CaseTargetNotFound string string

section \<open>Flattening\<close>

lemma tChildren_size: "size_list size (tChildren t) < size t"
  by (cases t) simp

lemma tChildren_mem_size: "c \<in> set (tChildren t) \<Longrightarrow> size c < size t"
  by (rule order.strict_trans1 [OF _ tChildren_size]) (simp add: size_list_estimation')

function walk :: "task list \<Rightarrow> task list" where
  "walk [] = []"
| "walk (item # items) = item # walk (tChildren item) @ walk items"
  by pat_completeness auto
termination
  using tChildren_size
  by (relation "measure (size_list size)") (auto simp: less_SucI trans_less_add1)

definition FlattenTasks :: "workflow \<Rightarrow> task list" where
  "FlattenTasks w = walk (wfTasks w)"

section \<open>Validation\<close>

definition isValidFlowTarget :: "string \<Rightarrow> string list \<Rightarrow> bool" where
  "isValidFlowTarget target validNames \<longleftrightarrow>
     target \<in> set [''end'', ''exit'', ''continue''] \<or> target \<in> set validNames"

function validateTaskFlow :: "task \<Rightarrow> string list \<Rightarrow> swf_error option" where
  "validateTaskFlow task validNames =
     (if tExplicitThen task \<and> tThen task \<noteq> [] \<and> \<not> isValidFlowTarget (tThen task) validNames
      then Some (ThenTargetNotFound (tName task) (tThen task))
      else (case first_some
                   (\<lambda>c. if caseThen c \<noteq> [] \<and> \<not> isValidFlowTarget (caseThen c) validNames
                        then Some (CaseTargetNotFound (tName task) (caseThen c)) else None)
                   (tCases task) of
              Some e \<Rightarrow> Some e
            | None \<Rightarrow> first_some (\<lambda>child. validateTaskFlow child validNames) (tChildren task)))"
  by pat_completeness auto
termination
  by (relation "measure (size \<circ> fst)") (auto dest: tChildren_mem_size)

declare validateTaskFlow.simps [simp del]

text \<open>The loop over all tasks that rejects a missing or repeated name and collects the names.\<close>

fun checkNames :: "task list \<Rightarrow> string list \<Rightarrow> swf_error + string list" where
  "checkNames [] taskNames = Inr taskNames"
| "checkNames (task # allTasks) taskNames =
     (if tName task = [] then Inl UnnamedTask
      else if tName task \<in> set taskNames then Inl (DuplicateTaskName (tName task))
      else checkNames allTasks (tName task # taskNames))"

definition Validate :: "workflow \<Rightarrow> swf_error option" where
  "Validate w =
     (let allTasks = FlattenTasks w in
      if allTasks = [] then Some NoTasks
      else (case checkNames allTasks [] of
              Inl e \<Rightarrow> Some e
            | Inr taskNames \<Rightarrow> first_some (\<lambda>task. validateTaskFlow task taskNames) allTasks))"

section \<open>What validation means\<close>

text \<open>
  The declarative reading: the tasks in the whole tree are named, by distinct names, and every
  target a task or a switch case mentions is a directive or the name of a task of the tree.
\<close>

definition targets :: "task \<Rightarrow> string set" where
  "targets t =
     ({tThen t | u :: unit. tExplicitThen t} \<union> caseThen ` set (tCases t)) - {[]}"

definition well_formed :: "workflow \<Rightarrow> bool" where
  "well_formed w \<longleftrightarrow>
     (let ts = FlattenTasks w; names = map tName ts in
      ts \<noteq> [] \<and> [] \<notin> set names \<and> distinct names \<and>
      (\<forall>t\<in>set ts. \<forall>n\<in>targets t. n \<in> {''end'', ''exit'', ''continue''} \<union> set names))"

lemma walk_append: "walk (xs @ ys) = walk xs @ walk ys"
  by (induction xs rule: walk.induct) auto

lemma walk_Nil_iff [simp]: "walk ts = [] \<longleftrightarrow> ts = []"
  by (cases ts) auto

lemma walk_top: "set ts \<subseteq> set (walk ts)"
  by (induction ts rule: walk.induct) auto

lemma walk_children: "t \<in> set (walk ts) \<Longrightarrow> set (walk (tChildren t)) \<subseteq> set (walk ts)"
  by (induction ts rule: walk.induct) auto

lemma set_walk: "set (walk cs) = (\<Union>c\<in>set cs. set (walk [c]))"
  by (induction cs) (auto simp: walk_append [of "[_]", simplified])

lemma checkNames_Inr_iff:
  "checkNames ts seen = Inr names \<longleftrightarrow>
     (\<forall>t\<in>set ts. tName t \<noteq> []) \<and> distinct (map tName ts) \<and>
     set (map tName ts) \<inter> set seen = {} \<and> names = rev (map tName ts) @ seen"
  by (induction ts arbitrary: seen) auto

lemma validateTaskFlow_None_iff:
  "validateTaskFlow t names = None \<longleftrightarrow>
     (\<forall>u\<in>set (walk [t]). \<forall>n\<in>targets u. isValidFlowTarget n names)"
proof (induction t names rule: validateTaskFlow.induct)
  case (1 t names)
  let ?own = "\<forall>n\<in>targets t. isValidFlowTarget n names"
  let ?sub = "\<forall>c\<in>set (tChildren t). validateTaskFlow c names = None"
  have own: "?own \<longleftrightarrow>
      (tExplicitThen t \<longrightarrow> tThen t \<noteq> [] \<longrightarrow> isValidFlowTarget (tThen t) names) \<and>
      (\<forall>c\<in>set (tCases t). caseThen c \<noteq> [] \<longrightarrow> isValidFlowTarget (caseThen c) names)"
    by (auto simp: targets_def)
  have step: "validateTaskFlow t names = None \<longleftrightarrow> ?own \<and> ?sub"
    unfolding own by (simp add: validateTaskFlow.simps [of t]) blast
  show ?case
  proof (cases ?own)
    case True
    have "validateTaskFlow c names = None \<longleftrightarrow>
            (\<forall>u\<in>set (walk [c]). \<forall>n\<in>targets u. isValidFlowTarget n names)"
      if "c \<in> set (tChildren t)" for c
      using True unfolding own by (intro "1.IH" that) auto
    with True step show ?thesis by (auto simp: set_walk [of "tChildren t"])
  next
    case False
    with step show ?thesis by auto
  qed
qed

lemma Validate_None_iff: "Validate w = None \<longleftrightarrow> well_formed w"
proof -
  let ?ts = "FlattenTasks w" and ?names = "map tName (FlattenTasks w)"
  have closed: "(\<forall>t\<in>set ?ts. \<forall>u\<in>set (walk [t]). P u) \<longleftrightarrow> (\<forall>t\<in>set ?ts. P t)" for P
    using walk_children [of _ "wfTasks w"] by (simp add: FlattenTasks_def) blast
  show ?thesis
  proof (cases "checkNames ?ts []")
    case (Inl e)
    then have "checkNames ?ts [] \<noteq> Inr (rev ?names)" by simp
    then have "\<not> ([] \<notin> set ?names \<and> distinct ?names)"
      by (simp add: checkNames_Inr_iff image_iff) metis
    with Inl show ?thesis by (auto simp: Validate_def well_formed_def Let_def)
  next
    case (Inr names)
    then have names: "[] \<notin> set ?names" "distinct ?names" "names = rev ?names"
      by (auto simp: checkNames_Inr_iff)
    have "Validate w = None \<longleftrightarrow>
        ?ts \<noteq> [] \<and> (\<forall>t\<in>set ?ts. \<forall>n\<in>targets t. isValidFlowTarget n names)"
      using Inr by (simp add: Validate_def Let_def validateTaskFlow_None_iff closed del: walk.simps)
    with names show ?thesis
      by (simp add: well_formed_def Let_def isValidFlowTarget_def)
  qed
qed

section \<open>Properties\<close>

lemma checkNames_Inl:
  assumes "checkNames ts seen = Inl e"
  shows "e = UnnamedTask \<and> [] \<in> tName ` set ts \<or>
         (\<exists>n. e = DuplicateTaskName n \<and> n \<noteq> [] \<and> 2 \<le> count_list (map tName ts @ seen) n)"
  using assms
proof (induction ts arbitrary: seen)
  case (Cons t ts)
  show ?case
  proof (cases "tName t \<noteq> [] \<and> tName t \<notin> set seen")
    case True
    with Cons.prems Cons.IH [of "tName t # seen"] show ?thesis by (auto split: if_splits)
  next
    case False
    then show ?thesis using Cons.prems count_list_0_iff [of seen "tName t"]
      by (auto split: if_splits simp: Suc_le_eq)
  qed
qed simp

lemma validateTaskFlow_Some:
  assumes "validateTaskFlow t names = Some e"
  shows "\<exists>u\<in>set (walk [t]). \<exists>n\<in>targets u. \<not> isValidFlowTarget n names \<and>
           (e = ThenTargetNotFound (tName u) n \<and> tThen u = n \<or> e = CaseTargetNotFound (tName u) n)"
  using assms
proof (induction "size t" arbitrary: t rule: less_induct)
  case less
  let ?bad = "\<lambda>u. \<exists>n\<in>targets u. \<not> isValidFlowTarget n names \<and>
    (e = ThenTargetNotFound (tName u) n \<and> tThen u = n \<or> e = CaseTargetNotFound (tName u) n)"
  consider (own) "?bad t" | (child) c where "c \<in> set (tChildren t)" "validateTaskFlow c names = Some e"
    using less(2) by (auto simp: validateTaskFlow.simps [of t] targets_def
        split: if_splits option.splits elim!: first_some_SomeE)
  then show ?case
  proof cases
    case child
    from less(1) [OF tChildren_mem_size [OF child(1)] child(2)] obtain u
      where u: "u \<in> set (walk [c])" "?bad u" ..
    from u(1) child(1) have "u \<in> set (walk (tChildren t))" by (subst set_walk) blast
    with u(2) show ?thesis by (simp del: bex_simps) blast
  qed auto
qed

text \<open>
  C16: Validation accepts exactly the well-formed workflows: at least one task, every task of the
  tree named, no name twice, and every explicit \<open>then\<close> and every target of a switch case is
  \<open>end\<close>, \<open>exit\<close>, \<open>continue\<close> or the name of a task of the tree.
\<close>

theorem Validate_correct: "Validate w = None \<longleftrightarrow> well_formed w"
  by (rule Validate_None_iff)

text \<open>
  C21: Every error validation reports is true of the workflow and names the offender: no task at
  all, a task without a name, a name that occurs at least twice, or a target of a task of the
  tree that is neither a directive nor the name of a task.
\<close>

theorem Validate_error_accurate:
  assumes "Validate w = Some e"
  shows "case e of
      NoTasks \<Rightarrow> FlattenTasks w = []
    | UnnamedTask \<Rightarrow> \<exists>t\<in>set (FlattenTasks w). tName t = []
    | DuplicateTaskName n \<Rightarrow> n \<noteq> [] \<and> 2 \<le> count_list (map tName (FlattenTasks w)) n
    | ThenTargetNotFound t n \<Rightarrow> \<exists>u\<in>set (FlattenTasks w). tName u = t \<and> tThen u = n \<and>
        n \<in> targets u - {''end'', ''exit'', ''continue''} - tName ` set (FlattenTasks w)
    | CaseTargetNotFound t n \<Rightarrow> \<exists>u\<in>set (FlattenTasks w). tName u = t \<and>
        n \<in> targets u - {''end'', ''exit'', ''continue''} - tName ` set (FlattenTasks w)
    | _ \<Rightarrow> False"
proof -
  let ?ts = "FlattenTasks w"
  consider (none) "?ts = []" "e = NoTasks" | (names) "checkNames ?ts [] = Inl e"
    | (flow) names t where "checkNames ?ts [] = Inr names" "t \<in> set ?ts" "validateTaskFlow t names = Some e"
    using assms by (auto simp: Validate_def Let_def split: if_splits sum.splits elim!: first_some_SomeE)
  then show ?thesis
  proof cases
    case names
    from checkNames_Inl [OF this] show ?thesis by (auto simp: image_iff eq_commute [of "[]"])
  next
    case flow
    from flow(1) have names: "set names = tName ` set ?ts" by (simp add: checkNames_Inr_iff)
    from validateTaskFlow_Some [OF flow(3)] obtain u n where u: "u \<in> set (walk [t])" "n \<in> targets u"
        "\<not> isValidFlowTarget n names"
        "e = ThenTargetNotFound (tName u) n \<and> tThen u = n \<or> e = CaseTargetNotFound (tName u) n"
      by blast
    moreover from u(1) flow(2) walk_children [of t "wfTasks w"] have "u \<in> set ?ts"
      by (auto simp: FlattenTasks_def)
    ultimately show ?thesis by (auto simp: isValidFlowTarget_def names)
  qed simp
qed

theorem Validate_error_accurate_witness:
  "\<exists>w. Validate w = Some (DuplicateTaskName ''a'') \<and> 2 \<le> count_list (map tName (FlattenTasks w)) ''a''"
proof -
  let ?t = "Task ''a'' ''set'' [] [] [] [] False [] [] [] []"
  let ?w = "\<lparr>wfID = ''w'', wfName = [], wfVersion = [], wfDSL = [], wfNamespace = [], wfStart = ''a'',
    wfTasks = [?t, ?t], wfFunctions = [], wfSchedule = None, wfInput = [], wfOutput = [], wfLegacy = False\<rparr>"
  have "Validate ?w = Some (DuplicateTaskName ''a'')" by (simp add: Validate_def FlattenTasks_def)
  moreover from Validate_error_accurate [OF this] have "2 \<le> count_list (map tName (FlattenTasks ?w)) ''a''" by simp
  ultimately show ?thesis by blast
qed

end
