(* ===== verification/Model.thy ===== *)
theory Model
  imports Swf
begin

text \<open>
  The rows of the six tables of the store (\<open>internal/dal/model\<close>) and the constants of
  \<open>internal/constants\<close>. The zero value of each structure is what Go builds when a composite
  literal leaves the fields out; the store treats a zero field of a condition or of an update
  as absent.
\<close>

section \<open>Constants\<close>

abbreviation (input) TaskStartID :: string where "TaskStartID \<equiv> ''START''"
abbreviation (input) TaskEndID :: string where "TaskEndID \<equiv> ''END''"
abbreviation (input) NormalStatus :: int where "NormalStatus \<equiv> 1"
abbreviation (input) InvalidStatus :: int where "InvalidStatus \<equiv> -1"

abbreviation (input) TaskInstanceSleepStatus :: int where "TaskInstanceSleepStatus \<equiv> 1"
abbreviation (input) TaskInstanceWaitStatus :: int where "TaskInstanceWaitStatus \<equiv> 2"
abbreviation (input) TaskInstanceProcessStatus :: int where "TaskInstanceProcessStatus \<equiv> 3"
abbreviation (input) TaskInstanceSuccessStatus :: int where "TaskInstanceSuccessStatus \<equiv> 4"
abbreviation (input) TaskInstanceFailStatus :: int where "TaskInstanceFailStatus \<equiv> 5"

abbreviation (input) WorkflowInstanceProcessStatus :: int where "WorkflowInstanceProcessStatus \<equiv> 1"
abbreviation (input) WorkflowInstanceSuccessStatus :: int where "WorkflowInstanceSuccessStatus \<equiv> 2"

abbreviation (input) TaskTypeCall :: string where "TaskTypeCall \<equiv> ''call''"
abbreviation (input) RetryAttempts :: nat where "RetryAttempts \<equiv> 5"
abbreviation (input) EventTypePublish :: string where "EventTypePublish \<equiv> ''publish''"

abbreviation (input) QueueTypeInMemory :: string where "QueueTypeInMemory \<equiv> ''in-memory''"
abbreviation (input) QueueTypeEventMesh :: string where "QueueTypeEventMesh \<equiv> ''eventmesh''"

section \<open>Rows\<close>

text \<open>Instants are numbers; 0 is the zero \<open>time.Time\<close>.\<close>

type_synonym time = nat

record mWorkflow =
  w_ID :: int
  w_WorkflowID :: string
  w_WorkflowName :: string
  w_Definition :: string
  w_Status :: int
  w_Version :: string
  w_CreateTime :: time
  w_UpdateTime :: time
  w_TotalInstances :: int
  w_TotalRunningInstances :: int
  w_TotalFailedInstances :: int

record mWorkflowInstance =
  i_ID :: int
  i_WorkflowID :: string
  i_WorkflowInstanceID :: string
  i_WorkflowStatus :: int
  i_CreateTime :: time
  i_UpdateTime :: time

record queryParam =
  q_WorkflowID :: string
  q_Status :: int
  q_Page :: int
  q_Size :: int

record mWorkflowTaskAction =
  a_ID :: int
  a_WorkflowID :: string
  a_TaskID :: string
  a_OperationName :: string
  a_OperationType :: string
  a_Status :: int
  a_CreateTime :: time
  a_UpdateTime :: time
  a_TaskIDs :: "string list"

record mWorkflowTaskRelation =
  r_ID :: int
  r_WorkflowID :: string
  r_FromTaskID :: string
  r_ToTaskID :: string
  r_Condition :: string
  r_Status :: int
  r_CreateTime :: time
  r_UpdateTime :: time

record mWorkflowTask =
  t_ID :: int
  t_WorkflowID :: string
  t_TaskID :: string
  t_TaskName :: string
  t_TaskType :: string
  t_TaskInputFilter :: string
  t_TaskOutputFilter :: string
  t_TaskDefinition :: string
  t_Status :: int
  t_CreateTime :: time
  t_UpdateTime :: time
  t_Actions :: "mWorkflowTaskAction list"
  t_TaskIDs :: "string list"
  t_WorkflowInstanceID :: string
  t_ChildTasks :: "mWorkflowTaskRelation list"

record mWorkflowTaskInstance =
  ti_ID :: int
  ti_WorkflowInstanceID :: string
  ti_WorkflowID :: string
  ti_TaskID :: string
  ti_TaskInstanceID :: string
  ti_Status :: int
  ti_Input :: string
  ti_RetryTimes :: int
  ti_CreateTime :: time
  ti_UpdateTime :: time
  ti_Task :: "mWorkflowTask option"
  ti_Order :: string
  ti_IsStart :: bool

section \<open>Zero values\<close>

definition zeroWorkflow :: mWorkflow where
  "zeroWorkflow = \<lparr>w_ID = 0, w_WorkflowID = [], w_WorkflowName = [], w_Definition = [], w_Status = 0,
     w_Version = [], w_CreateTime = 0, w_UpdateTime = 0, w_TotalInstances = 0,
     w_TotalRunningInstances = 0, w_TotalFailedInstances = 0\<rparr>"

definition zeroInstance :: mWorkflowInstance where
  "zeroInstance = \<lparr>i_ID = 0, i_WorkflowID = [], i_WorkflowInstanceID = [], i_WorkflowStatus = 0,
     i_CreateTime = 0, i_UpdateTime = 0\<rparr>"

definition zeroAction :: mWorkflowTaskAction where
  "zeroAction = \<lparr>a_ID = 0, a_WorkflowID = [], a_TaskID = [], a_OperationName = [], a_OperationType = [],
     a_Status = 0, a_CreateTime = 0, a_UpdateTime = 0, a_TaskIDs = []\<rparr>"

definition zeroRelation :: mWorkflowTaskRelation where
  "zeroRelation = \<lparr>r_ID = 0, r_WorkflowID = [], r_FromTaskID = [], r_ToTaskID = [], r_Condition = [],
     r_Status = 0, r_CreateTime = 0, r_UpdateTime = 0\<rparr>"

definition zeroTask :: mWorkflowTask where
  "zeroTask = \<lparr>t_ID = 0, t_WorkflowID = [], t_TaskID = [], t_TaskName = [], t_TaskType = [],
     t_TaskInputFilter = [], t_TaskOutputFilter = [], t_TaskDefinition = [], t_Status = 0,
     t_CreateTime = 0, t_UpdateTime = 0, t_Actions = [], t_TaskIDs = [], t_WorkflowInstanceID = [],
     t_ChildTasks = []\<rparr>"

definition zeroTaskInstance :: mWorkflowTaskInstance where
  "zeroTaskInstance = \<lparr>ti_ID = 0, ti_WorkflowInstanceID = [], ti_WorkflowID = [], ti_TaskID = [],
     ti_TaskInstanceID = [], ti_Status = 0, ti_Input = [], ti_RetryTimes = 0, ti_CreateTime = 0,
     ti_UpdateTime = 0, ti_Task = None, ti_Order = [], ti_IsStart = False\<rparr>"

lemmas zero_defs = zeroWorkflow_def zeroInstance_def zeroAction_def zeroRelation_def zeroTask_def
  zeroTaskInstance_def

end
