(* ===== verification/SwfParse.thy ===== *)
theory SwfParse
  imports Swf
begin

text \<open>
  The two DSL parsers of \<open>third_party/swf/swf.go\<close>, from the generic value the YAML decoder
  builds to a validated workflow. The decoder itself (\<open>gopkg.in/yaml.v3\<close>) is the parameter
  \<open>yaml\<close> of \<open>Parse\<close>: it returns an error or the top-level map, nil for an empty document.
\<close>

section \<open>Actions, cases, functions\<close>

definition detectV1TaskType :: "gomap \<Rightarrow> string" where
  "detectV1TaskType def =
     (if mhas def ''call'' then TaskTypeOperation
      else (case find (mhas def)
                   [TaskTypeSwitch, TaskTypeSet, TaskTypeDo, TaskTypeFork, TaskTypeFor, TaskTypeTry,
                    TaskTypeWait, TaskTypeRaise, TaskTypeRun, TaskTypeEmit, TaskTypeListen] of
              Some key \<Rightarrow> key
            | None \<Rightarrow> TaskTypeOperation))"

definition parseV1CallAction :: "gomap \<Rightarrow> action" where
  "parseV1CallAction def =
     (let operationType = expressionString (mget def ''call'');
          withMap = asMap (mget def ''with'');
          arg = (\<lambda>k. expressionString (mget withMap k));
          operationName =
            (if operationType = ''http'' then arg ''endpoint''
             else if operationType = ''openapi''
               then firstNonEmpty [arg ''operationId'', arg ''operation'', arg ''document'']
             else if operationType = ''asyncapi''
               then firstNonEmpty [arg ''operation'', arg ''channel'', arg ''document'']
             else if operationType = ''grpc''
               then firstNonEmpty [arg ''service'', arg ''method'']
             else firstNonEmpty [operationType, arg ''operation'', arg ''endpoint''])
      in \<lparr>OperationName = operationName, OperationType = operationType\<rparr>)"

definition parseReusableFunctions :: "gomap \<Rightarrow> (string \<times> func) list" where
  "parseReusableFunctions raw =
     (let use = asMap (mget raw ''use'') in
      fold (\<lambda>(name, item) functions.
              let action = parseV1CallAction (asMap item) in
              AList.update name
                \<lparr>fnName = name, fnOperation = OperationName action, fnType = OperationType action\<rparr>
                functions)
        (mentries (asMap (mget use ''functions''))) [])"

fun parseV1SwitchCase :: "string \<times> gval \<Rightarrow> switchCase" where
  "parseV1SwitchCase (name, caseDef) =
    (let def = asMap caseDef in
     \<lparr>caseName = name,
      caseCondition = expressionString (mget def ''when''),
      caseThen = expressionString (mget def ''then''),
      caseIsDefault = (name = ''default'' \<or> mget def ''when'' = VNil)\<rparr>)"

definition parseV1SwitchCases :: "gval \<Rightarrow> switchCase list" where
  "parseV1SwitchCases value =
     map parseV1SwitchCase (concat (map (mentries \<circ> asMap) (asSlice value)))"

section \<open>Tasks of DSL 1.0.3\<close>

text \<open>The fields every task type shares: filters, inline data, \<open>then\<close> and the raw definition.\<close>

definition v1Task :: "string \<Rightarrow> gomap \<Rightarrow> action list \<Rightarrow> switchCase list \<Rightarrow> task list \<Rightarrow> task" where
  "v1Task taskName def actions cases children =
     Task taskName (detectV1TaskType def)
       (let input = asMap (mget def ''input'')
        in if mempty input then [] else expressionString (mget input ''from''))
       (let output = asMap (mget def ''output'')
        in if mempty output then [] else expressionString (mget output ''as''))
       (asString (mget def ''data''))
       (if mhas def ''then'' then expressionString (mget def ''then'') else [])
       (mhas def ''then'')
       actions cases children (mustJSON def)"

lemma v1Task_sel [simp]:
  "tName (v1Task n d a c ch) = n" "tType (v1Task n d a c ch) = detectV1TaskType d"
  "tActions (v1Task n d a c ch) = a" "tCases (v1Task n d a c ch) = c"
  "tChildren (v1Task n d a c ch) = ch" "tExplicitThen (v1Task n d a c ch) = mhas d ''then''"
  "tRaw (v1Task n d a c ch) = mustJSON d"
  by (simp_all add: v1Task_def)

text \<open>Values reached through slices, maps and keys are smaller, which is why the recursion ends.\<close>

lemma task_list_decreases:
  assumes "x \<in> set (asSlice v)" and "(n, d) \<in> set (mentries (asMap x))"
  shows "Suc (Suc (msz (asMap d))) < gsz v"
  using gsz_asSlice [OF assms(1)] gsz_mentries [OF assms(2)] msz_asMap [of x] msz_asMap [of d]
  by linarith

lemma mget_asMap_decreases: "gsz (mget (asMap v) k) \<le> gsz v"
  using gsz_mget [of "asMap v" k] msz_asMap [of v] gsz_pos [of v] by linarith

lemma task_decreases: "gsz (mget d k) < Suc (Suc (msz d))"
  using gsz_mget [of d k] by linarith

lemma task_decreases2: "gsz (mget (asMap (mget d k)) k') < Suc (Suc (msz d))"
  using mget_asMap_decreases [of "mget d k" k'] task_decreases [of d k] by linarith

lemma fork_decreases:
  assumes "b \<in> set (asSlice (mget (asMap v) k))"
  shows "Suc (gsz b) < gsz v"
proof -
  from gsz_asSlice [OF assms] have "1 < gsz (mget (asMap v) k)" using gsz_pos [of b] by linarith
  with gsz_asSlice [OF assms] gsz_mget [of "asMap v" k] msz_asMap [of v] show ?thesis by linarith
qed

text \<open>
  The loops of \<open>parseV1TaskList\<close> over the items of the list and over the entries of each item
  are one loop over all entries in order, which stops at the first error. A branch of a fork or
  a \<open>catch\<close> list that does not parse is skipped.
\<close>

function parseV1TaskList :: "gval \<Rightarrow> swf_error + task list"
  and parseV1Task :: "string \<Rightarrow> gomap \<Rightarrow> swf_error + task"
  and parseV1ForkBranches :: "gval \<Rightarrow> task list" where
  "parseV1TaskList value =
     traverse (\<lambda>(taskName, taskDef). parseV1Task taskName (asMap taskDef))
       (concat (map (mentries \<circ> asMap) (asSlice value)))"
| "parseV1Task taskName def =
     (if taskName = [] then Inl TaskNameRequired
      else
        let ty = detectV1TaskType def; mk = v1Task taskName def in
        if ty = TaskTypeOperation \<or> ty = TaskTypeEvent then Inr (mk [parseV1CallAction def] [] [])
        else if ty = TaskTypeSet
          then Inr (mk [\<lparr>OperationName = taskName, OperationType = TaskTypeSet\<rparr>] [] [])
        else if ty = TaskTypeSwitch then Inr (mk [] (parseV1SwitchCases (mget def ''switch'')) [])
        else if ty = TaskTypeDo then
          (case parseV1TaskList (mget def ''do'') of
             Inl e \<Rightarrow> Inl e
           | Inr children \<Rightarrow> Inr (mk [] [] children))
        else if ty = TaskTypeFork then Inr (mk [] [] (parseV1ForkBranches (mget def ''fork'')))
        else if ty = TaskTypeFor then
          (case parseV1TaskList (mget (asMap (mget def ''for'')) ''do'') of
             Inl e \<Rightarrow> Inl e
           | Inr children \<Rightarrow> Inr (mk [] [] children))
        else if ty = TaskTypeTry then
          (case parseV1TaskList (mget def ''try'') of
             Inl e \<Rightarrow> Inl e
           | Inr children \<Rightarrow>
              let catchMap = asMap (mget def ''catch'') in
              if \<not> mempty catchMap \<and> mget catchMap ''when'' \<noteq> VNil then
                (case parseV1TaskList (mget catchMap ''when'') of
                   Inl e \<Rightarrow> Inr (mk [] [] children)
                 | Inr catchTasks \<Rightarrow> Inr (mk [] [] (children @ catchTasks)))
              else Inr (mk [] [] children))
        else if ty \<in> set [TaskTypeEmit, TaskTypeListen, TaskTypeWait, TaskTypeRaise, TaskTypeRun]
          then Inr (mk [\<lparr>OperationName = taskName, OperationType = ty\<rparr>] [] [])
        else Inr (mk [] [] []))"
| "parseV1ForkBranches value =
     concat (map (\<lambda>branch. case parseV1TaskList (VSeq [branch]) of
                             Inl e \<Rightarrow> []
                           | Inr branchTasks \<Rightarrow> branchTasks)
               (asSlice (mget (asMap value) ''branches'')))"
  by pat_completeness auto

termination
  by (relation "measure (case_sum gsz (case_sum (\<lambda>(n, d). Suc (Suc (msz d))) gsz))")
    (auto intro: task_list_decreases task_decreases task_decreases2 fork_decreases)

text \<open>Equations by the form of the value, for evaluation.\<close>

lemma parseV1TaskList_code [code]:
  "parseV1TaskList (VSeq xs) =
     traverse (\<lambda>(taskName, taskDef). parseV1Task taskName (asMap taskDef)) (concat (map (mentries \<circ> asMap) xs))"
  "parseV1TaskList VNil = Inr []" "parseV1TaskList (VBool b) = Inr []" "parseV1TaskList (VInt i) = Inr []"
  "parseV1TaskList (VFloat f g) = Inr []" "parseV1TaskList (VStr s) = Inr []"
  "parseV1TaskList (VTime t u) = Inr []" "parseV1TaskList (VMap m) = Inr []" "parseV1TaskList (VMapI mi) = Inr []"
  by (simp_all add: parseV1TaskList.simps asSlice_def)

declare parseV1TaskList.simps [simp del] parseV1Task.simps [simp del] parseV1ForkBranches.simps [simp del]

section \<open>The two top-level parsers\<close>

definition parseSchedule :: "gval \<Rightarrow> schedule option" where
  "parseSchedule value =
     (let scheduleMap = asMap value in
      if mempty scheduleMap then None
      else Some \<lparr>schStart = asString (mget scheduleMap ''start''),
                 schCron = asString (mget scheduleMap ''cron''),
                 schAfter = asString (mget scheduleMap ''after'')\<rparr>)"

definition parseWorkflowInput :: "gval \<Rightarrow> string" where
  "parseWorkflowInput value =
     (let inputMap = asMap value in
      if mempty inputMap then [] else expressionString (mget inputMap ''from''))"

definition parseV1Workflow :: "gomap \<Rightarrow> swf_error + workflow" where
  "parseV1Workflow raw =
     (let doc = asMap (mget raw ''document'');
          name = asString (mget doc ''name'');
          version = asString (mget doc ''version'');
          dsl = asString (mget doc ''dsl'') in
      if name = [] then Inl DocumentNameRequired
      else if version = [] then Inl DocumentVersionRequired
      else if dsl = [] then Inl DocumentDslRequired
      else (case parseV1TaskList (mget raw ''do'') of
              Inl e \<Rightarrow> Inl e
            | Inr [] \<Rightarrow> Inl DoEmpty
            | Inr (t # ts) \<Rightarrow>
                Inr \<lparr>wfID = name, wfName = name, wfVersion = version, wfDSL = dsl,
                     wfNamespace = asString (mget doc ''namespace''),
                     wfStart = tName t, wfTasks = t # ts,
                     wfFunctions = parseReusableFunctions raw,
                     wfSchedule = parseSchedule (mget raw ''schedule''),
                     wfInput = parseWorkflowInput (mget raw ''input''),
                     wfOutput = expressionString (mget (asMap (mget raw ''output'')) ''as''),
                     wfLegacy = False\<rparr>))"

definition legacyThen :: "gomap \<Rightarrow> string" where
  "legacyThen stateMap =
     (let transition = asString (mget stateMap ''transition'') in
      if transition \<noteq> [] then transition
      else if asBool (mget stateMap ''end'') then ''end'' else [])"

definition parseLegacyActions :: "gomap \<Rightarrow> (string \<times> func) list \<Rightarrow> action list" where
  "parseLegacyActions stateMap functions =
     (let actionValues = asSlice (mget stateMap ''actions'')
            @ concat (map (\<lambda>onEvent. asSlice (mget (asMap onEvent) ''actions''))
                        (asSlice (mget stateMap ''onEvents''))) in
      concat (map (\<lambda>actionValue.
          let functionRef = asMap (mget (asMap actionValue) ''functionRef'');
              functionName = asString (mget functionRef ''refName'') in
          (case map_of functions functionName of
             None \<Rightarrow> []
           | Some fn \<Rightarrow> [\<lparr>OperationName = fnOperation fn, OperationType = fnType fn\<rparr>]))
        actionValues))"

definition legacyCaseThen :: "gomap \<Rightarrow> string" where
  "legacyCaseThen condition =
     (let target = asString (mget condition ''transition'') in
      if target = [] \<and> asBool (mget condition ''end'') then ''end'' else target)"

definition parseLegacySwitchCases :: "gomap \<Rightarrow> switchCase list" where
  "parseLegacySwitchCases stateMap =
     map (\<lambda>conditionValue.
        let condition = asMap conditionValue in
        \<lparr>caseName = asString (mget condition ''name''),
         caseCondition = expressionString (mget condition ''condition''),
         caseThen = legacyCaseThen condition, caseIsDefault = False\<rparr>)
       (asSlice (mget stateMap ''dataConditions''))
     @ (let defaultCondition = asMap (mget stateMap ''defaultCondition'') in
        if mempty defaultCondition then []
        else [\<lparr>caseName = ''default'', caseCondition = [],
               caseThen = legacyCaseThen defaultCondition, caseIsDefault = True\<rparr>])"

definition legacyFunctions :: "gval list \<Rightarrow> (string \<times> func) list" where
  "legacyFunctions items =
     fold (\<lambda>item functions.
        let fnMap = asMap item; name = asString (mget fnMap ''name'') in
        if name = [] then functions
        else AList.update name
               \<lparr>fnName = name, fnOperation = asString (mget fnMap ''operation''),
                fnType = asString (mget fnMap ''type'')\<rparr> functions) items []"

definition legacyTask :: "(string \<times> func) list \<Rightarrow> gomap \<Rightarrow> task" where
  "legacyTask functions stateMap =
     (let ty = asString (mget stateMap ''type'') in
      Task (asString (mget stateMap ''name'')) ty
        (let filt = asMap (mget stateMap ''stateDataFilter'')
         in if mempty filt then [] else asString (mget filt ''input''))
        [] [] (legacyThen stateMap) True
        (parseLegacyActions stateMap functions)
        (if ty = TaskTypeSwitch then parseLegacySwitchCases stateMap else [])
        [] [])"

definition parseLegacyWorkflow :: "gomap \<Rightarrow> swf_error + workflow" where
  "parseLegacyWorkflow raw =
     (let id = asString (mget raw ''id''); states = asSlice (mget raw ''states'') in
      if id = [] then Inl IdRequired
      else if states = [] then Inl StatesEmpty
      else
        let functions = legacyFunctions (asSlice (mget raw ''functions''));
            tasks = map (legacyTask functions)
                      (filter (\<lambda>stateMap. asString (mget stateMap ''name'') \<noteq> []) (map asMap states));
            start = asString (mget raw ''start'');
            start = (case tasks of t # _ \<Rightarrow> if start = [] then tName t else start | [] \<Rightarrow> start)
        in Inr \<lparr>wfID = id, wfName = asString (mget raw ''name''),
                wfVersion = asString (mget raw ''version''),
                wfDSL = asString (mget raw ''specVersion''), wfNamespace = [],
                wfStart = start, wfTasks = tasks, wfFunctions = functions, wfSchedule = None,
                wfInput = [], wfOutput = [], wfLegacy = True\<rparr>)"

definition Parse :: "(string \<Rightarrow> string + gomap) \<Rightarrow> string \<Rightarrow> swf_error + workflow option" where
  "Parse yaml source =
     (if trim_space source = [] then Inr None
      else (case yaml source of
              Inl e \<Rightarrow> Inl (YamlError e)
            | Inr raw \<Rightarrow>
                (case (if mhas raw ''document'' then parseV1Workflow raw else parseLegacyWorkflow raw) of
                   Inl e \<Rightarrow> Inl e
                 | Inr w \<Rightarrow> (case Validate w of Some e \<Rightarrow> Inl e | None \<Rightarrow> Inr (Some w)))))"

section \<open>What the parsers build\<close>

text \<open>
  The shape of a task of DSL 1.0.3: its type decides whether it carries actions, cases or child
  tasks, and only one of the three.
\<close>

definition v1_leaf :: "string set" where
  "v1_leaf = {TaskTypeOperation, TaskTypeSet, TaskTypeEmit, TaskTypeListen, TaskTypeWait,
     TaskTypeRaise, TaskTypeRun}"

definition v1_block :: "string set" where
  "v1_block = {TaskTypeDo, TaskTypeFork, TaskTypeFor, TaskTypeTry}"

definition v1_shape :: "task \<Rightarrow> bool" where
  "v1_shape t \<longleftrightarrow> tName t \<noteq> [] \<and>
     (tType t \<in> v1_leaf \<and> length (tActions t) = 1 \<and> tCases t = [] \<and> tChildren t = []
      \<or> tType t = TaskTypeSwitch \<and> tActions t = [] \<and> tChildren t = []
      \<or> tType t \<in> v1_block \<and> tActions t = [] \<and> tCases t = [])"

lemma detectV1TaskType_range:
  "detectV1TaskType def \<in> v1_leaf \<union> v1_block \<union> {TaskTypeSwitch}"
  by (simp add: detectV1TaskType_def v1_leaf_def v1_block_def)

lemma walk_v1Task: "set (walk [v1Task n d a c ch]) = insert (v1Task n d a c ch) (set (walk ch))"
  by simp

lemma parseV1_shape:
  "parseV1TaskList v = Inr ts \<Longrightarrow> \<forall>t\<in>set (walk ts). v1_shape t"
  "parseV1Task n d = Inr t \<Longrightarrow> \<forall>u\<in>set (walk [t]). v1_shape u"
  "\<forall>t\<in>set (walk (parseV1ForkBranches v)). v1_shape t"
proof (induction v and n d and v arbitrary: ts and t rule: parseV1TaskList_parseV1Task_parseV1ForkBranches.induct)
  case (1 v)
  show ?case
  proof
    fix t assume "t \<in> set (walk ts)"
    then obtain c where c: "c \<in> set ts" "t \<in> set (walk [c])" by (auto simp: set_walk [of ts])
    from traverse_Inr_mem [OF 1(2) [unfolded parseV1TaskList.simps] c(1)]
    obtain m d where "(m, d) \<in> set (concat (map (mentries \<circ> asMap) (asSlice v)))"
      and "parseV1Task m (asMap d) = Inr c" by auto
    with 1(1) [of "(m, d)" m d c] c(2) show "v1_shape t" by auto
  qed
next
  case (2 taskName def)
  let ?ty = "detectV1TaskType def" and ?mk = "v1Task taskName def"
  have n: "taskName \<noteq> []" using 2(6) by (auto simp: parseV1Task.simps)
  consider (leaf) "?ty \<in> v1_leaf" | (switch) "?ty = TaskTypeSwitch" | (seq) "?ty = TaskTypeDo"
    | (fork) "?ty = TaskTypeFork" | (iter) "?ty = TaskTypeFor" | (guarded) "?ty = TaskTypeTry"
    using detectV1TaskType_range [of def] by (auto simp: v1_block_def)
  then show ?case
  proof cases
    case leaf
    then obtain a where "t = ?mk [a] [] []"
      using 2(6) n by (auto simp: parseV1Task.simps v1_leaf_def)
    with leaf n show ?thesis by (simp add: v1_shape_def)
  next
    case switch
    then obtain cs where "t = ?mk [] cs []" using 2(6) n by (auto simp: parseV1Task.simps)
    with switch n show ?thesis by (simp add: v1_shape_def)
  next
    case seq
    then obtain ch where "t = ?mk [] [] ch" "parseV1TaskList (mget def ''do'') = Inr ch"
      using 2(6) n by (auto simp: parseV1Task.simps split: sum.splits)
    with seq n 2(1) show ?thesis by (simp add: v1_shape_def v1_block_def)
  next
    case fork
    then have "t = ?mk [] [] (parseV1ForkBranches (mget def ''fork''))"
      using 2(6) n by (auto simp: parseV1Task.simps)
    with fork n 2(2) show ?thesis by (simp add: v1_shape_def v1_block_def)
  next
    case iter
    then obtain ch where "t = ?mk [] [] ch" "parseV1TaskList (mget (asMap (mget def ''for'')) ''do'') = Inr ch"
      using 2(6) n by (auto simp: parseV1Task.simps split: sum.splits)
    with iter n 2(3) show ?thesis by (simp add: v1_shape_def v1_block_def)
  next
    case guarded
    then obtain ch ct where t: "t = ?mk [] [] (ch @ ct)" "parseV1TaskList (mget def ''try'') = Inr ch"
      and ct: "ct = [] \<or> mempty (asMap (mget def ''catch'')) = False \<and>
        mget (asMap (mget def ''catch'')) ''when'' \<noteq> VNil \<and>
        parseV1TaskList (mget (asMap (mget def ''catch'')) ''when'') = Inr ct"
      using 2(6) n by (auto simp: parseV1Task.simps Let_def split: sum.splits if_splits)
    from ct t(2) guarded n 2(5) have "\<forall>u\<in>set (walk ct). v1_shape u" by auto
    moreover from t(2) guarded n 2(4) have "\<forall>u\<in>set (walk ch). v1_shape u" by simp
    ultimately show ?thesis using t(1) guarded n by (auto simp: v1_shape_def v1_block_def walk_append)
  qed
next
  case (3 v)
  show ?case
  proof
    fix t assume "t \<in> set (walk (parseV1ForkBranches v))"
    then obtain c where c: "c \<in> set (parseV1ForkBranches v)" "t \<in> set (walk [c])"
      by (auto simp: set_walk [of "parseV1ForkBranches v"])
    from c(1) obtain b bs where b: "b \<in> set (asSlice (mget (asMap v) ''branches''))"
      "parseV1TaskList (VSeq [b]) = Inr bs" "c \<in> set bs"
      by (auto simp: parseV1ForkBranches.simps split: sum.splits) metis
    from b(3) c(2) have "t \<in> set (walk bs)" by (subst set_walk) blast
    with 3 [OF b(1,2)] show "v1_shape t" by blast
  qed
qed

text \<open>A legacy workflow is flat, and each of its tasks names its successor explicitly.\<close>

lemma walk_flat: "(\<And>t. t \<in> set ts \<Longrightarrow> tChildren t = []) \<Longrightarrow> walk ts = ts"
  by (induction ts) auto

lemma legacyTask_sel [simp]:
  "tChildren (legacyTask fs m) = []" "tExplicitThen (legacyTask fs m)"
  "tName (legacyTask fs m) = asString (mget m ''name'')"
  by (simp_all add: legacyTask_def Let_def)

lemma parseLegacyWorkflow_flat:
  assumes "parseLegacyWorkflow raw = Inr w"
  shows "wfLegacy w" "wfID w \<noteq> []" "FlattenTasks w = wfTasks w" "\<forall>t\<in>set (wfTasks w). tExplicitThen t"
    "wfStart w = [] \<Longrightarrow> wfTasks w = []"
proof -
  show "wfLegacy w" "wfID w \<noteq> []"
    using assms by (auto simp: parseLegacyWorkflow_def Let_def split: if_splits)
  have kids: "tChildren t = [] \<and> tExplicitThen t \<and> tName t \<noteq> []" if "t \<in> set (wfTasks w)" for t
    using assms that by (auto simp: parseLegacyWorkflow_def Let_def split: if_splits)
  then show "FlattenTasks w = wfTasks w" "\<forall>t\<in>set (wfTasks w). tExplicitThen t"
    by (auto simp: FlattenTasks_def intro: walk_flat)
  show "wfTasks w = []" if "wfStart w = []"
  proof (cases "wfTasks w")
    case (Cons t ts)
    with kids have "tName t \<noteq> []" by simp
    with assms that Cons show ?thesis
      by (auto simp: parseLegacyWorkflow_def Let_def split: if_splits list.splits)
  qed
qed

lemma parseV1Workflow_ok:
  assumes "parseV1Workflow raw = Inr w"
  shows "\<not> wfLegacy w" "wfID w \<noteq> []" "wfVersion w \<noteq> []" "wfDSL w \<noteq> []"
    "wfTasks w \<noteq> []" "wfStart w = tName (hd (wfTasks w))" "\<forall>t\<in>set (FlattenTasks w). v1_shape t"
  using assms parseV1_shape(1)
  by (auto simp: parseV1Workflow_def Let_def FlattenTasks_def split: if_splits sum.splits list.splits)

lemma Parse_SomeE:
  assumes "Parse yaml source = Inr (Some w)"
  obtains raw where "yaml source = Inr raw" "trim_space source \<noteq> []" "Validate w = None"
    "if mhas raw ''document'' then parseV1Workflow raw = Inr w else parseLegacyWorkflow raw = Inr w"
  using assms by (auto simp: Parse_def split: if_splits sum.splits option.splits)

lemma Parse_cases:
  assumes "Parse yaml source = Inr (Some w)"
  obtains (v1) raw where "\<not> wfLegacy w" "parseV1Workflow raw = Inr w" "well_formed w"
    | (legacy) raw where "wfLegacy w" "parseLegacyWorkflow raw = Inr w" "well_formed w"
  using Parse_SomeE [OF assms] parseV1Workflow_ok(1) parseLegacyWorkflow_flat(1)
  by (metis Validate_None_iff)

lemma parse_start_task:
  assumes "parseV1Workflow raw = Inr w"
  shows "wfStart w \<in> tName ` set (FlattenTasks w)"
  using parseV1Workflow_ok(5,6) [OF assms] walk_top [of "wfTasks w"]
  by (cases "wfTasks w") (auto simp: FlattenTasks_def)

text \<open>A document with a switch and a call, on which closed instances are evaluated.\<close>

definition demo_v1 :: gomap where
  "demo_v1 = Some
     [(''document'', VMap [(''name'', VStr ''order''), (''version'', VStr ''1''), (''dsl'', VStr ''1.0.3'')]),
      (''do'', VSeq
         [VMap [(''check'', VMap [(''switch'', VSeq
             [VMap [(''big'', VMap [(''when'', VStr ''${ .n > 5 }''), (''then'', VStr ''ship'')])],
              VMap [(''default'', VMap [(''then'', VStr ''end'')])]])])],
          VMap [(''ship'', VMap [(''call'', VStr ''http''),
             (''with'', VMap [(''endpoint'', VStr ''http://s'')]), (''then'', VStr ''end'')])]])]"

fun accepted :: "swf_error + workflow option \<Rightarrow> (workflow \<Rightarrow> bool) \<Rightarrow> bool" where
  "accepted (Inr (Some w)) P = P w"
| "accepted _ P = False"

lemma acceptedE:
  assumes "accepted r P"
  obtains w where "r = Inr (Some w)" and "P w"
  using assms by (cases "(r, P)" rule: accepted.cases) auto

lemma demo_v1_Parse:
  "accepted (Parse (\<lambda>_. Inr demo_v1) ''x'') (\<lambda>w. map tName (FlattenTasks w) = [''check'', ''ship''])"
  by code_simp

section \<open>Properties\<close>

text \<open>
  C15: Whatever the YAML decoder returns, a workflow that \<open>Parse\<close> accepts is well formed and has an
  id; one of DSL 1.0.3 also has a version and a DSL version, starts at a task of its own, and
  each of its tasks, nested ones included, carries exactly what its type calls for; a legacy one
  is flat, with a start name, and every task of it says explicitly where the flow goes next.
\<close>

theorem Parse_sound:
  assumes "Parse yaml source = Inr (Some w)"
  shows "well_formed w \<and> wfID w \<noteq> [] \<and>
    (if wfLegacy w
     then FlattenTasks w = wfTasks w \<and> wfStart w \<noteq> [] \<and> (\<forall>t\<in>set (wfTasks w). tExplicitThen t)
     else wfVersion w \<noteq> [] \<and> wfDSL w \<noteq> [] \<and> wfStart w = tName (hd (wfTasks w))
       \<and> (\<forall>t\<in>set (FlattenTasks w). v1_shape t))"
  using assms
proof (cases rule: Parse_cases)
  case (v1 raw)
  with parseV1Workflow_ok [OF v1(2)] show ?thesis by simp
next
  case (legacy raw)
  from legacy(3) have "wfTasks w \<noteq> []" by (auto simp: well_formed_def FlattenTasks_def Let_def)
  with legacy parseLegacyWorkflow_flat [OF legacy(2)] show ?thesis by auto
qed

theorem Parse_sound_witness:
  "\<exists>w. Parse (\<lambda>_. Inr demo_v1) ''x'' = Inr (Some w) \<and> well_formed w \<and>
       map tName (FlattenTasks w) = [''check'', ''ship'']"
proof -
  from demo_v1_Parse obtain w where w: "Parse (\<lambda>_. Inr demo_v1) ''x'' = Inr (Some w)"
    "map tName (FlattenTasks w) = [''check'', ''ship'']" by (rule acceptedE)
  have "well_formed w" by (rule conjunct1 [OF Parse_sound [OF w(1)]])
  with w show ?thesis by (intro exI conjI)
qed

end
