(* ===== verification/DalGraph.thy ===== *)
theory DalGraph
  imports Model SwfParse
begin

text \<open>
  The compilation of a parsed workflow into the rows of the task graph
  (\<open>internal/dal/workflow.go\<close>: \<open>buildTask\<close>, \<open>buildTaskAction\<close>, \<open>buildTaskRelation\<close> and their
  helpers), and the abstract graph over task names that it implements. A task id is
  \<open>uuid.New().String()\<close>: the generator is the parameter \<open>uuid\<close>, a stream whose \<open>n\<close>-th value
  is the \<open>n\<close>-th identifier drawn in the process. The instants that one call reads from the
  clock are one value \<open>now\<close>.
\<close>

section \<open>Rows of a task and its actions\<close>

definition normalizeTaskType :: "string \<Rightarrow> string" where
  "normalizeTaskType taskType =
     (if taskType \<in> set [TaskTypeOperation, TaskTypeEvent, TaskTypeSwitch, TaskTypeSet, TaskTypeDo,
          TaskTypeFork, TaskTypeFor, TaskTypeTry, TaskTypeWait, TaskTypeRaise, TaskTypeRun,
          TaskTypeEmit, TaskTypeListen]
      then taskType else TaskTypeOperation)"

definition newTaskAction :: "time \<Rightarrow> string \<Rightarrow> string \<Rightarrow> string \<Rightarrow> string \<Rightarrow> mWorkflowTaskAction" where
  "newTaskAction now taskID workflowID opName opType =
     zeroAction\<lparr>a_WorkflowID := workflowID, a_TaskID := taskID, a_OperationName := opName,
       a_OperationType := opType, a_Status := NormalStatus, a_CreateTime := now, a_UpdateTime := now\<rparr>"

definition buildTaskAction :: "time \<Rightarrow> string \<Rightarrow> string \<Rightarrow> task \<Rightarrow> mWorkflowTaskAction list" where
  "buildTaskAction now taskID workflowID workflowTask =
     (let actions = map (\<lambda>action. newTaskAction now taskID workflowID
                           (OperationName action) (OperationType action)) (tActions workflowTask) in
      if actions = []
      then [newTaskAction now taskID workflowID (tName workflowTask)
              (normalizeTaskType (tType workflowTask))]
      else actions)"

definition buildOneTask :: "(nat \<Rightarrow> string) \<Rightarrow> time \<Rightarrow> workflow \<Rightarrow> nat \<times> task \<Rightarrow> mWorkflowTask" where
  "buildOneTask uuid now w = (\<lambda>(i, workflowTask).
     zeroTask\<lparr>t_WorkflowID := wfID w, t_TaskID := uuid i, t_TaskName := tName workflowTask,
       t_Status := NormalStatus, t_TaskType := normalizeTaskType (tType workflowTask),
       t_TaskInputFilter := tInputFilter workflowTask,
       t_TaskOutputFilter := tOutputFilter workflowTask,
       t_TaskDefinition := tRaw workflowTask, t_CreateTime := now, t_UpdateTime := now,
       t_Actions := buildTaskAction now (uuid i) (wfID w) workflowTask\<rparr>)"

text \<open>\<open>n\<close> is the number of identifiers drawn before the call.\<close>

definition buildTask :: "(nat \<Rightarrow> string) \<Rightarrow> nat \<Rightarrow> time \<Rightarrow> workflow \<Rightarrow> mWorkflowTask list" where
  "buildTask uuid n now w =
     (if wfTasks w = [] then []
      else map (buildOneTask uuid now w) (enumerate n (FlattenTasks w)))"

section \<open>Rows of the relations between tasks\<close>

text \<open>The Go map from task names to task ids; a missing name reads as the empty string.\<close>

definition taskIDMap :: "mWorkflowTask list \<Rightarrow> (string \<rightharpoonup> string)" where
  "taskIDMap tasks = fold (\<lambda>task ids. ids(t_TaskName task \<mapsto> t_TaskID task)) tasks Map.empty"

definition idOf :: "(string \<rightharpoonup> string) \<Rightarrow> string \<Rightarrow> string" where
  "idOf taskIDs name = (case taskIDs name of None \<Rightarrow> [] | Some i \<Rightarrow> i)"

definition newTaskRelation :: "time \<Rightarrow> string \<Rightarrow> string \<Rightarrow> string \<Rightarrow> string \<Rightarrow> mWorkflowTaskRelation" where
  "newTaskRelation now workflowID fromTaskID toTaskID condition =
     zeroRelation\<lparr>r_WorkflowID := workflowID, r_FromTaskID := fromTaskID, r_ToTaskID := toTaskID,
       r_Condition := condition, r_Status := NormalStatus, r_CreateTime := now, r_UpdateTime := now\<rparr>"

definition resolveFlowDirective :: "string \<Rightarrow> (string \<rightharpoonup> string) \<Rightarrow> string" where
  "resolveFlowDirective next taskIDs =
     (if next = [] \<or> next = ''end'' \<or> next = ''exit'' then TaskEndID
      else if next = ''continue'' then TaskEndID
      else let taskID = idOf taskIDs next in if taskID \<noteq> [] then taskID else TaskEndID)"

definition resolveNextTaskID :: "task \<Rightarrow> (string \<rightharpoonup> string) \<Rightarrow> string" where
  "resolveNextTaskID workflowTask taskIDs =
     (if tExplicitThen workflowTask then resolveFlowDirective (tThen workflowTask) taskIDs
      else (case tChildren workflowTask of
              child # _ \<Rightarrow> resolveFlowDirective (tName child) taskIDs
            | [] \<Rightarrow> TaskEndID))"

definition buildSwitchTaskRelation :: "time \<Rightarrow> string \<Rightarrow> task \<Rightarrow> string \<Rightarrow> (string \<rightharpoonup> string) \<Rightarrow>
    mWorkflowTaskRelation list" where
  "buildSwitchTaskRelation now workflowID workflowTask fromTaskID taskIDs =
     (let rel = map (\<lambda>item. newTaskRelation now workflowID fromTaskID
                       (resolveFlowDirective (caseThen item) taskIDs) (caseCondition item))
                  (tCases workflowTask) in
      if rel = [] then [newTaskRelation now workflowID fromTaskID TaskEndID []] else rel)"

definition buildForkTaskRelation :: "time \<Rightarrow> string \<Rightarrow> task \<Rightarrow> string \<Rightarrow> (string \<rightharpoonup> string) \<Rightarrow>
    mWorkflowTaskRelation list" where
  "buildForkTaskRelation now workflowID workflowTask fromTaskID taskIDs =
     (let rel = map (\<lambda>child.
                  let branchStartID = idOf taskIDs (tName child);
                      branchStartID = (if branchStartID = [] then TaskEndID else branchStartID)
                  in newTaskRelation now workflowID fromTaskID branchStartID [])
                  (tChildren workflowTask) in
      if rel = [] then [newTaskRelation now workflowID fromTaskID TaskEndID []] else rel)"

definition taskRelations :: "time \<Rightarrow> workflow \<Rightarrow> (string \<rightharpoonup> string) \<Rightarrow> task \<Rightarrow> mWorkflowTaskRelation list" where
  "taskRelations now w taskIDs workflowTask =
     (let fromTaskID = idOf taskIDs (tName workflowTask) in
      if fromTaskID = [] then []
      else if tType workflowTask = TaskTypeSwitch
        then buildSwitchTaskRelation now (wfID w) workflowTask fromTaskID taskIDs
      else if tType workflowTask = TaskTypeFork
        then buildForkTaskRelation now (wfID w) workflowTask fromTaskID taskIDs
      else [newTaskRelation now (wfID w) fromTaskID (resolveNextTaskID workflowTask taskIDs) []])"

definition buildTaskRelation :: "time \<Rightarrow> workflow \<Rightarrow> mWorkflowTask list \<Rightarrow> mWorkflowTaskRelation list" where
  "buildTaskRelation now w tasks =
     (if wfTasks w = [] then []
      else
        let taskIDs = taskIDMap tasks;
            startTaskID = idOf taskIDs (wfStart w)
        in (if startTaskID \<noteq> [] then [newTaskRelation now (wfID w) TaskStartID startTaskID []] else [])
           @ concat (map (taskRelations now w taskIDs) (FlattenTasks w)))"

section \<open>The abstract graph\<close>

text \<open>
  The graph a workflow denotes, over task names: an edge leaves \<open>Start\<close> to the start task; a
  switch has one edge per case, labelled with its condition; a fork has one edge per branch; any
  other task has one edge, to its explicit target, else to its first child, else to \<open>End\<close>.
\<close>

datatype node = Start | End | Node string

definition goto :: "string set \<Rightarrow> string \<Rightarrow> node" where
  "goto names n =
     (if n \<in> {[], ''end'', ''exit'', ''continue''} \<or> n \<notin> names then End else Node n)"

definition task_edges :: "string set \<Rightarrow> task \<Rightarrow> (node \<times> node \<times> string) list" where
  "task_edges names t =
     map (\<lambda>(target, condition). (Node (tName t), target, condition))
       (if tType t = TaskTypeSwitch then
          (if tCases t = [] then [(End, [])]
           else map (\<lambda>c. (goto names (caseThen c), caseCondition c)) (tCases t))
        else if tType t = TaskTypeFork then
          (if tChildren t = [] then [(End, [])] else map (\<lambda>c. (Node (tName c), [])) (tChildren t))
        else if tExplicitThen t then [(goto names (tThen t), [])]
        else if tChildren t = [] then [(End, [])]
        else [(goto names (tName (hd (tChildren t))), [])])"

definition spec_graph :: "workflow \<Rightarrow> (node \<times> node \<times> string) list" where
  "spec_graph w =
     (let names = tName ` set (FlattenTasks w) in
      (if wfStart w \<in> names then [(Start, Node (wfStart w), [])] else [])
      @ concat (map (task_edges names) (FlattenTasks w)))"

text \<open>The node a stored task id stands for, and the edge a stored relation stands for.\<close>

definition absNode :: "mWorkflowTask list \<Rightarrow> string \<Rightarrow> node" where
  "absNode tasks i =
     (if i = TaskStartID then Start
      else if i = TaskEndID then End
      else (case find (\<lambda>t. t_TaskID t = i) tasks of Some t \<Rightarrow> Node (t_TaskName t) | None \<Rightarrow> End))"

definition absRelation :: "mWorkflowTask list \<Rightarrow> mWorkflowTaskRelation \<Rightarrow> node \<times> node \<times> string" where
  "absRelation tasks r = (absNode tasks (r_FromTaskID r), absNode tasks (r_ToTaskID r), r_Condition r)"

text \<open>
  What the program relies on from the identifier generator: no identifier comes twice, and none
  is empty or one of the two reserved words.
\<close>

definition uuid_ok :: "(nat \<Rightarrow> string) \<Rightarrow> bool" where
  "uuid_ok uuid \<longleftrightarrow> inj uuid \<and> (\<forall>n. uuid n \<noteq> [] \<and> uuid n \<noteq> TaskStartID \<and> uuid n \<noteq> TaskEndID)"

definition demo_uuid :: "nat \<Rightarrow> string" where
  "demo_uuid n = CHR ''u'' # replicate n (CHR ''x'')"

lemma demo_uuid_ok: "uuid_ok demo_uuid"
  by (auto simp: uuid_ok_def demo_uuid_def inj_def)

section \<open>The id map\<close>

lemma taskIDMap_map_of:
  "taskIDMap tasks = map_of (rev (map (\<lambda>t. (t_TaskName t, t_TaskID t)) tasks))"
proof -
  have "fold (\<lambda>task ids. ids(t_TaskName task \<mapsto> t_TaskID task)) ts m
          = m ++ map_of (rev (map (\<lambda>t. (t_TaskName t, t_TaskID t)) ts))" for ts m
    by (induction ts arbitrary: m) (auto simp: map_add_assoc [symmetric])
  from this [of tasks Map.empty] show ?thesis by (simp add: taskIDMap_def)
qed

lemma taskIDMap_distinct:
  assumes "distinct (map t_TaskName tasks)"
  shows "taskIDMap tasks n = Some i \<longleftrightarrow> (\<exists>t\<in>set tasks. t_TaskName t = n \<and> t_TaskID t = i)"
proof -
  have "distinct (map fst (rev (map (\<lambda>t. (t_TaskName t, t_TaskID t)) tasks)))"
    using assms by (simp add: rev_map [symmetric] comp_def)
  then show ?thesis by (auto simp: taskIDMap_map_of map_of_eq_Some_iff)
qed

lemma taskIDMap_None: "taskIDMap tasks n = None \<longleftrightarrow> n \<notin> t_TaskName ` set tasks"
  by (auto simp: taskIDMap_map_of map_of_eq_None_iff image_iff)

lemma buildOneTask_sel [simp]:
  "t_TaskID (buildOneTask uuid now w (i, t)) = uuid i"
  "t_TaskName (buildOneTask uuid now w (i, t)) = tName t"
  "t_WorkflowID (buildOneTask uuid now w (i, t)) = wfID w"
  "t_Status (buildOneTask uuid now w (i, t)) = NormalStatus"
  "t_TaskType (buildOneTask uuid now w (i, t)) = normalizeTaskType (tType t)"
  by (simp_all add: buildOneTask_def zero_defs)

lemma buildTask_names: "map t_TaskName (buildTask uuid n now w) = map tName (FlattenTasks w)"
proof (cases "wfTasks w = []")
  case False
  have "map (t_TaskName \<circ> buildOneTask uuid now w) (enumerate n ts) = map tName ts" for n ts
    by (induction ts arbitrary: n) auto
  with False show ?thesis by (simp add: buildTask_def)
qed (simp add: buildTask_def FlattenTasks_def)

lemma buildTask_ids: "map t_TaskID (buildTask uuid n now w) = map uuid [n..<n + length (FlattenTasks w)]"
proof (cases "wfTasks w = []")
  case False
  have "map (t_TaskID \<circ> buildOneTask uuid now w) (enumerate n ts) = map uuid [n..<n + length ts]" for n ts
    by (induction ts arbitrary: n) (auto simp: upt_rec)
  with False show ?thesis by (simp add: buildTask_def)
qed (simp add: buildTask_def FlattenTasks_def)

lemma buildTask_ids_distinct: "uuid_ok uuid \<Longrightarrow> distinct (map t_TaskID (buildTask uuid n now w))"
  unfolding buildTask_ids by (auto simp: uuid_ok_def distinct_map intro: inj_on_subset)

lemma buildTask_id_ok:
  assumes "uuid_ok uuid" and "t \<in> set (buildTask uuid n now w)"
  shows "t_TaskID t \<noteq> [] \<and> t_TaskID t \<noteq> TaskStartID \<and> t_TaskID t \<noteq> TaskEndID"
proof -
  from assms(2) have "t_TaskID t \<in> set (map t_TaskID (buildTask uuid n now w))" by simp
  then obtain k where "t_TaskID t = uuid k" unfolding buildTask_ids by auto
  with assms(1) show ?thesis by (simp add: uuid_ok_def)
qed

section \<open>The graph is implemented\<close>

lemma find_distinct_key:
  assumes "distinct (map f xs)" and "x \<in> set xs"
  shows "find (\<lambda>y. f y = f x) xs = Some x"
  using assms by (induction xs) auto

lemma absNode_task:
  assumes "uuid_ok uuid" and "t \<in> set (buildTask uuid n now w)"
  shows "absNode (buildTask uuid n now w) (t_TaskID t) = Node (t_TaskName t)"
  using buildTask_id_ok [OF assms] find_distinct_key [OF buildTask_ids_distinct [OF assms(1)] assms(2)]
  by (simp add: absNode_def)

lemma idOf_name:
  assumes u: "uuid_ok uuid" and d: "distinct (map tName (FlattenTasks w))"
  shows "if m \<in> tName ` set (FlattenTasks w)
         then idOf (taskIDMap (buildTask uuid n now w)) m \<noteq> [] \<and>
              absNode (buildTask uuid n now w) (idOf (taskIDMap (buildTask uuid n now w)) m) = Node m
         else idOf (taskIDMap (buildTask uuid n now w)) m = []"
proof -
  let ?ts = "buildTask uuid n now w"
  have names: "t_TaskName ` set ?ts = tName ` set (FlattenTasks w)"
    using buildTask_names [of uuid n now w] by (metis list.set_map)
  have d': "distinct (map t_TaskName ?ts)" by (simp add: buildTask_names d)
  show ?thesis
  proof (cases "m \<in> tName ` set (FlattenTasks w)")
    case True
    then obtain t where t: "t \<in> set ?ts" "t_TaskName t = m" by (auto simp: names [symmetric])
    then have "taskIDMap ?ts m = Some (t_TaskID t)" by (auto simp: taskIDMap_distinct [OF d'])
    with True t absNode_task [OF u t(1)] buildTask_id_ok [OF u t(1)] show ?thesis by (simp add: idOf_def)
  next
    case False
    then have "taskIDMap ?ts m = None" by (simp add: taskIDMap_None names)
    with False show ?thesis by (simp add: idOf_def)
  qed
qed

lemma absNode_End [simp]: "absNode tasks ''END'' = End"
  by (simp add: absNode_def)

lemma absNode_Start [simp]: "absNode tasks ''START'' = Start"
  by (simp add: absNode_def)

lemma absNode_resolve:
  assumes "uuid_ok uuid" and "distinct (map tName (FlattenTasks w))"
  shows "absNode (buildTask uuid n now w)
           (resolveFlowDirective m (taskIDMap (buildTask uuid n now w)))
         = goto (tName ` set (FlattenTasks w)) m"
  using idOf_name [OF assms, of m n now]
  by (auto simp: resolveFlowDirective_def goto_def Let_def split: if_splits)

lemma absRelation_new [simp]:
  "absRelation tasks (newTaskRelation now i f t c) = (absNode tasks f, absNode tasks t, c)"
  by (simp add: absRelation_def newTaskRelation_def zero_defs)

lemma taskRelations_refines:
  assumes u: "uuid_ok uuid" and d: "distinct (map tName (FlattenTasks w))"
    and t: "t \<in> set (FlattenTasks w)"
  shows "map (absRelation (buildTask uuid n now w))
           (taskRelations now w (taskIDMap (buildTask uuid n now w)) t)
         = task_edges (tName ` set (FlattenTasks w)) t"
proof -
  let ?ts = "buildTask uuid n now w" and ?names = "tName ` set (FlattenTasks w)"
  let ?ids = "taskIDMap ?ts"
  have own: "idOf ?ids (tName t) \<noteq> []" "absNode ?ts (idOf ?ids (tName t)) = Node (tName t)"
    using idOf_name [OF u d, of "tName t" n now] t by auto
  have kids: "idOf ?ids (tName c) \<noteq> []" "absNode ?ts (idOf ?ids (tName c)) = Node (tName c)"
    if "c \<in> set (tChildren t)" for c
  proof -
    have "c \<in> set (FlattenTasks w)"
      using walk_children [of t "wfTasks w"] walk_top [of "tChildren t"] t that
      by (auto simp: FlattenTasks_def)
    then show "idOf ?ids (tName c) \<noteq> []" "absNode ?ts (idOf ?ids (tName c)) = Node (tName c)"
      using idOf_name [OF u d, of "tName c" n now] by auto
  qed
  have nxt: "absNode ?ts (resolveNextTaskID t ?ids) =
      (if tExplicitThen t then goto ?names (tThen t)
       else if tChildren t = [] then End else goto ?names (tName (hd (tChildren t))))"
    by (auto simp: resolveNextTaskID_def absNode_resolve [OF u d] split: list.split)
  show ?thesis
    using own kids
    by (auto simp: taskRelations_def task_edges_def buildSwitchTaskRelation_def Let_def nxt
        buildForkTaskRelation_def absNode_resolve [OF u d])
qed

lemma buildTaskRelation_refines:
  assumes u: "uuid_ok uuid" and d: "distinct (map tName (FlattenTasks w))"
  shows "map (absRelation (buildTask uuid n now w)) (buildTaskRelation now w (buildTask uuid n now w))
         = spec_graph w"
proof (cases "wfTasks w = []")
  case True
  then show ?thesis by (simp add: buildTaskRelation_def spec_graph_def FlattenTasks_def)
next
  case False
  have "concat (map (map (absRelation (buildTask uuid n now w)) \<circ>
            taskRelations now w (taskIDMap (buildTask uuid n now w))) (FlattenTasks w))
        = concat (map (task_edges (tName ` set (FlattenTasks w))) (FlattenTasks w))"
    by (rule arg_cong [of _ _ concat], rule map_cong) (simp_all add: taskRelations_refines [OF u d])
  with False idOf_name [OF u d, of "wfStart w" n now] show ?thesis
    by (auto simp del: map_eq_conv
        simp: buildTaskRelation_def spec_graph_def Let_def map_concat split: if_splits)
qed

section \<open>Shape of the abstract graph\<close>

lemma task_edges_nonempty: "task_edges names t \<noteq> []"
  by (simp add: task_edges_def)

lemma task_edges_source: "e \<in> set (task_edges names t) \<Longrightarrow> fst e = Node (tName t)"
  by (auto simp: task_edges_def)

lemma goto_cases: "goto names n = End \<or> (\<exists>m\<in>names. goto names n = Node m)"
  by (simp add: goto_def)

lemma task_edges_target:
  assumes "e \<in> set (task_edges names t)" and "tName ` set (tChildren t) \<subseteq> names"
  shows "fst (snd e) = End \<or> (\<exists>m\<in>names. fst (snd e) = Node m)"
  using assms by (auto simp: task_edges_def goto_def split: if_splits)

lemma newTaskRelation_sel [simp]:
  "r_FromTaskID (newTaskRelation now i f t c) = f" "r_ToTaskID (newTaskRelation now i f t c) = t"
  "r_Condition (newTaskRelation now i f t c) = c" "r_WorkflowID (newTaskRelation now i f t c) = i"
  "r_Status (newTaskRelation now i f t c) = NormalStatus" "r_ID (newTaskRelation now i f t c) = 0"
  by (simp_all add: newTaskRelation_def zero_defs)

text \<open>The ids that the map of a built task list holds, and that the directives resolve to.\<close>

lemma idOf_mem:
  assumes "idOf (taskIDMap tasks) m \<noteq> []"
  shows "idOf (taskIDMap tasks) m \<in> t_TaskID ` set tasks"
proof -
  from assms obtain i where "taskIDMap tasks m = Some i" "idOf (taskIDMap tasks) m = i"
    by (auto simp: idOf_def split: option.splits)
  moreover from this(1) have "i \<in> t_TaskID ` set tasks"
    using map_of_SomeD by (fastforce simp: taskIDMap_map_of)
  ultimately show ?thesis by simp
qed

lemma resolve_mem: "resolveFlowDirective m (taskIDMap tasks) \<in> insert TaskEndID (t_TaskID ` set tasks)"
  using idOf_mem [of tasks m] by (auto simp: resolveFlowDirective_def Let_def)

lemma taskRelations_mem:
  assumes "r \<in> set (taskRelations now w (taskIDMap tasks) t)"
  shows "r_FromTaskID r \<in> t_TaskID ` set tasks" "r_ToTaskID r \<in> insert TaskEndID (t_TaskID ` set tasks)"
    "r_WorkflowID r = wfID w" "r_Status r = NormalStatus"
proof -
  show "r_FromTaskID r \<in> t_TaskID ` set tasks" "r_WorkflowID r = wfID w" "r_Status r = NormalStatus"
    using assms idOf_mem [of tasks "tName t"]
    by (auto simp: taskRelations_def buildSwitchTaskRelation_def buildForkTaskRelation_def Let_def split: if_splits)
  show "r_ToTaskID r \<in> insert TaskEndID (t_TaskID ` set tasks)"
    using assms resolve_mem [of _ tasks] idOf_mem [of tasks]
    by (auto simp: taskRelations_def buildSwitchTaskRelation_def buildForkTaskRelation_def Let_def
        resolveNextTaskID_def split: if_splits list.splits; blast)
qed

lemma taskRelations_from:
  assumes "idOf ids (tName t) \<noteq> []"
  shows "\<exists>r\<in>set (taskRelations now w ids t). r_FromTaskID r = idOf ids (tName t)"
proof -
  have "r_FromTaskID (hd (taskRelations now w ids t)) = idOf ids (tName t)" "taskRelations now w ids t \<noteq> []"
    using assms by (auto simp: taskRelations_def buildSwitchTaskRelation_def buildForkTaskRelation_def
        Let_def hd_map split: if_splits)
  then show ?thesis using hd_in_set by blast
qed

lemma start_relation:
  assumes "r \<in> set (buildTaskRelation now w (buildTask uuid n now w))" and "uuid_ok uuid"
    and "r_FromTaskID r = TaskStartID"
  shows "r = newTaskRelation now (wfID w) TaskStartID (idOf (taskIDMap (buildTask uuid n now w)) (wfStart w)) []"
  using assms(1,3) taskRelations_mem(1) [of r now w "buildTask uuid n now w"] buildTask_id_ok [OF assms(2)]
  by (fastforce simp: buildTaskRelation_def Let_def split: if_splits)

lemma well_formed_distinct: "well_formed w \<Longrightarrow> distinct (map tName (FlattenTasks w))"
  by (simp add: well_formed_def Let_def)

lemma Parse_tasks:
  assumes "Parse yaml source = Inr (Some w)"
  shows "distinct (map tName (FlattenTasks w))" "wfTasks w \<noteq> []"
  using assms by (cases rule: Parse_cases; auto simp: well_formed_def Let_def FlattenTasks_def)+

lemma taskIDMap_built:
  assumes "distinct (map tName (FlattenTasks w))" and "t \<in> set (buildTask uuid n now w)"
  shows "taskIDMap (buildTask uuid n now w) (t_TaskName t) = Some (t_TaskID t)"
  using assms by (simp add: taskIDMap_distinct buildTask_names) blast

text \<open>
  The start relation: to the task that the workflow names as its start, and none when it names no task. Every workflow
  of DSL 1.0.3 names one, since it starts at its first task; the start of an older text is not checked.
\<close>

lemma v1_start_named: "Parse yaml source = Inr (Some w) \<Longrightarrow> \<not> wfLegacy w \<Longrightarrow> wfStart w \<in> tName ` set (FlattenTasks w)"
  by (cases rule: Parse_cases) (auto dest: parse_start_task)

lemma built_start_relation:
  fixes n now
  assumes u: "uuid_ok uuid" and p: "Parse yaml source = Inr (Some w)"
  defines "ts \<equiv> buildTask uuid n now w"
  shows "if wfStart w \<in> tName ` set (FlattenTasks w)
    then \<exists>t\<in>set ts. t_TaskName t = wfStart w \<and>
      {r \<in> set (buildTaskRelation now w ts). r_FromTaskID r = TaskStartID}
        = {newTaskRelation now (wfID w) TaskStartID (t_TaskID t) []}
    else {r \<in> set (buildTaskRelation now w ts). r_FromTaskID r = TaskStartID} = {}"
proof (cases "wfStart w \<in> tName ` set (FlattenTasks w)")
  case True
  then have "wfStart w \<in> set (map tName (FlattenTasks w))" by simp
  then have "wfStart w \<in> set (map t_TaskName ts)" by (simp only: buildTask_names ts_def)
  then obtain t where t: "t \<in> set ts" "t_TaskName t = wfStart w" by auto
  with taskIDMap_built [OF Parse_tasks(1) [OF p], of t uuid n now]
  have i: "idOf (taskIDMap ts) (wfStart w) = t_TaskID t" by (simp add: idOf_def ts_def)
  with t buildTask_id_ok [OF u] Parse_tasks(2) [OF p]
  have "newTaskRelation now (wfID w) TaskStartID (t_TaskID t) [] \<in> set (buildTaskRelation now w ts)"
    by (auto simp: buildTaskRelation_def Let_def ts_def)
  moreover have "r = newTaskRelation now (wfID w) TaskStartID (t_TaskID t) []"
    if "r \<in> set (buildTaskRelation now w ts)" "r_FromTaskID r = TaskStartID" for r
    using start_relation [OF that(1) [unfolded ts_def] u that(2)] i by (simp add: ts_def)
  ultimately have "{r \<in> set (buildTaskRelation now w ts). r_FromTaskID r = TaskStartID} =
      {newTaskRelation now (wfID w) TaskStartID (t_TaskID t) []}"
    using newTaskRelation_sel(1) by blast
  with t True show ?thesis by auto
next
  case False
  then have "wfStart w \<notin> set (map tName (FlattenTasks w))" by simp
  then have "wfStart w \<notin> set (map t_TaskName ts)" by (simp only: buildTask_names ts_def not_False_eq_True)
  then have "taskIDMap ts (wfStart w) = None" by (auto simp: taskIDMap_None)
  then have none: "idOf (taskIDMap ts) (wfStart w) = []" by (simp add: idOf_def)
  have "r_FromTaskID r \<noteq> TaskStartID" if "r \<in> set (buildTaskRelation now w ts)" for r
    using that taskRelations_mem(1) [of r now w ts] buildTask_id_ok [OF u] none
    by (fastforce simp: buildTaskRelation_def Let_def ts_def split: if_splits)
  with False show ?thesis by auto
qed

lemma v1_start_relation:
  assumes "uuid_ok uuid" and "Parse yaml source = Inr (Some w)" and "\<not> wfLegacy w"
  shows "\<exists>t\<in>set (buildTask uuid n now w). t_TaskName t = wfStart w \<and>
    {r \<in> set (buildTaskRelation now w (buildTask uuid n now w)). r_FromTaskID r = TaskStartID}
      = {newTaskRelation now (wfID w) TaskStartID (t_TaskID t) []}"
  using built_start_relation [OF assms(1,2), of n now] v1_start_named [OF assms(2,3)] by simp

section \<open>Properties\<close>

text \<open>
  C8: The relation rows built for a workflow that the parser accepts are, in order, the edges of
  the abstract graph the workflow denotes, when each stored task id is read as the name of its
  task.
\<close>

theorem buildTaskRelation_implements_graph:
  assumes "uuid_ok uuid" and "Parse yaml source = Inr (Some w)"
  shows "map (absRelation (buildTask uuid n now w)) (buildTaskRelation now w (buildTask uuid n now w))
         = spec_graph w"
  using assms(2)
  by (cases rule: Parse_cases) (simp_all add: buildTaskRelation_refines assms(1) well_formed_distinct)

theorem buildTaskRelation_implements_graph_witness:
  "\<exists>w. map (absRelation (buildTask demo_uuid 0 7 w)) (buildTaskRelation 7 w (buildTask demo_uuid 0 7 w))
       = spec_graph w \<and> length (FlattenTasks w) = 2"
proof -
  from demo_v1_Parse obtain w where w: "Parse (\<lambda>_. Inr demo_v1) ''x'' = Inr (Some w)"
    "map tName (FlattenTasks w) = [''check'', ''ship'']" by (rule acceptedE)
  from w(2) have "length (map tName (FlattenTasks w)) = 2" by simp
  with buildTaskRelation_implements_graph [OF demo_uuid_ok w(1)] show ?thesis
    unfolding length_map by (intro exI conjI)
qed

text \<open>
  C20: The stored graph is closed: every relation built for an accepted workflow leaves \<open>START\<close> or
  a task of the workflow and enters \<open>END\<close> or a task of the workflow; every task has an outgoing
  relation; and a workflow of DSL 1.0.3 has exactly one relation out of \<open>START\<close>, to a task that
  carries its start name.
\<close>

theorem buildTaskRelation_closed:
  assumes u: "uuid_ok uuid" and p: "Parse yaml source = Inr (Some w)"
    and ts: "ts = buildTask uuid n now w" and rs: "rs = buildTaskRelation now w ts"
  shows "(\<forall>r\<in>set rs. r_FromTaskID r \<in> insert TaskStartID (t_TaskID ` set ts) \<and>
            r_ToTaskID r \<in> insert TaskEndID (t_TaskID ` set ts))
    \<and> (\<forall>t\<in>set ts. \<exists>r\<in>set rs. r_FromTaskID r = t_TaskID t)
    \<and> (\<not> wfLegacy w \<longrightarrow> (\<exists>t\<in>set ts. t_TaskName t = wfStart w \<and>
         {r \<in> set rs. r_FromTaskID r = TaskStartID} = {newTaskRelation now (wfID w) TaskStartID (t_TaskID t) []}))"
    (is "?ends \<and> ?out \<and> ?start")
proof (intro conjI)
  note nonempty = Parse_tasks(2) [OF p]
  have id: "taskIDMap ts (t_TaskName t) = Some (t_TaskID t)" if "t \<in> set ts" for t
    using taskIDMap_built [OF Parse_tasks(1) [OF p]] that unfolding ts by blast
  show ?ends
    using taskRelations_mem(1,2) [of _ now w ts] idOf_mem [of ts "wfStart w"]
    unfolding rs buildTaskRelation_def Let_def by (auto; blast)
  show ?out
  proof
    fix t assume t: "t \<in> set ts"
    then have "t_TaskName t \<in> set (map tName (FlattenTasks w))" by (metis buildTask_names image_eqI set_map ts)
    then obtain x where x: "x \<in> set (FlattenTasks w)" "tName x = t_TaskName t" by auto
    with id [OF t] have "idOf (taskIDMap ts) (tName x) = t_TaskID t" by (simp add: idOf_def)
    with taskRelations_from [of "taskIDMap ts" x now w] buildTask_id_ok [OF u] t x(1) nonempty
    show "\<exists>r\<in>set rs. r_FromTaskID r = t_TaskID t" by (auto simp: rs buildTaskRelation_def Let_def ts)
  qed
  show ?start using v1_start_relation [OF u p] unfolding ts rs by blast
qed

theorem buildTaskRelation_closed_witness:
  "\<exists>w. Parse (\<lambda>_. Inr demo_v1) ''x'' = Inr (Some w) \<and>
     (\<forall>t\<in>set (buildTask demo_uuid 0 7 w).
        \<exists>r\<in>set (buildTaskRelation 7 w (buildTask demo_uuid 0 7 w)). r_FromTaskID r = t_TaskID t)"
proof -
  from demo_v1_Parse obtain w where w: "Parse (\<lambda>_. Inr demo_v1) ''x'' = Inr (Some w)" by (rule acceptedE)
  from buildTaskRelation_closed [OF demo_uuid_ok w refl refl, of 7 0] w show ?thesis by (intro exI conjI) (assumption, elim conjE)
qed

end
