(* ===== verification/DbLock.thy ===== *)
theory DbLock
  imports Prelude
begin

text \<open>
  \<open>middleware/dblock\<close>: a lock kept in MySQL with \<open>GET_LOCK\<close>. Obtaining a lock is a function of what
  the connection pool and the server answer; a lock that is held is a small concurrent system: its
  user, who releases it, and its refresher goroutine, which pings the connection and waits on the
  channel \<open>unlocker\<close> of capacity 1. The system is a transition function on the two program counters,
  the channel and the server's table of locks. The server is not part of the sources;
  what it does is its documented behaviour, written out: a lock has at most one session, \<open>GET_LOCK\<close> gives a free lock
  or one the session has, \<open>RELEASE_LOCK\<close> and the end of a session free it.
\<close>

section \<open>Obtaining a lock\<close>

datatype lock_error =
    NoConnection string
  | GetLockContextCancelled
  | CouldNotReadResponse string
  | MySQLInternalError
  | MySQLTimeout

text \<open>Where the refresher stands: at its select, in the three parts of its own \<open>Release\<close>, or ended.\<close>

datatype refresherState = AtSelect | RefSending | RefExecuting | RefEnded

text \<open>Where the user stands: before \<open>Release\<close>, past its send, returned with a nil or a non-nil error.\<close>

datatype userState = Holding | Executing | Released bool

record lockObj =
  lk_key :: string
  lk_unlocker :: nat
  lk_cancelled :: bool
  lk_refresher :: refresherState
  lk_user :: userState

record mysqlLocker =
  ml_refreshInterval :: int

abbreviation (input) DefaultRefreshInterval :: int where "DefaultRefreshInterval \<equiv> 1000000000"

definition WithRefreshInterval :: "int \<Rightarrow> mysqlLocker \<Rightarrow> mysqlLocker" where
  "WithRefreshInterval d l = l\<lparr>ml_refreshInterval := d\<rparr>"

definition NewMysqlLocker :: "(mysqlLocker \<Rightarrow> mysqlLocker) list \<Rightarrow> mysqlLocker" where
  "NewMysqlLocker lockerOpts = fold (\<lambda>opt. opt) lockerOpts \<lparr>ml_refreshInterval = DefaultRefreshInterval\<rparr>"

text \<open>
  \<open>conn\<close> is what the pool answers, \<open>query key timeout\<close> what reading the result of
  \<open>COALESCE(GET_LOCK(key, timeout), 2)\<close> gives, \<open>done\<close> whether the caller's context is cancelled.
\<close>

definition ObtainTimeoutContext :: "string + 'c \<Rightarrow> (string \<Rightarrow> int \<Rightarrow> string + int) \<Rightarrow> bool \<Rightarrow> string \<Rightarrow> int \<Rightarrow>
    lock_error + 'c \<times> lockObj" where
  "ObtainTimeoutContext conn query cancelled key timeout =
     (case conn of
        Inl e \<Rightarrow> Inl (NoConnection e)
      | Inr dbConn \<Rightarrow>
          (case query key timeout of
             Inl e \<Rightarrow> Inl (if cancelled then GetLockContextCancelled else CouldNotReadResponse e)
           | Inr res \<Rightarrow>
               if res = 2 then Inl MySQLInternalError
               else if res = 0 then Inl MySQLTimeout
               else Inr (dbConn, \<lparr>lk_key = key, lk_unlocker = 0, lk_cancelled = False, lk_refresher = AtSelect,
                                  lk_user = Holding\<rparr>)))"

definition Obtain :: "string + 'c \<Rightarrow> (string \<Rightarrow> int \<Rightarrow> string + int) \<Rightarrow> string \<Rightarrow> lock_error + 'c \<times> lockObj" where
  "Obtain conn query key = ObtainTimeoutContext conn query False key (- 1)"

definition ObtainTimeout :: "string + 'c \<Rightarrow> (string \<Rightarrow> int \<Rightarrow> string + int) \<Rightarrow> string \<Rightarrow> int \<Rightarrow> lock_error + 'c \<times> lockObj" where
  "ObtainTimeout conn query key timeout = ObtainTimeoutContext conn query False key timeout"

definition ObtainContext :: "string + 'c \<Rightarrow> (string \<Rightarrow> int \<Rightarrow> string + int) \<Rightarrow> bool \<Rightarrow> string \<Rightarrow> lock_error + 'c \<times> lockObj" where
  "ObtainContext conn query cancelled key = ObtainTimeoutContext conn query cancelled key (- 1)"

section \<open>Locks in use\<close>

text \<open>
  The server's table of locks, the connections whose session is alive, and the lock held on each
  connection checked out of the pool.
\<close>

record lockSys =
  ls_holder :: "string \<Rightarrow> nat option"
  ls_alive :: "nat \<Rightarrow> bool"
  ls_lock :: "nat \<Rightarrow> lockObj option"

definition noLocks :: lockSys where
  "noLocks = \<lparr>ls_holder = (\<lambda>_. None), ls_alive = (\<lambda>_. False), ls_lock = (\<lambda>_. None)\<rparr>"

definition get_lock :: "lockSys \<Rightarrow> nat \<Rightarrow> string \<Rightarrow> int" where
  "get_lock s c key = (if ls_holder s key = None \<or> ls_holder s key = Some c then 1 else 0)"

definition free :: "nat \<Rightarrow> (string \<Rightarrow> nat option) \<Rightarrow> string \<Rightarrow> nat option" where
  "free c h = (\<lambda>k. if h k = Some c then None else h k)"

datatype lockEvent =
    DoObtain nat string
  | PingOk nat
  | PingFails nat
  | Unlocked nat
  | RefSends nat
  | RefExec nat bool
  | UserSends nat
  | UserExec nat bool
  | SessionEnds nat

definition putLock :: "nat \<Rightarrow> lockObj \<Rightarrow> lockSys \<Rightarrow> lockSys" where
  "putLock c l s = s\<lparr>ls_lock := (ls_lock s)(c \<mapsto> l)\<rparr>"

text \<open>The send \<open>l.unlocker <- struct{}{}\<close>: blocked while the channel is full.\<close>

definition sendUnlocker :: "lockObj \<Rightarrow> lockObj option" where
  "sendUnlocker l = (if lk_unlocker l < 1 then Some (l\<lparr>lk_unlocker := lk_unlocker l + 1\<rparr>) else None)"

text \<open>
  The rest of \<open>Release\<close>: the statement \<open>RELEASE_LOCK\<close>, which can succeed only on a live session, and on
  success the return of the connection to the pool.
\<close>

definition execRelease :: "nat \<Rightarrow> bool \<Rightarrow> lockSys \<Rightarrow> lockSys option" where
  "execRelease c ok s =
     (if ok then (if ls_alive s c then Some (s\<lparr>ls_holder := free c (ls_holder s)\<rparr>) else None)
      else Some s)"

fun refresher :: "lockEvent \<Rightarrow> nat \<Rightarrow> lockObj \<Rightarrow> lockSys \<Rightarrow> lockSys option" where
  "refresher (PingOk _) c l s =
     (if lk_refresher l = AtSelect \<and> ls_alive s c then Some s else None)"
| "refresher (PingFails _) c l s =
     (if lk_refresher l = AtSelect then Some (putLock c (l\<lparr>lk_cancelled := True, lk_refresher := RefSending\<rparr>) s) else None)"
| "refresher (RefSends _) c l s =
     (if lk_refresher l = RefSending
      then map_option (\<lambda>l'. putLock c (l'\<lparr>lk_refresher := RefExecuting\<rparr>) s) (sendUnlocker l) else None)"
| "refresher (RefExec _ ok) c l s =
     (if lk_refresher l = RefExecuting
      then map_option (putLock c (l\<lparr>lk_refresher := RefEnded\<rparr>)) (execRelease c ok s) else None)"
| "refresher (Unlocked _) c l s =
     (if lk_refresher l = AtSelect \<and> 0 < lk_unlocker l
      then Some (putLock c (l\<lparr>lk_unlocker := lk_unlocker l - 1, lk_cancelled := True, lk_refresher := RefEnded\<rparr>) s)
      else None)"
| "refresher _ c l s = None"

fun Release :: "lockEvent \<Rightarrow> nat \<Rightarrow> lockObj \<Rightarrow> lockSys \<Rightarrow> lockSys option" where
  "Release (UserSends _) c l s =
     (if lk_user l = Holding
      then map_option (\<lambda>l'. putLock c (l'\<lparr>lk_user := Executing\<rparr>) s) (sendUnlocker l) else None)"
| "Release (UserExec _ ok) c l s =
     (if lk_user l = Executing
      then map_option (putLock c (l\<lparr>lk_user := Released ok\<rparr>)) (execRelease c ok s) else None)"
| "Release _ c l s = None"

definition onLock :: "nat \<Rightarrow> (nat \<Rightarrow> lockObj \<Rightarrow> lockSys \<Rightarrow> lockSys option) \<Rightarrow> lockSys \<Rightarrow> lockSys option" where
  "onLock c f s = (case ls_lock s c of None \<Rightarrow> None | Some l \<Rightarrow> f c l s)"

fun lockStep :: "lockEvent \<Rightarrow> lockSys \<Rightarrow> lockSys option" where
  "lockStep (DoObtain c key) s =
     (if ls_lock s c \<noteq> None then None
      else (case ObtainTimeout (Inr c) (\<lambda>key timeout. Inr (get_lock s c key)) key 2 of
              Inl _ \<Rightarrow> Some s
            | Inr (d, l) \<Rightarrow>
                Some (putLock d l (s\<lparr>ls_holder := (ls_holder s)(key := Some d), ls_alive := (ls_alive s)(d := True)\<rparr>))))"
| "lockStep (SessionEnds c) s =
     Some (s\<lparr>ls_holder := free c (ls_holder s), ls_alive := (ls_alive s)(c := False)\<rparr>)"
| "lockStep (PingOk c) s = onLock c (refresher (PingOk c)) s"
| "lockStep (PingFails c) s = onLock c (refresher (PingFails c)) s"
| "lockStep (RefSends c) s = onLock c (refresher (RefSends c)) s"
| "lockStep (RefExec c ok) s = onLock c (refresher (RefExec c ok)) s"
| "lockStep (Unlocked c) s = onLock c (refresher (Unlocked c)) s"
| "lockStep (UserSends c) s = onLock c (Release (UserSends c)) s"
| "lockStep (UserExec c ok) s = onLock c (Release (UserExec c ok)) s"

inductive lockReach :: "lockSys \<Rightarrow> lockSys \<Rightarrow> bool" where
  lock_refl: "lockReach s s"
| lock_more: "lockReach s t \<Longrightarrow> lockStep ev t = Some u \<Longrightarrow> lockReach s u"

fun lockRun :: "lockEvent list \<Rightarrow> lockSys \<Rightarrow> lockSys option" where
  "lockRun [] s = Some s"
| "lockRun (ev # evs) s = (case lockStep ev s of None \<Rightarrow> None | Some s' \<Rightarrow> lockRun evs s')"

lemma lockReach_trans: "lockReach t u \<Longrightarrow> lockReach s t \<Longrightarrow> lockReach s u"
  by (induction rule: lockReach.induct) (auto intro: lock_more)

lemma lockRun_reach: "lockRun evs s = Some t \<Longrightarrow> lockReach s t"
proof (induction evs arbitrary: s)
  case (Cons ev evs)
  then obtain s' where "lockStep ev s = Some s'" "lockRun evs s' = Some t" by (auto split: option.splits)
  with Cons.IH [OF this(2)] lock_more [OF lock_refl this(1)] show ?case by (blast intro: lockReach_trans)
qed (simp add: lock_refl)

section \<open>Invariant\<close>

text \<open>How the two program counters and the channel go together.\<close>

definition lock_ok :: "lockObj \<Rightarrow> bool" where
  "lock_ok l \<longleftrightarrow>
     (lk_cancelled l \<longleftrightarrow> lk_refresher l \<noteq> AtSelect) \<and>
     (case lk_refresher l of
        AtSelect \<Rightarrow> lk_unlocker l = (if lk_user l = Holding then 0 else 1)
      | RefSending \<Rightarrow> lk_unlocker l = (if lk_user l = Holding then 0 else 1)
      | RefExecuting \<Rightarrow> lk_user l = Holding \<and> lk_unlocker l = 1
      | RefEnded \<Rightarrow> lk_unlocker l = (if lk_user l = Holding then 1 else 0))"

text \<open>A lock that neither side has released is held at the server by its session, while that lives.\<close>

definition owned :: "lockSys \<Rightarrow> nat \<Rightarrow> lockObj \<Rightarrow> bool" where
  "owned s c l \<longleftrightarrow> (ls_alive s c \<and> lk_user l = Holding \<and> lk_refresher l \<noteq> RefEnded \<longrightarrow> ls_holder s (lk_key l) = Some c)"

definition lock_inv :: "lockSys \<Rightarrow> bool" where
  "lock_inv s \<longleftrightarrow> (\<forall>c l. ls_lock s c = Some l \<longrightarrow> lock_ok l \<and> owned s c l)"

lemma lock_inv_noLocks: "lock_inv noLocks"
  by (simp add: lock_inv_def noLocks_def)

lemma putLock_sel [simp]:
  "ls_lock (putLock c l s) = (ls_lock s)(c \<mapsto> l)" "ls_holder (putLock c l s) = ls_holder s"
  "ls_alive (putLock c l s) = ls_alive s"
  by (simp_all add: putLock_def)

lemma lock_inv_put:
  "lock_inv s \<Longrightarrow> lock_ok l \<Longrightarrow> owned s c l \<Longrightarrow> lock_inv (putLock c l s)"
  by (auto simp: lock_inv_def owned_def)

lemma lock_inv_free:
  assumes "lock_inv s" and "ls_lock s c = Some l" and "lk_user l' \<noteq> Holding \<or> lk_refresher l' = RefEnded"
    and "lock_ok l'"
  shows "lock_inv (putLock c l' (s\<lparr>ls_holder := free c (ls_holder s)\<rparr>))"
  using assms by (auto simp: lock_inv_def owned_def free_def)

lemma refresher_inv:
  assumes "lock_inv s" and l: "ls_lock s c = Some l" and "refresher ev c l s = Some t"
  shows "lock_inv t"
proof -
  from assms(1) l have ok: "lock_ok l" "owned s c l" by (auto simp: lock_inv_def)
  show ?thesis
  proof (cases ev)
    case (RefExec d b)
    with assms ok have t: "lk_refresher l = RefExecuting" "execRelease c b s = Some u \<Longrightarrow> t = putLock c (l\<lparr>lk_refresher := RefEnded\<rparr>) u" for u
      by (auto split: if_splits)
    from t(1) ok have ok': "lock_ok (l\<lparr>lk_refresher := RefEnded\<rparr>)" by (auto simp: lock_ok_def)
    show ?thesis
    proof (cases b)
      case True
      with RefExec assms(3) have "execRelease c b s = Some (s\<lparr>ls_holder := free c (ls_holder s)\<rparr>)"
        by (auto simp: execRelease_def split: if_splits)
      with t(2) lock_inv_free [OF assms(1) l _ ok'] show ?thesis by simp
    next
      case False
      with t(2) [of s] lock_inv_put [OF assms(1) ok'] show ?thesis by (simp add: execRelease_def owned_def)
    qed
  qed (use assms ok in \<open>auto simp: sendUnlocker_def lock_ok_def owned_def intro!: lock_inv_put split: if_splits\<close>)
qed

lemma Release_inv:
  assumes "lock_inv s" and l: "ls_lock s c = Some l" and "Release ev c l s = Some t"
  shows "lock_inv t"
proof -
  from assms(1) l have ok: "lock_ok l" "owned s c l" by (auto simp: lock_inv_def)
  show ?thesis
  proof (cases ev)
    case (UserExec d b)
    with assms ok have t: "lk_user l = Executing" "execRelease c b s = Some u \<Longrightarrow> t = putLock c (l\<lparr>lk_user := Released b\<rparr>) u" for u
      by (auto split: if_splits)
    from t(1) ok have ok': "lock_ok (l\<lparr>lk_user := Released b\<rparr>)" by (auto simp: lock_ok_def split: refresherState.splits)
    show ?thesis
    proof (cases b)
      case True
      with UserExec assms(3) have "execRelease c b s = Some (s\<lparr>ls_holder := free c (ls_holder s)\<rparr>)"
        by (auto simp: execRelease_def split: if_splits)
      with t(2) lock_inv_free [OF assms(1) l _ ok'] show ?thesis by simp
    next
      case False
      with t(2) [of s] lock_inv_put [OF assms(1) ok'] show ?thesis by (simp add: execRelease_def owned_def)
    qed
  qed (use assms ok in \<open>auto simp: sendUnlocker_def lock_ok_def owned_def intro!: lock_inv_put
    split: if_splits refresherState.splits\<close>)
qed

lemma obtain_inv:
  assumes "lock_inv s" and "lockStep (DoObtain c key) s = Some t"
  shows "lock_inv t"
proof (cases "get_lock s c key = 1")
  case True
  let ?l = "\<lparr>lk_key = key, lk_unlocker = 0, lk_cancelled = False, lk_refresher = AtSelect, lk_user = Holding\<rparr>"
  from True assms(2) have n: "ls_lock s c = None"
    and t: "t = putLock c ?l (s\<lparr>ls_holder := (ls_holder s)(key := Some c), ls_alive := (ls_alive s)(c := True)\<rparr>)"
    by (auto simp: ObtainTimeout_def ObtainTimeoutContext_def split: if_splits)
  have "owned t d l" if "ls_lock s d = Some l" "d \<noteq> c" for d l
    using that assms(1) True by (fastforce simp: t owned_def lock_inv_def get_lock_def split: if_splits)
  then show ?thesis using assms(1) n by (auto simp: lock_inv_def t lock_ok_def owned_def)
next
  case False
  then have "get_lock s c key = 0" by (auto simp: get_lock_def split: if_splits)
  with assms show ?thesis by (auto simp: ObtainTimeout_def ObtainTimeoutContext_def split: if_splits)
qed

lemma session_inv:
  assumes "lock_inv s" and "lockStep (SessionEnds c) s = Some t"
  shows "lock_inv t"
proof -
  from assms(2) have t: "t = s\<lparr>ls_holder := free c (ls_holder s), ls_alive := (ls_alive s)(c := False)\<rparr>" by simp
  have "owned t d l" if "owned s d l" for d l
    using that by (cases "d = c") (simp_all add: t owned_def free_def)
  with assms(1) show ?thesis by (simp add: lock_inv_def t)
qed

lemma onLock_SomeE:
  assumes "onLock c f s = Some t"
  obtains l where "ls_lock s c = Some l" and "f c l s = Some t"
  using assms by (auto simp: onLock_def split: option.splits)

lemma lockStep_inv: "lock_inv s \<Longrightarrow> lockStep ev s = Some t \<Longrightarrow> lock_inv t"
  by (cases ev)
    (auto intro: obtain_inv session_inv simp del: lockStep.simps(1,2) refresher.simps Release.simps
      elim!: onLock_SomeE dest: refresher_inv Release_inv)

lemma lockReach_inv: "lockReach s t \<Longrightarrow> lock_inv s \<Longrightarrow> lock_inv t"
  by (induction rule: lockReach.induct) (auto dest: lockStep_inv)

section \<open>Properties\<close>

text \<open>
  C25: Mutual exclusion. In every reachable state, of all the locks on one key that their users
  have not released, at most one has a live session and a context that is not cancelled.
\<close>

theorem lock_mutual_exclusion:
  assumes "lockReach noLocks s" and "ls_lock s c = Some l" and "ls_lock s d = Some m" and "lk_key l = lk_key m"
    and "ls_alive s c" and "ls_alive s d" and "lk_user l = Holding" and "lk_user m = Holding"
    and "\<not> lk_cancelled l" and "\<not> lk_cancelled m"
  shows "c = d"
proof -
  from lockReach_inv [OF assms(1) lock_inv_noLocks] assms(2,3)
  have "lock_ok l" "lock_ok m" "owned s c l" "owned s d m" by (auto simp: lock_inv_def)
  with assms(4-) show ?thesis by (auto simp: lock_ok_def owned_def split: if_splits)
qed

definition demoLocks :: lockSys where
  "demoLocks = the (lockRun [DoObtain 1 ''k'', PingOk 1, DoObtain 2 ''k'', DoObtain 3 ''j''] noLocks)"

lemma demoLocks_reach: "lockReach noLocks demoLocks"
proof -
  have "lockRun [DoObtain 1 ''k'', PingOk 1, DoObtain 2 ''k'', DoObtain 3 ''j''] noLocks \<noteq> None"
    by (simp add: noLocks_def get_lock_def ObtainTimeout_def ObtainTimeoutContext_def onLock_def)
  then obtain y where y: "lockRun [DoObtain 1 ''k'', PingOk 1, DoObtain 2 ''k'', DoObtain 3 ''j''] noLocks = Some y" by blast
  from lockRun_reach [OF this] show ?thesis unfolding demoLocks_def y by simp
qed

definition demoLock :: "string \<Rightarrow> lockObj" where
  "demoLock k = \<lparr>lk_key = k, lk_unlocker = 0, lk_cancelled = False, lk_refresher = AtSelect, lk_user = Holding\<rparr>"

lemma demoLocks_sel:
  "ls_lock demoLocks 1 = Some (demoLock ''k'')" "ls_lock demoLocks 2 = None" "ls_alive demoLocks 1"
  by (simp_all add: demoLocks_def noLocks_def get_lock_def ObtainTimeout_def ObtainTimeoutContext_def onLock_def demoLock_def)

theorem lock_mutual_exclusion_witness:
  "lockReach noLocks demoLocks \<and>
   {d. \<exists>m. ls_lock demoLocks d = Some m \<and> lk_key m = ''k'' \<and> ls_alive demoLocks d \<and> lk_user m = Holding \<and> \<not> lk_cancelled m} = {1}"
proof -
  have k: "lk_key (demoLock ''k'') = ''k''" "lk_user (demoLock ''k'') = Holding" "\<not> lk_cancelled (demoLock ''k'')"
    by (simp_all add: demoLock_def)
  have "d = 1" if "ls_lock demoLocks d = Some m" "lk_key m = ''k''" "ls_alive demoLocks d" "lk_user m = Holding" "\<not> lk_cancelled m" for d m
    using lock_mutual_exclusion [OF demoLocks_reach that(1) demoLocks_sel(1)] that k demoLocks_sel(3) by simp
  moreover have "ls_lock demoLocks 1 = Some (demoLock ''k'') \<and> lk_key (demoLock ''k'') = ''k'' \<and> ls_alive demoLocks 1 \<and>
      lk_user (demoLock ''k'') = Holding \<and> \<not> lk_cancelled (demoLock ''k'')"
    using demoLocks_sel(1,3) k by (intro conjI)
  ultimately show ?thesis using demoLocks_reach by blast
qed

text \<open>The refresher has released the lock itself: the channel is full and nobody reads it any more.\<close>

definition lostLock :: "lockSys \<Rightarrow> nat \<Rightarrow> bool" where
  "lostLock s c \<longleftrightarrow> (\<exists>l. ls_lock s c = Some l \<and> lk_user l = Holding \<and> lk_unlocker l = 1 \<and>
     lk_refresher l \<in> {RefExecuting, RefEnded})"

lemma lostLock_step:
  assumes "lostLock s c" and "lockStep ev s = Some t"
  shows "lostLock t c"
proof -
  have keep: "ls_lock t c = ls_lock s c \<Longrightarrow> lostLock t c" using assms(1) by (simp add: lostLock_def)
  from assms(1) obtain l where l: "ls_lock s c = Some l" "lk_user l = Holding" "lk_unlocker l = 1"
    "lk_refresher l \<in> {RefExecuting, RefEnded}" by (auto simp: lostLock_def)
  show ?thesis
  proof (cases ev)
    case (DoObtain d key)
    with assms(2) l(1) show ?thesis
      by (intro keep) (auto simp: ObtainTimeout_def ObtainTimeoutContext_def split: if_splits)
  next
    case (SessionEnds d)
    with assms(2) show ?thesis by (intro keep) auto
  qed (use assms(2) l in \<open>auto simp: lostLock_def execRelease_def sendUnlocker_def elim!: onLock_SomeE split: if_splits\<close>)
qed

lemma lostLock_stuck: "lostLock s c \<Longrightarrow> lockStep (UserSends c) s = None"
  by (auto simp: lostLock_def onLock_def sendUnlocker_def)

section \<open>Liveness\<close>

text \<open>
  Infinite runs: \<open>evs\<close> proposes an event at every moment, or none; an event that is not enabled has no effect. A set of events is
  treated fairly when it is not the case that, from some moment on, one of them is always enabled and none is taken.
\<close>

fun lockTrace :: "(nat \<Rightarrow> lockEvent option) \<Rightarrow> nat \<Rightarrow> lockSys" where
  "lockTrace evs 0 = noLocks"
| "lockTrace evs (Suc n) =
     (case evs n of
        None \<Rightarrow> lockTrace evs n
      | Some ev \<Rightarrow> (case lockStep ev (lockTrace evs n) of None \<Rightarrow> lockTrace evs n | Some s \<Rightarrow> s))"

definition weaklyFair :: "(nat \<Rightarrow> lockEvent option) \<Rightarrow> lockEvent set \<Rightarrow> bool" where
  "weaklyFair evs E \<longleftrightarrow> (\<forall>i. (\<forall>j\<ge>i. \<exists>ev\<in>E. lockStep ev (lockTrace evs j) \<noteq> None) \<longrightarrow>
     (\<exists>j\<ge>i. \<exists>ev\<in>E. evs j = Some ev \<and> lockStep ev (lockTrace evs j) \<noteq> None))"

lemma lockTrace_cases:
  obtains "lockTrace evs (Suc n) = lockTrace evs n"
  | ev where "evs n = Some ev" "lockStep ev (lockTrace evs n) = Some (lockTrace evs (Suc n))"
  by (cases "evs n"; cases "lockStep (the (evs n)) (lockTrace evs n)") auto

lemma lockTrace_inv: "lock_inv (lockTrace evs n)"
proof (induction n)
  case (Suc n)
  show ?case by (rule lockTrace_cases [of evs n]) (use Suc lockStep_inv in metis)+
qed (simp add: lock_inv_noLocks)

text \<open>The rule for one fair step: \<open>P\<close> lasts until \<open>Q\<close>, keeps \<open>E\<close> enabled, and every event of \<open>E\<close> gives \<open>Q\<close>.\<close>

lemma fair_leads_to:
  assumes fair: "weaklyFair evs E" and start: "P (lockTrace evs i)"
    and enabled: "\<And>s. lock_inv s \<Longrightarrow> P s \<Longrightarrow> \<exists>ev\<in>E. lockStep ev s \<noteq> None"
    and stays: "\<And>s ev t. lock_inv s \<Longrightarrow> P s \<Longrightarrow> lockStep ev s = Some t \<Longrightarrow> P t \<or> Q t"
    and helpful: "\<And>s ev t. lock_inv s \<Longrightarrow> P s \<Longrightarrow> ev \<in> E \<Longrightarrow> lockStep ev s = Some t \<Longrightarrow> Q t"
  shows "\<exists>j\<ge>i. Q (lockTrace evs j)"
proof (rule ccontr)
  assume never: "\<not> (\<exists>j\<ge>i. Q (lockTrace evs j))"
  have P: "P (lockTrace evs j)" if "i \<le> j" for j
    using that
  proof (induction j rule: dec_induct)
    case (step n)
    have "i \<le> Suc n" using step by simp
    with never have "\<not> Q (lockTrace evs (Suc n))" by blast
    with step.IH stays [OF lockTrace_inv step.IH] show ?case by (metis lockTrace_cases [of evs n])
  qed (rule start)
  with fair enabled [OF lockTrace_inv] obtain j ev where
    j: "i \<le> j" "ev \<in> E" "evs j = Some ev" "lockStep ev (lockTrace evs j) \<noteq> None" unfolding weaklyFair_def by metis
  then obtain t where t: "lockStep ev (lockTrace evs j) = Some t" by blast
  with j(3) have "lockTrace evs (Suc j) = t" by simp
  with helpful [OF lockTrace_inv P [OF j(1)] j(2) t] never j(1) show False by (metis le_SucI)
qed

text \<open>How one step moves the user of a connection, and that a cancelled context stays so.\<close>

lemma refresher_keeps_user:
  assumes "ls_lock s d = Some l" and "refresher ev d l s = Some t"
  shows "\<exists>m. ls_lock t = (ls_lock s)(d \<mapsto> m) \<and> lk_user m = lk_user l \<and> (lk_cancelled l \<longrightarrow> lk_cancelled m)"
proof (cases ev)
  case (PingOk x)
  with assms show ?thesis by (intro exI [of _ l]) (auto split: if_splits)
qed (use assms in \<open>auto simp: sendUnlocker_def execRelease_def split: if_splits\<close>)

lemma Release_user:
  assumes "ls_lock s d = Some l" and "Release ev d l s = Some t"
  shows "\<exists>m. ls_lock t = (ls_lock s)(d \<mapsto> m) \<and> lk_cancelled m = lk_cancelled l \<and>
    (case ev of UserSends _ \<Rightarrow> lk_user l = Holding \<and> lk_user m = Executing
     | UserExec _ b \<Rightarrow> lk_user l = Executing \<and> lk_user m = Released b \<and> (b \<longrightarrow> (\<forall>k. ls_holder t k \<noteq> Some d)) | _ \<Rightarrow> False)"
  using assms by (cases ev) (auto simp: sendUnlocker_def execRelease_def free_def split: if_splits)

definition moved :: "nat \<Rightarrow> lockObj \<Rightarrow> lockEvent \<Rightarrow> lockSys \<Rightarrow> lockObj \<Rightarrow> bool" where
  "moved c l ev t m \<longleftrightarrow> (lk_cancelled l \<longrightarrow> lk_cancelled m) \<and>
     (if ev = UserSends c then lk_user l = Holding \<and> lk_user m = Executing
      else if ev \<in> {UserExec c True, UserExec c False}
      then lk_user l = Executing \<and>
        (lk_user m = Released False \<or> lk_user m = Released True \<and> (\<forall>k. ls_holder t k \<noteq> Some c))
      else lk_user m = lk_user l)"

lemma user_step:
  assumes l: "ls_lock s c = Some l" and step: "lockStep ev s = Some t"
  shows "\<exists>m. ls_lock t c = Some m \<and> moved c l ev t m"
proof -
  have ref: ?thesis if "onLock d (refresher ev) s = Some t" "\<And>b. ev \<noteq> UserExec c b" "ev \<noteq> UserSends c" for d
    using that l refresher_keeps_user by (fastforce simp: moved_def elim!: onLock_SomeE)
  have usr: ?thesis if "onLock d (Release ev) s = Some t" "ev = UserSends d \<or> ev = UserExec d b" for d b
  proof (rule onLock_SomeE [OF that(1)])
    fix x assume x: "ls_lock s d = Some x" "Release ev d x s = Some t"
    from Release_user [OF x] that(2) l x(1) show ?thesis by (cases "d = c") (auto simp: moved_def)
  qed
  show ?thesis
  proof (cases ev)
    case (DoObtain d key)
    with l step show ?thesis by (auto simp: moved_def ObtainTimeout_def ObtainTimeoutContext_def split: if_splits)
  next
    case (SessionEnds d)
    with l step show ?thesis by (auto simp: moved_def)
  next
    case (UserSends d)
    with usr [of d] step show ?thesis by simp
  next
    case (UserExec d b)
    with usr [of d b] step show ?thesis by simp
  qed (use ref step in auto)
qed

lemma holder_step:
  assumes "ls_lock s c \<noteq> None" and "lockStep ev s = Some t" and "ls_holder t k = Some c"
  shows "ls_holder s k = Some c"
proof (cases ev)
  case (DoObtain d key)
  with assms show ?thesis by (auto simp: ObtainTimeout_def ObtainTimeoutContext_def split: if_splits)
qed (use assms in \<open>auto simp: sendUnlocker_def execRelease_def free_def elim!: onLock_SomeE split: if_splits\<close>)

text \<open>The three stages of a release: the send, the statement, and the refresher that reads the channel.\<close>

definition released :: "nat \<Rightarrow> lockSys \<Rightarrow> bool" where
  "released c s \<longleftrightarrow> (\<exists>l. ls_lock s c = Some l \<and>
     (lk_user l = Released False \<or> lk_user l = Released True \<and> (\<forall>k. ls_holder s k \<noteq> Some c)))"

lemma released_step:
  assumes "released c s" and "lockStep ev s = Some t"
  shows "released c t"
proof -
  from assms(1) obtain l where l: "ls_lock s c = Some l"
    "lk_user l = Released False \<or> lk_user l = Released True \<and> (\<forall>k. ls_holder s k \<noteq> Some c)" by (auto simp: released_def)
  from user_step [OF l(1) assms(2)] l(2) obtain m where "ls_lock t c = Some m" "lk_user m = lk_user l"
    by (auto simp: moved_def split: if_splits)
  with holder_step [OF _ assms(2), of c] l show ?thesis unfolding released_def by fastforce
qed

abbreviation userEvents :: "nat \<Rightarrow> lockEvent set" where
  "userEvents c \<equiv> {UserSends c, UserExec c True, UserExec c False}"

lemma send_happens:
  assumes "weaklyFair evs (userEvents c)" and "ls_lock (lockTrace evs i) c = Some l" and "lk_user l = Holding"
  shows "\<exists>j\<ge>i. lostLock (lockTrace evs j) c \<or> (\<exists>m. ls_lock (lockTrace evs j) c = Some m \<and> lk_user m = Executing)"
proof (cases "lostLock (lockTrace evs i) c")
  case False
  let ?P = "\<lambda>s. \<exists>l. ls_lock s c = Some l \<and> lk_user l = Holding \<and> \<not> lostLock s c"
  have free: "lk_unlocker l = 0" if "lock_inv s" "ls_lock s c = Some l" "lk_user l = Holding" "\<not> lostLock s c" for s l
  proof -
    from that have "lock_ok l" by (auto simp: lock_inv_def)
    with that show ?thesis by (auto simp: lock_ok_def lostLock_def split: refresherState.splits)
  qed
  show ?thesis
  proof (rule fair_leads_to [OF assms(1), where P = ?P])
    show "?P (lockTrace evs i)" using assms(2,3) False by blast
    show "\<exists>ev\<in>userEvents c. lockStep ev s \<noteq> None" if "lock_inv s" "?P s" for s
      using that free by (auto simp: onLock_def sendUnlocker_def)
  next
    fix s ev t assume "lock_inv s" "?P s" and st: "lockStep ev s = Some t"
    then obtain l where l: "ls_lock s c = Some l" "lk_user l = Holding" by blast
    from user_step [OF this(1) st] obtain m where m: "ls_lock t c = Some m" "moved c l ev t m" by blast
    then show "?P t \<or> lostLock t c \<or> (\<exists>m. ls_lock t c = Some m \<and> lk_user m = Executing)"
      using l(2) by (auto simp: moved_def split: if_splits)
    show "lostLock t c \<or> (\<exists>m. ls_lock t c = Some m \<and> lk_user m = Executing)" if "ev \<in> userEvents c"
      using m l(2) that by (auto simp: moved_def)
  qed
qed auto

lemma exec_happens:
  assumes "weaklyFair evs (userEvents c)" and "ls_lock (lockTrace evs i) c = Some l" and "lk_user l = Executing"
  shows "\<exists>j\<ge>i. released c (lockTrace evs j)"
proof (rule fair_leads_to [OF assms(1), where P = "\<lambda>s. \<exists>l. ls_lock s c = Some l \<and> lk_user l = Executing"])
  show "\<exists>ev\<in>userEvents c. lockStep ev s \<noteq> None" if "\<exists>l. ls_lock s c = Some l \<and> lk_user l = Executing" for s
    using that by (auto simp: onLock_def execRelease_def)
next
  fix s ev t assume "\<exists>l. ls_lock s c = Some l \<and> lk_user l = Executing" and st: "lockStep ev s = Some t"
  then obtain l where l: "ls_lock s c = Some l" "lk_user l = Executing" by blast
  from user_step [OF l(1) st] obtain m where m: "ls_lock t c = Some m" "moved c l ev t m" by blast
  then show "(\<exists>l. ls_lock t c = Some l \<and> lk_user l = Executing) \<or> released c t"
    using l(2) by (auto simp: moved_def released_def split: if_splits)
  show "released c t" if "ev \<in> userEvents c" using m l(2) that by (auto simp: moved_def released_def)
qed (use assms in blast)

lemma cancel_happens:
  assumes "weaklyFair evs {Unlocked c}" and "released c (lockTrace evs i)"
  shows "\<exists>j\<ge>i. released c (lockTrace evs j) \<and> (\<exists>m. ls_lock (lockTrace evs j) c = Some m \<and> lk_cancelled m)"
proof (cases "\<exists>m. ls_lock (lockTrace evs i) c = Some m \<and> lk_cancelled m")
  case False
  let ?P = "\<lambda>s. released c s \<and> (\<exists>m. ls_lock s c = Some m \<and> \<not> lk_cancelled m)"
  show ?thesis
  proof (rule fair_leads_to [OF assms(1), where P = ?P])
    show "?P (lockTrace evs i)" using assms(2) False by (auto simp: released_def)
  next
    fix s assume "lock_inv s" "?P s"
    then obtain l where l: "ls_lock s c = Some l" "lk_user l \<noteq> Holding" "\<not> lk_cancelled l" "lock_ok l"
      by (auto simp: released_def lock_inv_def)
    then have "lk_refresher l = AtSelect" "lk_unlocker l = 1" by (auto simp: lock_ok_def)
    with l(1) show "\<exists>ev\<in>{Unlocked c}. lockStep ev s \<noteq> None" by (simp add: onLock_def)
  next
    fix s ev t assume P: "?P s" and st: "lockStep ev s = Some t"
    then obtain l where "ls_lock s c = Some l" by blast
    from user_step [OF this st] released_step [OF _ st] P
    show "?P t \<or> released c t \<and> (\<exists>m. ls_lock t c = Some m \<and> lk_cancelled m)" by auto
    show "released c t \<and> (\<exists>m. ls_lock t c = Some m \<and> lk_cancelled m)" if "ev \<in> {Unlocked c}"
      using that P st released_step [OF _ st] by (auto elim!: onLock_SomeE split: if_splits)
  qed
qed (use assms(2) in blast)

text \<open>
  C26: A release completes. In every infinite run in which the user of a lock, who holds it, calls \<open>Release\<close> and is not denied
  a step for ever, and in which the refresher does not for ever pass over the channel it could read, a moment
  comes when either the lock is lost to the refresher, which has released it on its own after a failed ping, or \<open>Release\<close> has
  returned and the context of the lock is cancelled; if it returned without an error, the server has no lock of the session any more.
\<close>

theorem release_completes:
  assumes "weaklyFair evs {UserSends c, UserExec c True, UserExec c False}" and "weaklyFair evs {Unlocked c}"
    and "ls_lock (lockTrace evs i) c = Some l" and "lk_user l = Holding"
  shows "\<exists>j\<ge>i. lostLock (lockTrace evs j) c \<or>
    (\<exists>m b. ls_lock (lockTrace evs j) c = Some m \<and> lk_user m = Released b \<and> lk_cancelled m \<and>
       (b \<longrightarrow> (\<forall>k. ls_holder (lockTrace evs j) k \<noteq> Some c)))"
proof -
  from send_happens [OF assms(1,3,4)] obtain j where j: "i \<le> j"
    "lostLock (lockTrace evs j) c \<or> (\<exists>m. ls_lock (lockTrace evs j) c = Some m \<and> lk_user m = Executing)" by blast
  show ?thesis
  proof (cases "lostLock (lockTrace evs j) c")
    case False
    with j obtain m where "ls_lock (lockTrace evs j) c = Some m" "lk_user m = Executing" by blast
    from exec_happens [OF assms(1) this] obtain k where k: "j \<le> k" "released c (lockTrace evs k)" by blast
    from cancel_happens [OF assms(2) k(2)] obtain n m where
      n: "k \<le> n" "released c (lockTrace evs n)" "ls_lock (lockTrace evs n) c = Some m" "lk_cancelled m" by blast
    with j(1) k(1) show ?thesis by (intro exI [of _ n]) (auto simp: released_def)
  qed (use j in blast)
qed

definition demoEvents :: "nat \<Rightarrow> lockEvent option" where
  "demoEvents n = (if n < 4 then Some ([DoObtain 1 ''k'', UserSends 1, UserExec 1 True, Unlocked 1] ! n) else None)"

lemma demoEvents_steps:
  "demoEvents 0 = Some (DoObtain 1 ''k'')" "demoEvents (Suc 0) = Some (UserSends 1)" "demoEvents (Suc (Suc 0)) = Some (UserExec 1 True)"
  "demoEvents (Suc (Suc (Suc 0))) = Some (Unlocked 1)"
  by (simp_all add: demoEvents_def)

lemmas demo_sys = noLocks_def get_lock_def ObtainTimeout_def ObtainTimeoutContext_def onLock_def sendUnlocker_def execRelease_def

lemma demoTrace_start:
  "ls_lock (lockTrace demoEvents (Suc 0)) 1 = Some \<lparr>lk_key = ''k'', lk_unlocker = 0, lk_cancelled = False, lk_refresher = AtSelect, lk_user = Holding\<rparr>"
  "ls_lock (lockTrace demoEvents (Suc (Suc 0))) 1 = Some \<lparr>lk_key = ''k'', lk_unlocker = 1, lk_cancelled = False, lk_refresher = AtSelect, lk_user = Executing\<rparr>"
  "ls_lock (lockTrace demoEvents (Suc (Suc (Suc 0)))) 1 = Some \<lparr>lk_key = ''k'', lk_unlocker = 1, lk_cancelled = False, lk_refresher = AtSelect, lk_user = Released True\<rparr>"
  by (simp_all add: demoEvents_steps demo_sys)

lemma demoTrace_end:
  "4 \<le> n \<Longrightarrow> ls_lock (lockTrace demoEvents n) 1 = Some \<lparr>lk_key = ''k'', lk_unlocker = 0, lk_cancelled = True, lk_refresher = RefEnded, lk_user = Released True\<rparr>"
proof (induction n rule: dec_induct)
  case base
  show ?case by (simp add: numeral_eq_Suc demoEvents_steps demo_sys)
qed (simp add: demoEvents_def)

lemma demoEvents_fair: "weaklyFair demoEvents (userEvents 1)" "weaklyFair demoEvents {Unlocked 1}"
proof -
  have "lockStep ev (lockTrace demoEvents (max i 4)) = None" if "ev \<in> userEvents 1 \<or> ev = Unlocked 1" for ev i
    using that demoTrace_end [of "max i 4"] by (auto simp: onLock_def)
  then show "weaklyFair demoEvents (userEvents 1)" "weaklyFair demoEvents {Unlocked 1}"
    unfolding weaklyFair_def by (metis insertI1 insert_iff max.cobounded1 singletonD)+
qed

theorem release_completes_witness:
  "\<exists>j. ls_lock (lockTrace demoEvents 1) 1 = Some (demoLock ''k'') \<and> 1 \<le> j \<and> ls_holder (lockTrace demoEvents j) ''k'' \<noteq> Some 1 \<and>
     lk_cancelled (the (ls_lock (lockTrace demoEvents j) 1))"
proof -
  have held: "ls_lock (lockTrace demoEvents 1) 1 = Some (demoLock ''k'')" "lk_user (demoLock ''k'') = Holding"
    using demoTrace_start(1) by (simp_all add: demoLock_def)
  from release_completes [OF demoEvents_fair held] obtain j where j: "1 \<le> j" "lostLock (lockTrace demoEvents j) 1 \<or>
    (\<exists>m b. ls_lock (lockTrace demoEvents j) 1 = Some m \<and> lk_user m = Released b \<and> lk_cancelled m \<and>
       (b \<longrightarrow> (\<forall>k. ls_holder (lockTrace demoEvents j) k \<noteq> Some 1)))" by blast
  consider "j = Suc 0" | "j = Suc (Suc 0)" | "j = Suc (Suc (Suc 0))" | "4 \<le> j" using j(1) by linarith
  then have "\<not> lostLock (lockTrace demoEvents j) 1 \<and> (\<forall>l b. ls_lock (lockTrace demoEvents j) 1 = Some l \<and> lk_user l = Released b \<longrightarrow> b)"
    using demoTrace_start demoTrace_end [of j] by cases (simp_all add: lostLock_def del: lockTrace.simps)
  with j held(1) show ?thesis by (intro exI [of _ j]) auto
qed

text \<open>The refresher is to release a lock that its user has released: the channel is full, and it would have to read it itself.\<close>

definition stuckRefresher :: "lockSys \<Rightarrow> nat \<Rightarrow> bool" where
  "stuckRefresher s c \<longleftrightarrow> (\<exists>l. ls_lock s c = Some l \<and> lk_user l \<noteq> Holding \<and> lk_unlocker l = 1 \<and> lk_refresher l = RefSending)"

lemma refresher_blocks:
  assumes "lockReach s t" and "stuckRefresher s c"
  shows "stuckRefresher t c \<and> lockStep (RefSends c) t = None"
proof -
  have step: "stuckRefresher u c" if "stuckRefresher t c" "lockStep ev t = Some u" for t u ev
  proof -
    from that(1) obtain l where l: "ls_lock t c = Some l" "lk_user l \<noteq> Holding" "lk_unlocker l = 1" "lk_refresher l = RefSending"
      by (auto simp: stuckRefresher_def)
    show ?thesis
    proof (cases ev)
      case (DoObtain d key)
      with that(2) l show ?thesis
        by (auto simp: stuckRefresher_def ObtainTimeout_def ObtainTimeoutContext_def split: if_splits)
    qed (use that(2) l in \<open>auto simp: stuckRefresher_def execRelease_def sendUnlocker_def elim!: onLock_SomeE split: if_splits\<close>)
  qed
  from assms have "stuckRefresher t c" by (induction rule: lockReach.induct) (auto dest: step)
  then show ?thesis by (auto simp: stuckRefresher_def onLock_def sendUnlocker_def)
qed

lemma refresher_gets_stuck:
  assumes "lock_inv s" and "ls_lock s c = Some l" and "lk_user l \<noteq> Holding" and "lockStep (PingFails c) s = Some t"
  shows "stuckRefresher t c"
proof -
  from assms have "lock_ok l" "lk_refresher l = AtSelect" by (auto simp: lock_inv_def onLock_def split: if_splits)
  with assms show ?thesis by (auto simp: stuckRefresher_def lock_ok_def onLock_def)
qed

text \<open>
  C40: The refresher of a released lock can block for ever. When a ping fails after the send of the user's \<open>Release\<close> and before
  the refresher has read the channel (the user may meanwhile have closed the connection that is pinged), the refresher
  cancels the context and calls \<open>Release\<close> itself; its send goes to the full channel that only it would read, so that in every
  state that can follow it still stands before that send, which is not enabled: the goroutine never ends.
\<close>

theorem refresher_blocks_for_ever:
  assumes "lockReach noLocks s" and "ls_lock s c = Some l" and "lk_user l \<noteq> Holding"
    and "lockStep (PingFails c) s = Some t" and "lockReach t u"
  shows "lockStep (RefSends c) u = None \<and> (\<exists>m. ls_lock u c = Some m \<and> lk_refresher m = RefSending \<and> lk_cancelled m)"
proof -
  have inv: "lock_inv s" by (rule lockReach_inv [OF assms(1) lock_inv_noLocks])
  from refresher_blocks [OF assms(5) refresher_gets_stuck [OF inv assms(2,3,4)]]
  have u: "stuckRefresher u c" "lockStep (RefSends c) u = None" by simp_all
  have "lock_inv u" by (rule lockReach_inv [OF assms(5) lockStep_inv [OF inv assms(4)]])
  with u show ?thesis by (auto simp: stuckRefresher_def lock_inv_def lock_ok_def)
qed

theorem refresher_blocks_for_ever_witness:
  "\<exists>s t. lockRun [DoObtain 1 ''k'', UserSends 1, UserExec 1 True] noLocks = Some s \<and> lockStep (PingFails 1) s = Some t \<and>
     lockStep (RefSends 1) t = None"
proof -
  obtain s t where s: "lockRun [DoObtain 1 ''k'', UserSends 1, UserExec 1 True] noLocks = Some s"
      "\<exists>l. ls_lock s 1 = Some l \<and> lk_user l \<noteq> Holding" "lockStep (PingFails 1) s = Some t"
    by (simp add: demo_sys)
  then obtain l where "ls_lock s 1 = Some l" "lk_user l \<noteq> Holding" by blast
  from refresher_blocks_for_ever [OF lockRun_reach [OF s(1)] this s(3) lock_refl] s(1,3) show ?thesis by blast
qed

text \<open>
  C34: A lost lock cannot be given back. When a ping fails while the user still holds the lock, the
  refresher calls \<open>Release\<close> itself and its send fills the channel that only it would read; from then
  on the user's \<open>Release\<close> blocks, in every state that can follow.
\<close>

theorem lost_lock_blocks_release:
  assumes "lockReach noLocks s" and "ls_lock s c = Some l" and "lk_user l = Holding"
    and "lk_refresher l = RefExecuting \<or> lk_refresher l = RefEnded" and "lockReach s t"
  shows "lockStep (UserSends c) t = None \<and> (\<exists>m. ls_lock t c = Some m \<and> lk_user m = Holding)"
proof -
  from lockReach_inv [OF assms(1) lock_inv_noLocks] assms(2) have "lock_ok l" by (auto simp: lock_inv_def)
  with assms(2-4) have "lostLock s c" by (auto simp: lostLock_def lock_ok_def)
  with assms(5) have "lostLock t c" by (induction rule: lockReach.induct) (auto dest: lostLock_step)
  then show ?thesis using lostLock_stuck by (auto simp: lostLock_def)
qed

theorem lost_lock_blocks_release_witness:
  "\<exists>s. lockRun [DoObtain 1 ''k'', PingFails 1, RefSends 1, RefExec 1 False] noLocks = Some s \<and>
     lockStep (UserSends 1) s = None"
proof -
  obtain s where s: "lockRun [DoObtain 1 ''k'', PingFails 1, RefSends 1, RefExec 1 False] noLocks = Some s"
      "\<exists>l. ls_lock s 1 = Some l \<and> lk_user l = Holding \<and> lk_refresher l = RefEnded"
    by (simp add: noLocks_def get_lock_def ObtainTimeout_def ObtainTimeoutContext_def onLock_def sendUnlocker_def execRelease_def)
  then obtain l where "ls_lock s 1 = Some l" "lk_user l = Holding" "lk_refresher l = RefEnded" by blast
  with lost_lock_blocks_release [OF lockRun_reach [OF s(1)] _ _ _ lock_refl] s(1) show ?thesis by blast
qed

end
