(* ===== verification/Gorm.thy ===== *)
theory Gorm
  imports Model DbLock
begin

text \<open>
  The store behind the data access layer: GORM over MySQL, which is not part of the sources.
  Its calls are parameters of the model (a record of functions over an abstract database
  \<open>'db\<close>, one per shape of query the layer issues, each of which may fail), and what the layer
  relies on is the locale \<open>gorm_store\<close>: how each successful call relates to the rows of the
  six tables. The laws are the documented behaviour of GORM:
  \<^item> a structure given to \<open>Where\<close> selects the rows that agree with its non-zero columns;
  \<^item> \<open>First\<close> returns the matching row with the least primary key, or \<open>ErrRecordNotFound\<close>;
  \<^item> \<open>Updates\<close> with a structure writes its non-zero columns to the matching rows;
  \<^item> \<open>Create\<close> adds the row under a fresh auto-increment key; a field tagged \<open>gorm:"-"\<close> is not a
    column, so it is not stored;
  \<^item> \<open>Transaction\<close> keeps the effects of its body when the body returns nil and the commit
    succeeds, and undoes them otherwise.
  The last section gives the laws a concrete store, tables kept in memory, on which closed
  instances of the theorems are evaluated.
\<close>

section \<open>The calls\<close>

datatype gerr = RecordNotFound | DBError string

text \<open>The errors the data access layer returns: its own, the parser's, the store's and those of the lock client
  it hands out.\<close>

datatype dal_error =
    StoreError gerr
  | ParseError swf_error
  | WorkflowTextInvalid
  | WorkflowIDExists
  | CompleteError string
  | LockFailed lock_error

text \<open>
  One table: \<open>Where(&c).First\<close>, \<open>Where(&c).Find\<close>, \<open>Create\<close>, \<open>Where(&c).Updates(&u)\<close> and
  \<open>Where("workflow_id = ?", id).Updates(&u)\<close>.
\<close>

record ('db, 'r) gtable =
  g_first :: "'r \<Rightarrow> 'db \<Rightarrow> gerr + 'r"
  g_find :: "'r \<Rightarrow> 'db \<Rightarrow> gerr + 'r list"
  g_create :: "'r \<Rightarrow> 'db \<Rightarrow> gerr + 'db"
  g_updates :: "'r \<Rightarrow> 'r \<Rightarrow> 'db \<Rightarrow> gerr + 'db"
  g_updatesOf :: "string \<Rightarrow> 'r \<Rightarrow> 'db \<Rightarrow> gerr + 'db"

text \<open>
  The whole store. \<open>g_tasksOf c ids\<close> is \<open>Where(&c).Where("task_id = ?", ids).Find\<close> and
  \<open>g_actionsOf\<close> the same for actions; \<open>g_newest c\<close> is \<open>Where(&c).Order("create_time desc").First\<close>;
  \<open>g_page id st lim off\<close> is the page of workflows (with the optional \<open>LIKE\<close> on the workflow id)
  newest first, and the number of all matching rows; \<open>g_pageInstances\<close> the same for the
  instances of one workflow; \<open>g_tx body\<close> is \<open>Transaction(body)\<close>. \<open>g_conv\<close> is \<open>gconv.Struct\<close>, which the
  layer calls to copy a task instance.
\<close>

record 'db gorm =
  g_workflow :: "('db, mWorkflow) gtable"
  g_instance :: "('db, mWorkflowInstance) gtable"
  g_task :: "('db, mWorkflowTask) gtable"
  g_action :: "('db, mWorkflowTaskAction) gtable"
  g_relation :: "('db, mWorkflowTaskRelation) gtable"
  g_taskInstance :: "('db, mWorkflowTaskInstance) gtable"
  g_tasksOf :: "mWorkflowTask \<Rightarrow> string list \<Rightarrow> 'db \<Rightarrow> gerr + mWorkflowTask list"
  g_actionsOf :: "mWorkflowTaskAction \<Rightarrow> string list \<Rightarrow> 'db \<Rightarrow> gerr + mWorkflowTaskAction list"
  g_newest :: "mWorkflowTaskInstance \<Rightarrow> 'db \<Rightarrow> gerr + mWorkflowTaskInstance"
  g_page :: "string \<Rightarrow> int \<Rightarrow> int \<Rightarrow> int \<Rightarrow> 'db \<Rightarrow> gerr + (mWorkflow list \<times> int)"
  g_pageInstances :: "string \<Rightarrow> int \<Rightarrow> int \<Rightarrow> 'db \<Rightarrow> gerr + (mWorkflowInstance list \<times> int)"
  g_liveInstances :: "string \<Rightarrow> 'db \<Rightarrow> gerr + mWorkflowInstance list"
  g_conv :: "mWorkflowTaskInstance \<Rightarrow> string + mWorkflowTaskInstance"
  g_tx :: "('db, dal_error, unit) prog \<Rightarrow> ('db, dal_error, unit) prog"

section \<open>Rows: agreement with a condition, update, stored columns\<close>

definition agrees :: "'a \<Rightarrow> 'a \<Rightarrow> 'a \<Rightarrow> bool" where
  "agrees z c x \<longleftrightarrow> c = z \<or> c = x"

definition pick :: "'a \<Rightarrow> 'a \<Rightarrow> 'a \<Rightarrow> 'a" where
  "pick z u x = (if u = z then x else u)"

text \<open>What a table needs to know of its row type.\<close>

record 'r rowops =
  ro_match :: "'r \<Rightarrow> 'r \<Rightarrow> bool"
  ro_over :: "'r \<Rightarrow> 'r \<Rightarrow> 'r"
  ro_cols :: "'r \<Rightarrow> 'r"
  ro_id :: "'r \<Rightarrow> int"
  ro_setid :: "int \<Rightarrow> 'r \<Rightarrow> 'r"
  ro_wfid :: "'r \<Rightarrow> string"

definition workflowRow :: "mWorkflow rowops" where
  "workflowRow = \<lparr>
     ro_match = (\<lambda>c r. agrees 0 (w_ID c) (w_ID r) \<and> agrees [] (w_WorkflowID c) (w_WorkflowID r)
       \<and> agrees [] (w_WorkflowName c) (w_WorkflowName r) \<and> agrees [] (w_Definition c) (w_Definition r)
       \<and> agrees 0 (w_Status c) (w_Status r) \<and> agrees [] (w_Version c) (w_Version r)
       \<and> agrees 0 (w_CreateTime c) (w_CreateTime r) \<and> agrees 0 (w_UpdateTime c) (w_UpdateTime r)),
     ro_over = (\<lambda>u r. r\<lparr>w_WorkflowID := pick [] (w_WorkflowID u) (w_WorkflowID r),
       w_WorkflowName := pick [] (w_WorkflowName u) (w_WorkflowName r),
       w_Definition := pick [] (w_Definition u) (w_Definition r),
       w_Status := pick 0 (w_Status u) (w_Status r), w_Version := pick [] (w_Version u) (w_Version r),
       w_CreateTime := pick 0 (w_CreateTime u) (w_CreateTime r),
       w_UpdateTime := pick 0 (w_UpdateTime u) (w_UpdateTime r)\<rparr>),
     ro_cols = (\<lambda>r. r\<lparr>w_TotalInstances := 0, w_TotalRunningInstances := 0, w_TotalFailedInstances := 0\<rparr>),
     ro_id = w_ID, ro_setid = (\<lambda>i r. r\<lparr>w_ID := i\<rparr>), ro_wfid = w_WorkflowID\<rparr>"

definition instanceRow :: "mWorkflowInstance rowops" where
  "instanceRow = \<lparr>
     ro_match = (\<lambda>c r. agrees 0 (i_ID c) (i_ID r) \<and> agrees [] (i_WorkflowID c) (i_WorkflowID r)
       \<and> agrees [] (i_WorkflowInstanceID c) (i_WorkflowInstanceID r)
       \<and> agrees 0 (i_WorkflowStatus c) (i_WorkflowStatus r)
       \<and> agrees 0 (i_CreateTime c) (i_CreateTime r) \<and> agrees 0 (i_UpdateTime c) (i_UpdateTime r)),
     ro_over = (\<lambda>u r. r\<lparr>i_WorkflowID := pick [] (i_WorkflowID u) (i_WorkflowID r),
       i_WorkflowInstanceID := pick [] (i_WorkflowInstanceID u) (i_WorkflowInstanceID r),
       i_WorkflowStatus := pick 0 (i_WorkflowStatus u) (i_WorkflowStatus r),
       i_CreateTime := pick 0 (i_CreateTime u) (i_CreateTime r),
       i_UpdateTime := pick 0 (i_UpdateTime u) (i_UpdateTime r)\<rparr>),
     ro_cols = (\<lambda>r. r),
     ro_id = i_ID, ro_setid = (\<lambda>i r. r\<lparr>i_ID := i\<rparr>), ro_wfid = i_WorkflowID\<rparr>"

definition actionRow :: "mWorkflowTaskAction rowops" where
  "actionRow = \<lparr>
     ro_match = (\<lambda>c r. agrees 0 (a_ID c) (a_ID r) \<and> agrees [] (a_WorkflowID c) (a_WorkflowID r)
       \<and> agrees [] (a_TaskID c) (a_TaskID r) \<and> agrees [] (a_OperationName c) (a_OperationName r)
       \<and> agrees [] (a_OperationType c) (a_OperationType r) \<and> agrees 0 (a_Status c) (a_Status r)
       \<and> agrees 0 (a_CreateTime c) (a_CreateTime r) \<and> agrees 0 (a_UpdateTime c) (a_UpdateTime r)),
     ro_over = (\<lambda>u r. r\<lparr>a_WorkflowID := pick [] (a_WorkflowID u) (a_WorkflowID r),
       a_TaskID := pick [] (a_TaskID u) (a_TaskID r),
       a_OperationName := pick [] (a_OperationName u) (a_OperationName r),
       a_OperationType := pick [] (a_OperationType u) (a_OperationType r),
       a_Status := pick 0 (a_Status u) (a_Status r),
       a_CreateTime := pick 0 (a_CreateTime u) (a_CreateTime r),
       a_UpdateTime := pick 0 (a_UpdateTime u) (a_UpdateTime r)\<rparr>),
     ro_cols = (\<lambda>r. r\<lparr>a_TaskIDs := []\<rparr>),
     ro_id = a_ID, ro_setid = (\<lambda>i r. r\<lparr>a_ID := i\<rparr>), ro_wfid = a_WorkflowID\<rparr>"

definition relationRow :: "mWorkflowTaskRelation rowops" where
  "relationRow = \<lparr>
     ro_match = (\<lambda>c r. agrees 0 (r_ID c) (r_ID r) \<and> agrees [] (r_WorkflowID c) (r_WorkflowID r)
       \<and> agrees [] (r_FromTaskID c) (r_FromTaskID r) \<and> agrees [] (r_ToTaskID c) (r_ToTaskID r)
       \<and> agrees [] (r_Condition c) (r_Condition r) \<and> agrees 0 (r_Status c) (r_Status r)
       \<and> agrees 0 (r_CreateTime c) (r_CreateTime r) \<and> agrees 0 (r_UpdateTime c) (r_UpdateTime r)),
     ro_over = (\<lambda>u r. r\<lparr>r_WorkflowID := pick [] (r_WorkflowID u) (r_WorkflowID r),
       r_FromTaskID := pick [] (r_FromTaskID u) (r_FromTaskID r),
       r_ToTaskID := pick [] (r_ToTaskID u) (r_ToTaskID r),
       r_Condition := pick [] (r_Condition u) (r_Condition r),
       r_Status := pick 0 (r_Status u) (r_Status r),
       r_CreateTime := pick 0 (r_CreateTime u) (r_CreateTime r),
       r_UpdateTime := pick 0 (r_UpdateTime u) (r_UpdateTime r)\<rparr>),
     ro_cols = (\<lambda>r. r),
     ro_id = r_ID, ro_setid = (\<lambda>i r. r\<lparr>r_ID := i\<rparr>), ro_wfid = r_WorkflowID\<rparr>"

definition taskRow :: "mWorkflowTask rowops" where
  "taskRow = \<lparr>
     ro_match = (\<lambda>c r. agrees 0 (t_ID c) (t_ID r) \<and> agrees [] (t_WorkflowID c) (t_WorkflowID r)
       \<and> agrees [] (t_TaskID c) (t_TaskID r) \<and> agrees [] (t_TaskName c) (t_TaskName r)
       \<and> agrees [] (t_TaskType c) (t_TaskType r)
       \<and> agrees [] (t_TaskInputFilter c) (t_TaskInputFilter r)
       \<and> agrees [] (t_TaskOutputFilter c) (t_TaskOutputFilter r) \<and> agrees 0 (t_Status c) (t_Status r)
       \<and> agrees 0 (t_CreateTime c) (t_CreateTime r) \<and> agrees 0 (t_UpdateTime c) (t_UpdateTime r)),
     ro_over = (\<lambda>u r. r\<lparr>t_WorkflowID := pick [] (t_WorkflowID u) (t_WorkflowID r),
       t_TaskID := pick [] (t_TaskID u) (t_TaskID r), t_TaskName := pick [] (t_TaskName u) (t_TaskName r),
       t_TaskType := pick [] (t_TaskType u) (t_TaskType r),
       t_TaskInputFilter := pick [] (t_TaskInputFilter u) (t_TaskInputFilter r),
       t_TaskOutputFilter := pick [] (t_TaskOutputFilter u) (t_TaskOutputFilter r),
       t_Status := pick 0 (t_Status u) (t_Status r),
       t_CreateTime := pick 0 (t_CreateTime u) (t_CreateTime r),
       t_UpdateTime := pick 0 (t_UpdateTime u) (t_UpdateTime r)\<rparr>),
     ro_cols = (\<lambda>r. r\<lparr>t_TaskDefinition := [], t_Actions := [], t_TaskIDs := [],
       t_WorkflowInstanceID := [], t_ChildTasks := []\<rparr>),
     ro_id = t_ID, ro_setid = (\<lambda>i r. r\<lparr>t_ID := i\<rparr>), ro_wfid = t_WorkflowID\<rparr>"

definition taskInstanceRow :: "mWorkflowTaskInstance rowops" where
  "taskInstanceRow = \<lparr>
     ro_match = (\<lambda>c r. agrees 0 (ti_ID c) (ti_ID r)
       \<and> agrees [] (ti_WorkflowInstanceID c) (ti_WorkflowInstanceID r)
       \<and> agrees [] (ti_WorkflowID c) (ti_WorkflowID r) \<and> agrees [] (ti_TaskID c) (ti_TaskID r)
       \<and> agrees [] (ti_TaskInstanceID c) (ti_TaskInstanceID r)
       \<and> agrees 0 (ti_Status c) (ti_Status r) \<and> agrees [] (ti_Input c) (ti_Input r)
       \<and> agrees 0 (ti_RetryTimes c) (ti_RetryTimes r)
       \<and> agrees 0 (ti_CreateTime c) (ti_CreateTime r) \<and> agrees 0 (ti_UpdateTime c) (ti_UpdateTime r)),
     ro_over = (\<lambda>u r. r\<lparr>
       ti_WorkflowInstanceID := pick [] (ti_WorkflowInstanceID u) (ti_WorkflowInstanceID r),
       ti_WorkflowID := pick [] (ti_WorkflowID u) (ti_WorkflowID r),
       ti_TaskID := pick [] (ti_TaskID u) (ti_TaskID r),
       ti_TaskInstanceID := pick [] (ti_TaskInstanceID u) (ti_TaskInstanceID r),
       ti_Status := pick 0 (ti_Status u) (ti_Status r), ti_Input := pick [] (ti_Input u) (ti_Input r),
       ti_RetryTimes := pick 0 (ti_RetryTimes u) (ti_RetryTimes r),
       ti_CreateTime := pick 0 (ti_CreateTime u) (ti_CreateTime r),
       ti_UpdateTime := pick 0 (ti_UpdateTime u) (ti_UpdateTime r)\<rparr>),
     ro_cols = (\<lambda>r. r\<lparr>ti_Task := None, ti_Order := [], ti_IsStart := False\<rparr>),
     ro_id = ti_ID, ro_setid = (\<lambda>i r. r\<lparr>ti_ID := i\<rparr>), ro_wfid = ti_WorkflowID\<rparr>"

lemmas row_defs = workflowRow_def instanceRow_def actionRow_def relationRow_def taskRow_def
  taskInstanceRow_def

section \<open>The laws of one table\<close>

text \<open>The contents of the database, each table in the order of its primary key.\<close>

record tables =
  tb_workflow :: "mWorkflow list"
  tb_instance :: "mWorkflowInstance list"
  tb_task :: "mWorkflowTask list"
  tb_action :: "mWorkflowTaskAction list"
  tb_relation :: "mWorkflowTaskRelation list"
  tb_taskInstance :: "mWorkflowTaskInstance list"

definition update_where :: "('r \<Rightarrow> bool) \<Rightarrow> ('r \<Rightarrow> 'r) \<Rightarrow> 'r list \<Rightarrow> 'r list" where
  "update_where p f = map (\<lambda>r. if p r then f r else r)"

locale gorm_table =
  fixes T :: "('db, 'r) gtable"
    and view :: "'db \<Rightarrow> tables"
    and rows :: "tables \<Rightarrow> 'r list"
    and upd :: "('r list \<Rightarrow> 'r list) \<Rightarrow> tables \<Rightarrow> tables"
    and R :: "'r rowops"
  assumes first_ok: "g_first T c db = Inr r \<Longrightarrow> find (ro_match R c) (rows (view db)) = Some r"
    and first_none: "g_first T c db = Inl RecordNotFound \<Longrightarrow> find (ro_match R c) (rows (view db)) = None"
    and find_ok: "g_find T c db = Inr rs \<Longrightarrow> rs = filter (ro_match R c) (rows (view db))"
    and create_ok: "g_create T r db = Inr db' \<Longrightarrow>
      \<exists>k. 0 < k \<and> (\<forall>x\<in>set (rows (view db)). ro_id R x < k) \<and>
        view db' = upd (\<lambda>rs. rs @ [ro_setid R k (ro_cols R r)]) (view db)"
    and updates_ok: "g_updates T c u db = Inr db' \<Longrightarrow>
      view db' = upd (update_where (ro_match R c) (ro_over R u)) (view db)"
    and updatesOf_ok: "g_updatesOf T i u db = Inr db' \<Longrightarrow>
      view db' = upd (update_where (\<lambda>r. ro_wfid R r = i) (ro_over R u)) (view db)"

section \<open>The laws of the store\<close>

text \<open>The row \<open>Order("create_time desc").First\<close> returns: matching, with no newer matching row.\<close>

definition is_newest :: "(mWorkflowTaskInstance \<Rightarrow> bool) \<Rightarrow> mWorkflowTaskInstance list \<Rightarrow>
    mWorkflowTaskInstance \<Rightarrow> bool" where
  "is_newest p rs r \<longleftrightarrow>
     r \<in> set rs \<and> p r \<and> (\<forall>x\<in>set rs. p x \<longrightarrow> ti_CreateTime x \<le> ti_CreateTime r)"

text \<open>How a transaction may end, given how its body ended.\<close>

definition tx_result :: "('db \<Rightarrow> tables) \<Rightarrow> 'db \<Rightarrow> (dal_error, unit) outcome \<times> 'db \<Rightarrow>
    (dal_error, unit) outcome \<times> 'db \<Rightarrow> bool" where
  "tx_result view db body res \<longleftrightarrow>
     (case body of
        (Ok _, db1) \<Rightarrow> (fst res = Ok () \<and> view (snd res) = view db1)
                     \<or> (\<exists>e. fst res = Err (StoreError e) \<and> view (snd res) = view db)
      | (Err e, _) \<Rightarrow> fst res = Err e \<and> view (snd res) = view db
      | (Panic p, _) \<Rightarrow> fst res = Panic p \<and> view (snd res) = view db)"

locale gorm_store =
  wfT: gorm_table "g_workflow G" view tb_workflow tb_workflow_update workflowRow +
  inT: gorm_table "g_instance G" view tb_instance tb_instance_update instanceRow +
  tkT: gorm_table "g_task G" view tb_task tb_task_update taskRow +
  acT: gorm_table "g_action G" view tb_action tb_action_update actionRow +
  rlT: gorm_table "g_relation G" view tb_relation tb_relation_update relationRow +
  tiT: gorm_table "g_taskInstance G" view tb_taskInstance tb_taskInstance_update taskInstanceRow
  for G :: "'db gorm" and view :: "'db \<Rightarrow> tables" +
  assumes tasksOf_ok: "g_tasksOf G ct [i] db = Inr ts \<Longrightarrow>
      ts = filter (\<lambda>r. ro_match taskRow ct r \<and> t_TaskID r = i) (tb_task (view db))"
    and actionsOf_ok: "g_actionsOf G ca [i] db = Inr as \<Longrightarrow>
      as = filter (\<lambda>r. ro_match actionRow ca r \<and> a_TaskID r = i) (tb_action (view db))"
    and conv_ok: "g_conv G x = Inr y \<Longrightarrow> y = x"
    and newest_ok: "g_newest G c db = Inr r \<Longrightarrow>
      is_newest (ro_match taskInstanceRow c) (tb_taskInstance (view db)) r"
    and newest_none: "g_newest G c db = Inl RecordNotFound \<Longrightarrow>
      \<forall>r\<in>set (tb_taskInstance (view db)). \<not> ro_match taskInstanceRow c r"
    and liveInstances_ok: "g_liveInstances G i db = Inr rs \<Longrightarrow>
      rs = filter (\<lambda>r. i_WorkflowID r = i \<and> i_WorkflowStatus r \<noteq> InvalidStatus) (tb_instance (view db))"
    and page_ok: "g_page G i st lim off db = Inr (ws, n) \<Longrightarrow>
      set ws \<subseteq> ro_cols workflowRow ` {r \<in> set (tb_workflow (view db)). w_Status r = st}
      \<and> (0 < lim \<longrightarrow> int (length ws) \<le> lim) \<and> int (length ws) \<le> n \<and> (lim \<le> 0 \<and> off \<le> 0 \<longrightarrow> int (length ws) = n)
      \<and> (i = [] \<longrightarrow> n = int (length (filter (\<lambda>r. w_Status r = st) (tb_workflow (view db)))))"
    and page_found: "g_page G i st lim off db \<noteq> Inl RecordNotFound"
    and pageInstances_ok: "g_pageInstances G i lim off db = Inr (is, n) \<Longrightarrow>
      set is \<subseteq> {r \<in> set (tb_instance (view db)). i_WorkflowID r = i \<and> i_WorkflowStatus r \<noteq> InvalidStatus}
      \<and> (0 < lim \<longrightarrow> int (length is) \<le> lim) \<and> int (length is) \<le> n"
    and tx_ok: "tx_result view db (body db) (g_tx G body db)"

text \<open>A store none of whose calls fails, for the statements that promise a result.\<close>

locale gorm_total =
  fixes T :: "('db, 'r) gtable"
  assumes create_total: "\<exists>db'. g_create T r db = Inr db'"
    and updates_total: "\<exists>db'. g_updates T c u db = Inr db'"
    and updatesOf_total: "\<exists>db'. g_updatesOf T i u db = Inr db'"
    and first_total: "g_first T c db = Inl e \<Longrightarrow> e = RecordNotFound"
    and find_total: "\<exists>rs. g_find T c db = Inr rs"

locale gorm_reliable = gorm_store G view +
  wfX: gorm_total "g_workflow G" + inX: gorm_total "g_instance G" + tkX: gorm_total "g_task G" +
  acX: gorm_total "g_action G" + rlX: gorm_total "g_relation G" + tiX: gorm_total "g_taskInstance G"
  for G :: "'db gorm" and view :: "'db \<Rightarrow> tables" +
  assumes tx_commits: "fst (body db) = Ok () \<Longrightarrow> fst (g_tx G body db) = Ok ()"

section \<open>A store in memory\<close>

definition next_id :: "'r rowops \<Rightarrow> 'r list \<Rightarrow> int" where
  "next_id R rs = fold max (map (ro_id R) rs) 0 + 1"

definition mem_table :: "(tables \<Rightarrow> 'r list) \<Rightarrow> (('r list \<Rightarrow> 'r list) \<Rightarrow> tables \<Rightarrow> tables) \<Rightarrow>
    'r rowops \<Rightarrow> (tables, 'r) gtable" where
  "mem_table rows upd R = \<lparr>
     g_first = (\<lambda>c db. case find (ro_match R c) (rows db) of
                        None \<Rightarrow> Inl RecordNotFound | Some r \<Rightarrow> Inr r),
     g_find = (\<lambda>c db. Inr (filter (ro_match R c) (rows db))),
     g_create = (\<lambda>r db. Inr (upd (\<lambda>rs. rs @ [ro_setid R (next_id R (rows db)) (ro_cols R r)]) db)),
     g_updates = (\<lambda>c u db. Inr (upd (update_where (ro_match R c) (ro_over R u)) db)),
     g_updatesOf = (\<lambda>i u db. Inr (upd (update_where (\<lambda>r. ro_wfid R r = i) (ro_over R u)) db))\<rparr>"

fun newest :: "(mWorkflowTaskInstance \<Rightarrow> bool) \<Rightarrow> mWorkflowTaskInstance list \<Rightarrow>
    mWorkflowTaskInstance option" where
  "newest p [] = None"
| "newest p (r # rs) =
     (case newest p rs of
        None \<Rightarrow> if p r then Some r else None
      | Some x \<Rightarrow> if p r \<and> ti_CreateTime x \<le> ti_CreateTime r then Some r else Some x)"

definition page :: "int \<Rightarrow> int \<Rightarrow> 'r list \<Rightarrow> 'r list" where
  "page lim off rs = (if 0 < lim then take (nat lim) (drop (nat off) rs) else drop (nat off) rs)"

definition mem_gorm :: "tables gorm" where
  "mem_gorm = \<lparr>
     g_workflow = mem_table tb_workflow tb_workflow_update workflowRow,
     g_instance = mem_table tb_instance tb_instance_update instanceRow,
     g_task = mem_table tb_task tb_task_update taskRow,
     g_action = mem_table tb_action tb_action_update actionRow,
     g_relation = mem_table tb_relation tb_relation_update relationRow,
     g_taskInstance = mem_table tb_taskInstance tb_taskInstance_update taskInstanceRow,
     g_tasksOf = (\<lambda>c ids db. Inr (filter (\<lambda>r. ro_match taskRow c r \<and> t_TaskID r \<in> set ids) (tb_task db))),
     g_actionsOf = (\<lambda>c ids db.
        Inr (filter (\<lambda>r. ro_match actionRow c r \<and> a_TaskID r \<in> set ids) (tb_action db))),
     g_newest = (\<lambda>c db. case newest (ro_match taskInstanceRow c) (tb_taskInstance db) of
                         None \<Rightarrow> Inl RecordNotFound | Some r \<Rightarrow> Inr r),
     g_page = (\<lambda>i st lim off db.
        let rs = filter (\<lambda>r. (i = [] \<or> sublist i (w_WorkflowID r)) \<and> w_Status r = st) (tb_workflow db)
        in Inr (map (ro_cols workflowRow) (page lim off rs), int (length rs))),
     g_pageInstances = (\<lambda>i lim off db.
        let rs = filter (\<lambda>r. i_WorkflowID r = i \<and> i_WorkflowStatus r \<noteq> InvalidStatus) (tb_instance db)
        in Inr (page lim off rs, int (length rs))),
     g_liveInstances = (\<lambda>i db.
        Inr (filter (\<lambda>r. i_WorkflowID r = i \<and> i_WorkflowStatus r \<noteq> InvalidStatus) (tb_instance db))),
     g_conv = Inr,
     g_tx = (\<lambda>body db. case body db of (Ok x, db') \<Rightarrow> (Ok x, db') | (r, _) \<Rightarrow> (r, db))\<rparr>"

definition empty_tables :: tables where
  "empty_tables = \<lparr>tb_workflow = [], tb_instance = [], tb_task = [], tb_action = [], tb_relation = [],
     tb_taskInstance = []\<rparr>"

lemma fold_max_ge: "(m :: int) \<le> fold max xs m \<and> (\<forall>x\<in>set xs. x \<le> fold max xs m)"
  by (induction xs arbitrary: m) (auto, (fastforce simp: max_def)+)

lemma next_id_fresh: "0 < next_id R rs \<and> (\<forall>x\<in>set rs. ro_id R x < next_id R rs)"
  using fold_max_ge [of 0 "map (ro_id R) rs"] by (auto simp: next_id_def)

lemma mem_table_laws: "gorm_table (mem_table rows upd R) (\<lambda>db. db) rows upd R"
proof (unfold_locales, goal_cases)
  case (4 r db db')
  then show ?case
    using next_id_fresh [of R "rows db"] by (intro exI [of _ "next_id R (rows db)"]) (auto simp: mem_table_def)
qed (auto simp: mem_table_def split: option.splits)

lemma mem_table_total: "gorm_total (mem_table rows upd R)"
  by unfold_locales (auto simp: mem_table_def split: option.splits)

interpretation memTable: gorm_table "mem_table rows upd R" "\<lambda>db. db" rows upd R for rows upd R
  by (rule mem_table_laws)

interpretation memTotal: gorm_total "mem_table rows upd R" for rows upd R
  by (rule mem_table_total)

lemma newest_None: "newest p rs = None \<Longrightarrow> \<forall>r\<in>set rs. \<not> p r"
  by (induction rs) (auto split: option.splits if_splits)

lemma newest_Some: "newest p rs = Some r \<Longrightarrow> is_newest p rs r"
proof (induction rs arbitrary: r)
  case (Cons a rs)
  show ?case
  proof (cases "newest p rs")
    case None
    with Cons.prems newest_None [OF None] show ?thesis by (auto simp: is_newest_def split: if_splits)
  next
    case (Some x)
    from Cons.IH [OF this] Cons.prems Some show ?thesis
      by (force simp: is_newest_def split: if_splits)
  qed
qed simp

lemma page_sub: "set (page lim off rs) \<subseteq> set rs"
  by (auto simp: page_def dest: in_set_takeD in_set_dropD)

lemma page_le: "length (page lim off rs) \<le> length rs"
  by (simp add: page_def min.coboundedI1)

lemma page_all: "lim \<le> 0 \<Longrightarrow> off \<le> 0 \<Longrightarrow> page lim off rs = rs"
  by (simp add: page_def)

lemma page_length: "0 < lim \<Longrightarrow> int (length (page lim off rs)) \<le> lim"
  by (simp add: page_def)

interpretation mem: gorm_store mem_gorm "\<lambda>db. db"
proof (rule gorm_store.intro)
  show "gorm_store_axioms mem_gorm (\<lambda>db. db)"
    by unfold_locales
      (auto simp: mem_gorm_def Let_def newest_Some newest_None tx_result_def page_length page_le page_all
        split: option.splits prod.splits outcome.splits if_splits
        dest: page_sub [THEN subsetD])
qed (simp_all add: mem_gorm_def mem_table_laws)

interpretation memr: gorm_reliable mem_gorm "\<lambda>db. db"
proof (rule gorm_reliable.intro)
  show "gorm_reliable_axioms mem_gorm"
    by unfold_locales (auto simp: mem_gorm_def split: prod.splits outcome.splits)
qed (rule mem.gorm_store_axioms, simp_all add: mem_gorm_def mem_table_total)

end
