(* ===== verification/Util.thy ===== *)
theory Util
  imports Prelude "HOL-Library.Multiset"
begin

text \<open>
  \<open>internal/util/flow_util.go\<close>: running handlers concurrently and waiting for all of them. The
  handlers are single statements on a shared state; \<open>sched k\<close> is the order in which a run
  executes \<open>k\<close> handlers, any permutation of their indices. A handler that panics is logged and
  counts as finished without an error.
\<close>

definition sched_ok :: "(nat \<Rightarrow> nat list) \<Rightarrow> bool" where
  "sched_ok sched \<longleftrightarrow> (\<forall>k. mset (sched k) = mset [0..<k])"

definition interleave :: "(nat \<Rightarrow> nat list) \<Rightarrow> 'a list \<Rightarrow> 'a list" where
  "interleave sched hs = map ((!) hs) (sched (length hs))"

fun runAll :: "('s, 'e, unit) prog list \<Rightarrow> 's \<Rightarrow> 'e option \<times> 's" where
  "runAll [] s = (None, s)"
| "runAll (handler # hs) s =
     (case handler s of
        (Ok _, s') \<Rightarrow> runAll hs s'
      | (Err e, s') \<Rightarrow> (Some e, snd (runAll hs s'))
      | (Panic _, s') \<Rightarrow> runAll hs s')"

definition GoAndWait :: "(nat \<Rightarrow> nat list) \<Rightarrow> ('s, 'e, unit) prog list \<Rightarrow> ('s, 'e, unit) prog" where
  "GoAndWait sched handlers s =
     (case runAll (interleave sched handlers) s of
        (None, s') \<Rightarrow> (Ok (), s')
      | (Some e, s') \<Rightarrow> (Err e, s'))"

lemma mset_interleave:
  assumes "sched_ok sched"
  shows "mset (interleave sched hs) = mset hs"
proof -
  have "mset (interleave sched hs) = image_mset ((!) hs) (mset [0..<length hs])"
    using assms by (simp add: interleave_def sched_ok_def)
  also have "\<dots> = mset (map ((!) hs) [0..<length hs])"
    by (simp only: mset_map)
  finally show ?thesis by (simp only: map_nth)
qed

lemma set_interleave: "sched_ok sched \<Longrightarrow> set (interleave sched hs) = set hs"
  by (metis mset_interleave set_mset_mset)

lemma interleave_map: "sched_ok sched \<Longrightarrow> interleave sched (map f xs) = map f (interleave sched xs)"
proof -
  assume "sched_ok sched"
  then have "set (sched (length xs)) = {..<length xs}"
    by (metis sched_ok_def set_mset_mset atLeast_upt)
  then show ?thesis by (simp add: interleave_def)
qed

lemma GoAndWait_Ok_iff: "GoAndWait sched hs s = (Ok x, s') \<longleftrightarrow> runAll (interleave sched hs) s = (None, s')"
  by (auto simp: GoAndWait_def split: prod.splits option.splits)

lemma GoAndWait_no_panic: "GoAndWait sched hs s \<noteq> (Panic p, s')"
  by (auto simp: GoAndWait_def split: prod.splits option.splits)

text \<open>Without panics, no error means that every handler ended well, each from where the last stopped.\<close>

fun runs_ok :: "('s, 'e, unit) prog list \<Rightarrow> 's \<Rightarrow> 's \<Rightarrow> bool" where
  "runs_ok [] s t = (t = s)"
| "runs_ok (h # hs) s t = (\<exists>s'. h s = (Ok (), s') \<and> runs_ok hs s' t)"

lemma runAll_None_runs_ok:
  assumes "\<And>h s p s'. h \<in> set hs \<Longrightarrow> h s \<noteq> (Panic p, s')" and "runAll hs s = (None, t)"
  shows "runs_ok hs s t"
  using assms
proof (induction hs arbitrary: s)
  case (Cons h hs)
  then show ?case by (cases "h s") (auto split: outcome.splits)
qed simp

lemma runs_ok_runAll: "runs_ok hs s t \<Longrightarrow> runAll hs s = (None, t)"
  by (induction hs arbitrary: s) auto

text \<open>
  When what the handlers do to the part of the state that \<open>view\<close> shows commutes, a run that ends
  without error has done the work of each handler once, whatever the order.
\<close>

lemma runs_ok_fold:
  assumes "\<And>j s s'. j \<in> set js \<Longrightarrow> run j s = (Ok (), s') \<Longrightarrow> view s' = eff j (view s)"
    and "runs_ok (map run js) s t"
  shows "view t = fold eff js (view s)"
  using assms
proof (induction js arbitrary: s)
  case (Cons j js)
  from Cons.prems(2) obtain s' where s': "run j s = (Ok (), s')" "runs_ok (map run js) s' t" by auto
  with Cons.prems(1) have "view s' = eff j (view s)" by simp
  with Cons.IH [OF Cons.prems(1) s'(2)] show ?case by simp
qed simp

lemma GoAndWait_fold:
  assumes sched: "sched_ok sched"
    and panic: "\<And>j s p s'. j \<in> set js \<Longrightarrow> run j s \<noteq> (Panic p, s')"
    and step: "\<And>j s s'. j \<in> set js \<Longrightarrow> run j s = (Ok (), s') \<Longrightarrow> view s' = eff j (view s)"
    and comm: "\<And>i j. i \<in> set js \<Longrightarrow> j \<in> set js \<Longrightarrow> eff i \<circ> eff j = eff j \<circ> eff i"
    and ok: "GoAndWait sched (map run js) s = (Ok x, t)"
  shows "view t = fold eff js (view s)"
proof -
  let ?ks = "interleave sched js"
  have ks: "set ?ks = set js" "mset ?ks = mset js" using sched by (simp_all add: set_interleave mset_interleave)
  from ok have "runAll (map run ?ks) s = (None, t)"
    by (simp add: GoAndWait_Ok_iff interleave_map [OF sched])
  then have "runs_ok (map run ?ks) s t"
    by (rule runAll_None_runs_ok [rotated]) (use panic ks in auto)
  then have "view t = fold eff ?ks (view s)"
    by (rule runs_ok_fold [rotated]) (use step ks in auto)
  also have "fold eff ?ks = fold eff js"
    by (rule fold_multiset_equiv) (use comm ks in auto)
  finally show ?thesis .
qed

lemma runs_ok_each: "runs_ok hs s t \<Longrightarrow> h \<in> set hs \<Longrightarrow> \<exists>s1 s2. h s1 = (Ok (), s2)"
  by (induction hs arbitrary: s) auto

lemma GoAndWait_each:
  assumes "sched_ok sched" and "\<And>h s p s'. h \<in> set hs \<Longrightarrow> h s \<noteq> (Panic p, s')"
    and "GoAndWait sched hs s = (Ok x, t)" and "h \<in> set hs"
  shows "\<exists>s1 s2. h s1 = (Ok (), s2)"
proof -
  from assms(3) have "runAll (interleave sched hs) s = (None, t)" by (simp add: GoAndWait_Ok_iff)
  then have "runs_ok (interleave sched hs) s t"
    by (rule runAll_None_runs_ok [rotated]) (use assms(1,2) in \<open>auto simp: set_interleave\<close>)
  then show ?thesis by (rule runs_ok_each) (simp add: set_interleave assms)
qed

text \<open>Handlers that never fail end without an error.\<close>

lemma GoAndWait_total:
  assumes sched: "sched_ok sched" and total: "\<And>h s. h \<in> set hs \<Longrightarrow> \<exists>s'. h s = (Ok (), s')"
  shows "\<exists>s'. GoAndWait sched hs s = (Ok (), s')"
proof -
  have "\<exists>t. runs_ok gs s t" if "set gs \<subseteq> set hs" for gs s
    using that
  proof (induction gs arbitrary: s)
    case (Cons g gs)
    with total obtain s' where "g s = (Ok (), s')" by fastforce
    with Cons show ?case by auto
  qed (auto intro: exI)
  from this [of "interleave sched hs" s] obtain t where "runs_ok (interleave sched hs) s t"
    by (auto simp: set_interleave [OF sched])
  from runs_ok_runAll [OF this] show ?thesis by (auto simp: GoAndWait_Ok_iff)
qed

section \<open>Handlers that share a variable\<close>

text \<open>
  Handlers that assign a variable of their caller are not single statements. Such a handler is a list of atomic steps
  on the shared state, and a run weaves the lists: \<open>order\<close> names the goroutine that takes its next step. The order comes
  from \<open>sched\<close>, with one ticket per step; every weave of the lists is the order of some schedule.
\<close>

fun weave :: "nat list \<Rightarrow> ('s \<Rightarrow> 's) list list \<Rightarrow> 's \<Rightarrow> 's" where
  "weave [] gs s = s"
| "weave (i # order) gs s =
     (case gs ! i of
        [] \<Rightarrow> weave order gs s
      | step # steps \<Rightarrow> weave order (gs[i := steps]) (step s))"

definition owners :: "('s \<Rightarrow> 's) list list \<Rightarrow> nat list" where
  "owners gs = concat (map (\<lambda>i. replicate (length (gs ! i)) i) [0..<length gs])"

definition GoSteps :: "(nat \<Rightarrow> nat list) \<Rightarrow> ('s \<Rightarrow> 's) list list \<Rightarrow> 's \<Rightarrow> 's" where
  "GoSteps sched gs = weave (interleave sched (owners gs)) gs"

definition fair_order :: "nat list \<Rightarrow> ('s \<Rightarrow> 's) list list \<Rightarrow> bool" where
  "fair_order order gs \<longleftrightarrow> (\<forall>i. count (mset order) i = (if i < length gs then length (gs ! i) else 0))"

lemma count_replicates:
  "count (mset (concat (map (\<lambda>i. replicate (n i) i) [0..<k]))) j = (if j < k then n j else 0)"
  by (induction k) auto

lemma owners_fair: "sched_ok sched \<Longrightarrow> fair_order (interleave sched (owners gs)) gs"
  by (simp add: fair_order_def mset_interleave owners_def count_replicates)

text \<open>Every step is executed, once.\<close>

lemma weave_fold:
  assumes "fair_order order gs"
  shows "\<exists>steps. mset steps = mset (concat gs) \<and> weave order gs s = fold (\<lambda>f. f) steps s"
  using assms
proof (induction order arbitrary: gs s)
  case Nil
  then have "length (gs ! i) = 0" if "i < length gs" for i using that unfolding fair_order_def by (metis count_empty mset.simps(1))
  then have "\<forall>g\<in>set gs. g = []" by (metis in_set_conv_nth length_0_conv)
  then have "concat gs = []" by simp
  then show ?case by (intro exI [of _ "[]"]) simp
next
  case (Cons i order)
  have cnt: "count (mset (i # order)) j = (if j < length gs then length (gs ! j) else 0)" for j
    using Cons.prems unfolding fair_order_def by blast
  from cnt [of i] have i: "i < length gs" "0 < length (gs ! i)" by (auto split: if_splits)
  then obtain st sts where g: "gs ! i = st # sts" by (cases "gs ! i") auto
  have "fair_order order (gs[i := sts])" unfolding fair_order_def
  proof
    fix j
    show "count (mset order) j = (if j < length (gs[i := sts]) then length (gs[i := sts] ! j) else 0)"
      using cnt [of j] i(1) g by (cases "j = i") (simp_all split: if_splits)
  qed
  from Cons.IH [OF this, of "st s"] obtain steps where
    steps: "mset steps = mset (concat (gs[i := sts]))" "weave order (gs[i := sts]) (st s) = fold (\<lambda>f. f) steps (st s)" by blast
  have "gs = take i gs @ (st # sts) # drop (Suc i) gs" using id_take_nth_drop [OF i(1)] g by simp
  then have "mset (concat gs) = mset (concat (take i gs @ (st # sts) # drop (Suc i) gs))" by simp
  also have "\<dots> = add_mset st (mset (concat (gs[i := sts])))" using i(1) by (simp add: upd_conv_take_nth_drop)
  finally show ?case using steps g by (intro exI [of _ "st # steps"]) simp
qed

lemma GoSteps_fold:
  assumes "sched_ok sched"
  obtains steps where "set steps = set (concat gs)" and "GoSteps sched gs s = fold (\<lambda>f. f) steps s"
  using weave_fold [OF owners_fair [OF assms], of gs s] by (metis GoSteps_def set_mset_mset)

text \<open>A variable that some step assigns, and that all steps that assign it give the same value.\<close>

lemma fold_assigned:
  assumes "\<exists>f\<in>set steps. \<forall>s. view (f s) = v" and "\<forall>f\<in>set steps. (\<forall>s. view (f s) = v) \<or> (\<forall>s. view (f s) = view s)"
  shows "view (fold (\<lambda>f. f) steps s) = v"
proof -
  have keep: "view (fold (\<lambda>f. f) fs s) = v"
    if "view s = v" "\<forall>f\<in>set fs. (\<forall>s. view (f s) = v) \<or> (\<forall>s. view (f s) = view s)" for fs s
    using that
  proof (induction fs arbitrary: s)
    case (Cons f fs)
    then have "view (f s) = v" by auto
    with Cons show ?case by simp
  qed simp
  from assms show ?thesis
  proof (induction steps arbitrary: s)
    case (Cons f fs)
    show ?case
    proof (cases "\<forall>s. view (f s) = v")
      case True
      with keep [of "f s" fs] Cons.prems show ?thesis by simp
    next
      case False
      with Cons show ?thesis by simp
    qed
  qed simp
qed

lemma fold_invariant_steps:
  assumes "P s" and "\<And>f s. f \<in> set steps \<Longrightarrow> P s \<Longrightarrow> P (f s)"
  shows "P (fold (\<lambda>f. f) steps s)"
  using assms by (induction steps arbitrary: s) auto

text \<open>Two orders that witness the hypothesis: the order of the slice, and its reverse.\<close>

lemma sched_ok_upt: "sched_ok (\<lambda>k. [0..<k])"
  by (simp add: sched_ok_def)

lemma sched_ok_rev: "sched_ok (\<lambda>k. rev [0..<k])"
  by (simp add: sched_ok_def)

end
