(* ===== verification/Dal.thy ===== *)
theory Dal
  imports DalGraph Gorm Util
begin

text \<open>
  The data access layer, \<open>internal/dal/workflow.go\<close>: every query and every update of the store.
  A read returns an error or a value; an update is a program on the database, one statement per
  handler. A pair \<open>(nil, nil)\<close> of the source is \<open>Inr None\<close>. The parameter \<open>G\<close> is the store,
  \<open>now\<close> the clock, \<open>uuid\<close> the identifier generator of which \<open>n\<close> identifiers are already drawn,
  \<open>yaml\<close> the YAML decoder and \<open>sched\<close> the order in which the runtime runs concurrent handlers.
\<close>

section \<open>Statements and lookups\<close>

definition stmt :: "('db \<Rightarrow> gerr + 'db) \<Rightarrow> ('db, dal_error, unit) prog" where
  "stmt f db = (case f db of Inl e \<Rightarrow> (Err (StoreError e), db) | Inr db' \<Rightarrow> (Ok (), db'))"

text \<open>\<open>ErrRecordNotFound\<close> is turned into a nil result, any other error is passed on.\<close>

definition maybe :: "gerr + 'a \<Rightarrow> dal_error + 'a option" where
  "maybe res = (case res of
     Inr r \<Rightarrow> Inr (Some r)
   | Inl RecordNotFound \<Rightarrow> Inr None
   | Inl e \<Rightarrow> Inl (StoreError e))"

definition checked :: "gerr + 'a \<Rightarrow> dal_error + 'a" where
  "checked res = (case res of Inr r \<Rightarrow> Inr r | Inl e \<Rightarrow> Inl (StoreError e))"

section \<open>Queries\<close>

definition Select :: "'db gorm \<Rightarrow> string \<Rightarrow> 'db \<Rightarrow> dal_error + mWorkflow option" where
  "Select G workflowID db =
     maybe (g_first (g_workflow G)
       (zeroWorkflow\<lparr>w_WorkflowID := workflowID, w_Status := NormalStatus\<rparr>) db)"

abbreviation (input) maxSize :: int where "maxSize \<equiv> 100"

text \<open>Go's \<open>int\<close> has 64 bits.\<close>

definition wrap64 :: "int \<Rightarrow> int" where
  "wrap64 i = (i + 2 ^ 63) mod 2 ^ 64 - 2 ^ 63"

definition clampParam :: "queryParam \<Rightarrow> queryParam" where
  "clampParam param =
     (let param = (if q_Size param > maxSize then param\<lparr>q_Size := maxSize\<rparr> else param)
      in if q_Page param = 0 then param\<lparr>q_Page := 1\<rparr> else param)"

definition pageOffset :: "queryParam \<Rightarrow> int" where
  "pageOffset param = wrap64 (q_Size param * wrap64 (q_Page param - 1))"

text \<open>The handler of one workflow of the page: counts its live instances.\<close>

definition countInstances :: "mWorkflowInstance list \<Rightarrow> mWorkflow \<Rightarrow> mWorkflow" where
  "countInstances instances workflow =
     fold (\<lambda>instance workflow.
         if i_WorkflowStatus instance = TaskInstanceFailStatus
         then workflow\<lparr>w_TotalFailedInstances := w_TotalFailedInstances workflow + 1\<rparr>
         else workflow\<lparr>w_TotalRunningInstances := w_TotalRunningInstances workflow + 1\<rparr>)
       instances (workflow\<lparr>w_TotalInstances := int (length instances)\<rparr>)"

definition fillOne :: "'db gorm \<Rightarrow> 'db \<Rightarrow> nat \<Rightarrow> (mWorkflow list, dal_error, unit) prog" where
  "fillOne G db idx workflows =
     (case g_liveInstances G (w_WorkflowID (workflows ! idx)) db of
        Inl e \<Rightarrow> (Err (StoreError e), workflows)
      | Inr instances \<Rightarrow>
          (if instances = [] then (Ok (), workflows)
           else (Ok (), workflows[idx := countInstances instances (workflows ! idx)])))"

definition fillInstanceCount :: "(nat \<Rightarrow> nat list) \<Rightarrow> 'db gorm \<Rightarrow> 'db \<Rightarrow> (mWorkflow list, dal_error, unit) prog" where
  "fillInstanceCount sched G db workflows =
     GoAndWait sched (map (fillOne G db) [0..<length workflows]) workflows"

text \<open>
  \<open>SelectList\<close> returns the rows, their number and the error, and leaves the clamped size and
  page in the parameter of the caller.
\<close>

definition SelectList :: "(nat \<Rightarrow> nat list) \<Rightarrow> 'db gorm \<Rightarrow> queryParam \<Rightarrow> 'db \<Rightarrow>
    (mWorkflow list \<times> int \<times> dal_error option) \<times> queryParam" where
  "SelectList sched G param db =
     (let status = (if q_Status param = 0 then NormalStatus else q_Status param);
          p = clampParam param in
      (case g_page G (q_WorkflowID param) status (q_Size p) (pageOffset p) db of
         Inl RecordNotFound \<Rightarrow> ([], 0, None)
       | Inl e \<Rightarrow> ([], 0, Some (StoreError e))
       | Inr (res, cnt) \<Rightarrow>
           (if cnt = 0 then (res, cnt, None)
            else (case fillInstanceCount sched G db res of
                    (Ok _, res') \<Rightarrow> (res', cnt, None)
                  | (Err e, res') \<Rightarrow> (res', cnt, Some e)
                  | (Panic _, res') \<Rightarrow> (res', cnt, None))), p))"

definition SelectInstances :: "'db gorm \<Rightarrow> queryParam \<Rightarrow> 'db \<Rightarrow>
    (mWorkflowInstance list \<times> int \<times> dal_error option) \<times> queryParam" where
  "SelectInstances G param db =
     (let p = clampParam param in
      (case g_pageInstances G (q_WorkflowID param) (q_Size p) (pageOffset p) db of
         Inl RecordNotFound \<Rightarrow> ([], 0, None)
       | Inl e \<Rightarrow> ([], 0, Some (StoreError e))
       | Inr (r, cnt) \<Rightarrow> (r, cnt, None), p))"

definition SelectStartTask :: "'db gorm \<Rightarrow> mWorkflowTask \<Rightarrow> 'db \<Rightarrow> dal_error + mWorkflowTask option" where
  "SelectStartTask G condition db =
     (case maybe (g_first (g_relation G)
        (zeroRelation\<lparr>r_FromTaskID := TaskStartID, r_WorkflowID := t_WorkflowID condition,
           r_Status := NormalStatus\<rparr>) db) of
        Inl e \<Rightarrow> Inl e
      | Inr None \<Rightarrow> Inr None
      | Inr (Some r) \<Rightarrow>
          Inr (Some (zeroTask\<lparr>t_TaskID := r_ToTaskID r, t_WorkflowID := t_WorkflowID condition\<rparr>)))"

definition SelectTransitionTask :: "'db gorm \<Rightarrow> mWorkflowTaskInstance \<Rightarrow> 'db \<Rightarrow>
    dal_error + mWorkflowTaskInstance option" where
  "SelectTransitionTask G condition db = maybe (g_first (g_taskInstance G) condition db)"

definition selectTask :: "'db gorm \<Rightarrow> string \<Rightarrow> string list \<Rightarrow> 'db \<Rightarrow> dal_error + mWorkflowTask list" where
  "selectTask G workflowID taskIDs db =
     (if taskIDs = [] then Inr []
      else checked (g_tasksOf G (zeroTask\<lparr>t_WorkflowID := workflowID, t_TaskIDs := taskIDs\<rparr>) taskIDs db))"

definition selectTaskAction :: "'db gorm \<Rightarrow> string \<Rightarrow> string list \<Rightarrow> 'db \<Rightarrow>
    dal_error + mWorkflowTaskAction list" where
  "selectTaskAction G workflowID taskIDs db =
     (if taskIDs = [] then Inr []
      else checked (g_actionsOf G (zeroAction\<lparr>a_WorkflowID := workflowID, a_TaskIDs := taskIDs\<rparr>) taskIDs db))"

definition selectTaskRelation :: "'db gorm \<Rightarrow> string \<Rightarrow> string \<Rightarrow> 'db \<Rightarrow>
    dal_error + mWorkflowTaskRelation list" where
  "selectTaskRelation G workflowID taskID db =
     checked (g_find (g_relation G)
       (zeroRelation\<lparr>r_FromTaskID := taskID, r_WorkflowID := workflowID, r_Status := NormalStatus\<rparr>) db)"

definition completeTaskInstance :: "'db gorm \<Rightarrow> mWorkflowTaskInstance \<Rightarrow> mWorkflowTask list \<Rightarrow>
    mWorkflowTaskRelation list \<Rightarrow> mWorkflowTaskAction list \<Rightarrow> dal_error + mWorkflowTaskInstance option" where
  "completeTaskInstance G instance tasks childTasks taskActions =
     (case tasks of
        [] \<Rightarrow> Inr None
      | task # _ \<Rightarrow>
          (case g_conv G instance of
             Inl e \<Rightarrow> Inl (CompleteError e)
           | Inr r \<Rightarrow>
               Inr (Some (r\<lparr>ti_Task := Some (task\<lparr>t_ChildTasks := childTasks, t_Actions := taskActions\<rparr>)\<rparr>))))"

text \<open>
  The variables of \<open>SelectTaskInstance\<close> that its three goroutines assign, among them the one \<open>err\<close> they all share; the
  errors that they return, the test that the third makes first, and the error of \<open>GoAndWait\<close>, which is set once.
\<close>

record taskReads =
  rd_tasks :: "mWorkflowTask list"
  rd_childTasks :: "mWorkflowTaskRelation list"
  rd_taskActions :: "mWorkflowTaskAction list"
  rd_err :: "dal_error option"
  rd_ret :: "nat \<Rightarrow> dal_error option"
  rd_test :: bool
  rd_first :: "dal_error option"

definition noReads :: taskReads where
  "noReads = \<lparr>rd_tasks = [], rd_childTasks = [], rd_taskActions = [], rd_err = None, rd_ret = (\<lambda>_. None), rd_test = False,
     rd_first = None\<rparr>"

text \<open>
  The steps of a goroutine: the two assignments of \<open>v, err = read()\<close>, the return of \<open>err\<close>, and what \<open>GoAndWait\<close> does with
  the error returned. The third goroutine looks at \<open>err\<close> before it returns it.
\<close>

definition assignRows :: "dal_error + 'r list \<Rightarrow> ('r list \<Rightarrow> taskReads \<Rightarrow> taskReads) \<Rightarrow> taskReads \<Rightarrow> taskReads" where
  "assignRows res assign = assign (case res of Inl _ \<Rightarrow> [] | Inr rows \<Rightarrow> rows)"

definition assignErr :: "dal_error + 'a \<Rightarrow> taskReads \<Rightarrow> taskReads" where
  "assignErr res s = s\<lparr>rd_err := (case res of Inl e \<Rightarrow> Some e | Inr _ \<Rightarrow> None)\<rparr>"

definition returnErr :: "nat \<Rightarrow> taskReads \<Rightarrow> taskReads" where
  "returnErr i s = s\<lparr>rd_ret := (rd_ret s)(i := rd_err s)\<rparr>"

definition testErr :: "taskReads \<Rightarrow> taskReads" where
  "testErr s = s\<lparr>rd_test := (rd_err s \<noteq> None)\<rparr>"

definition returnTested :: "nat \<Rightarrow> taskReads \<Rightarrow> taskReads" where
  "returnTested i s = s\<lparr>rd_ret := (rd_ret s)(i := if rd_test s then rd_err s else None)\<rparr>"

definition onceDo :: "nat \<Rightarrow> taskReads \<Rightarrow> taskReads" where
  "onceDo i s = (if rd_ret s i \<noteq> None \<and> rd_first s = None then s\<lparr>rd_first := rd_ret s i\<rparr> else s)"

definition taskHandlers :: "dal_error + mWorkflowTask list \<Rightarrow> dal_error + mWorkflowTaskRelation list \<Rightarrow>
    dal_error + mWorkflowTaskAction list \<Rightarrow> (taskReads \<Rightarrow> taskReads) list list" where
  "taskHandlers tasks childTasks taskActions =
     [[assignRows tasks (\<lambda>x s. s\<lparr>rd_tasks := x\<rparr>), assignErr tasks, returnErr 0, onceDo 0],
      [assignRows childTasks (\<lambda>x s. s\<lparr>rd_childTasks := x\<rparr>), assignErr childTasks, returnErr 1, onceDo 1],
      [assignRows taskActions (\<lambda>x s. s\<lparr>rd_taskActions := x\<rparr>), assignErr taskActions, testErr, returnTested 2, onceDo 2]]"

definition SelectTaskInstance :: "(nat \<Rightarrow> nat list) \<Rightarrow> 'db gorm \<Rightarrow> mWorkflowTaskInstance \<Rightarrow> 'db \<Rightarrow>
    dal_error + mWorkflowTaskInstance option" where
  "SelectTaskInstance sched G condition db =
     (case maybe (g_newest G condition db) of
        Inl e \<Rightarrow> Inl e
      | Inr None \<Rightarrow> Inr None
      | Inr (Some r) \<Rightarrow>
          (let s = GoSteps sched (taskHandlers
                 (selectTask G (ti_WorkflowID r) [ti_TaskID r] db)
                 (selectTaskRelation G (ti_WorkflowID r) (ti_TaskID r) db)
                 (selectTaskAction G (ti_WorkflowID r) [ti_TaskID r] db)) noReads
           in case rd_first s of
                Some e \<Rightarrow> Inl e
              | None \<Rightarrow> completeTaskInstance G r (rd_tasks s) (rd_childTasks s) (rd_taskActions s)))"

section \<open>Updates\<close>

definition InsertInstance :: "'db gorm \<Rightarrow> time \<Rightarrow> mWorkflowInstance \<Rightarrow> ('db, dal_error, unit) prog" where
  "InsertInstance G now record = stmt (g_create (g_instance G) (record\<lparr>i_CreateTime := now, i_UpdateTime := now\<rparr>))"

definition InsertTaskInstance :: "'db gorm \<Rightarrow> time \<Rightarrow> mWorkflowTaskInstance \<Rightarrow> ('db, dal_error, unit) prog" where
  "InsertTaskInstance G now record =
     stmt (g_create (g_taskInstance G) (record\<lparr>ti_CreateTime := now, ti_UpdateTime := now\<rparr>))"

definition UpdateInstance :: "'db gorm \<Rightarrow> time \<Rightarrow> mWorkflowInstance \<Rightarrow> ('db, dal_error, unit) prog" where
  "UpdateInstance G now record =
     stmt (g_updates (g_instance G) (zeroInstance\<lparr>i_WorkflowInstanceID := i_WorkflowInstanceID record\<rparr>)
       (record\<lparr>i_UpdateTime := now\<rparr>))"

definition UpdateTaskInstance :: "'db gorm \<Rightarrow> time \<Rightarrow> mWorkflowTaskInstance \<Rightarrow> ('db, dal_error, unit) prog" where
  "UpdateTaskInstance G now record =
     stmt (g_updates (g_taskInstance G) (zeroTaskInstance\<lparr>ti_ID := ti_ID record\<rparr>)
       (record\<lparr>ti_UpdateTime := now\<rparr>))"

text \<open>The six tables, as the handlers of \<open>delete\<close> name them.\<close>

datatype tableName = TWorkflow | TTask | TRelation | TAction | TInstance | TTaskInstance

fun deleteFrom :: "'db gorm \<Rightarrow> time \<Rightarrow> string \<Rightarrow> tableName \<Rightarrow> ('db, dal_error, unit) prog" where
  "deleteFrom G now i TWorkflow = stmt (g_updatesOf (g_workflow G) i
     (zeroWorkflow\<lparr>w_Status := InvalidStatus, w_UpdateTime := now\<rparr>))"
| "deleteFrom G now i TTask = stmt (g_updatesOf (g_task G) i
     (zeroTask\<lparr>t_Status := InvalidStatus, t_UpdateTime := now\<rparr>))"
| "deleteFrom G now i TRelation = stmt (g_updatesOf (g_relation G) i
     (zeroRelation\<lparr>r_Status := InvalidStatus, r_UpdateTime := now\<rparr>))"
| "deleteFrom G now i TAction = stmt (g_updatesOf (g_action G) i
     (zeroAction\<lparr>a_Status := InvalidStatus, a_UpdateTime := now\<rparr>))"
| "deleteFrom G now i TInstance = stmt (g_updatesOf (g_instance G) i
     (zeroInstance\<lparr>i_WorkflowStatus := InvalidStatus, i_UpdateTime := now\<rparr>))"
| "deleteFrom G now i TTaskInstance = stmt (g_updatesOf (g_taskInstance G) i
     (zeroTaskInstance\<lparr>ti_Status := InvalidStatus, ti_UpdateTime := now\<rparr>))"

definition delete_all :: "(nat \<Rightarrow> nat list) \<Rightarrow> 'db gorm \<Rightarrow> time \<Rightarrow> string \<Rightarrow> ('db, dal_error, unit) prog" where
  "delete_all sched G now workflowID =
     GoAndWait sched
       (map (deleteFrom G now workflowID) [TWorkflow, TTask, TRelation, TAction, TInstance, TTaskInstance])"

definition Delete :: "(nat \<Rightarrow> nat list) \<Rightarrow> 'db gorm \<Rightarrow> time \<Rightarrow> string \<Rightarrow> ('db, dal_error, unit) prog" where
  "Delete sched G now workflowID = delete_all sched G now workflowID"

text \<open>The rows that the handlers of \<open>create\<close> insert.\<close>

datatype insertion =
    InsWorkflow mWorkflow
  | InsTask mWorkflowTask
  | InsAction mWorkflowTaskAction
  | InsRelation mWorkflowTaskRelation

fun insert_row :: "'db gorm \<Rightarrow> insertion \<Rightarrow> ('db, dal_error, unit) prog" where
  "insert_row G (InsWorkflow r) = stmt (g_create (g_workflow G) r)"
| "insert_row G (InsTask r) = stmt (g_create (g_task G) r)"
| "insert_row G (InsAction r) = stmt (g_create (g_action G) r)"
| "insert_row G (InsRelation r) = stmt (g_create (g_relation G) r)"

definition workflowRecord :: "time \<Rightarrow> string \<Rightarrow> workflow \<Rightarrow> mWorkflow" where
  "workflowRecord now definition_text flow =
     zeroWorkflow\<lparr>w_WorkflowID := wfID flow, w_WorkflowName := wfName flow, w_Version := wfVersion flow,
       w_Definition := definition_text, w_Status := NormalStatus, w_CreateTime := now, w_UpdateTime := now\<rparr>"

definition insertions :: "(nat \<Rightarrow> string) \<Rightarrow> nat \<Rightarrow> time \<Rightarrow> string \<Rightarrow> workflow \<Rightarrow> insertion list" where
  "insertions uuid n now definition_text flow =
     (let tasks = buildTask uuid n now flow in
      InsWorkflow (workflowRecord now definition_text flow)
      # concat (map (\<lambda>task. InsTask task # map InsAction (t_Actions task)) tasks)
      @ map InsRelation (buildTaskRelation now flow tasks))"

definition create :: "(nat \<Rightarrow> nat list) \<Rightarrow> (string \<Rightarrow> string + gomap) \<Rightarrow> (nat \<Rightarrow> string) \<Rightarrow> nat \<Rightarrow> 'db gorm \<Rightarrow>
    time \<Rightarrow> mWorkflow \<Rightarrow> ('db, dal_error, unit) prog" where
  "create sched yaml uuid n G now record db =
     (case Parse yaml (w_Definition record) of
        Inl e \<Rightarrow> (Err (ParseError e), db)
      | Inr None \<Rightarrow> (Err WorkflowTextInvalid, db)
      | Inr (Some flow) \<Rightarrow>
          (case Select G (wfID flow) db of
             Inl e \<Rightarrow> (Err e, db)
           | Inr (Some _) \<Rightarrow> (Err WorkflowIDExists, db)
           | Inr None \<Rightarrow>
               GoAndWait sched (map (insert_row G) (insertions uuid n now (w_Definition record) flow)) db))"

definition saveBody :: "(nat \<Rightarrow> nat list) \<Rightarrow> (string \<Rightarrow> string + gomap) \<Rightarrow> (nat \<Rightarrow> string) \<Rightarrow> nat \<Rightarrow> 'db gorm \<Rightarrow>
    time \<Rightarrow> mWorkflow \<Rightarrow> ('db, dal_error, unit) prog" where
  "saveBody sched yaml uuid n G now record =
     bnd (if w_WorkflowID record \<noteq> [] then delete_all sched G now (w_WorkflowID record) else ret ())
       (\<lambda>_. create sched yaml uuid n G now record)"

definition Save :: "(nat \<Rightarrow> nat list) \<Rightarrow> (string \<Rightarrow> string + gomap) \<Rightarrow> (nat \<Rightarrow> string) \<Rightarrow> nat \<Rightarrow> 'db gorm \<Rightarrow>
    time \<Rightarrow> mWorkflow \<Rightarrow> ('db, dal_error, unit) prog" where
  "Save sched yaml uuid n G now record = g_tx G (saveBody sched yaml uuid n G now record)"

end
