(* ===== verification/DalSpec.thy ===== *)
theory DalSpec
  imports Dal
begin

text \<open>
  What the data access layer promises, stated on an abstract catalog: a map from workflow ids to
  the rows that are in force for the id (status \<open>NormalStatus\<close>), without their primary keys.
  \<open>Delete\<close> clears an entry and \<open>Save\<close> replaces one by the rows compiled from the text.
\<close>

section \<open>The catalog\<close>

record liveRows =
  lv_workflow :: "mWorkflow multiset"
  lv_task :: "mWorkflowTask multiset"
  lv_action :: "mWorkflowTaskAction multiset"
  lv_relation :: "mWorkflowTaskRelation multiset"

type_synonym catalog = "string \<Rightarrow> liveRows"

definition noRows :: liveRows where
  "noRows = \<lparr>lv_workflow = {#}, lv_task = {#}, lv_action = {#}, lv_relation = {#}\<rparr>"

definition bag :: "'r rowops \<Rightarrow> 'r list \<Rightarrow> 'r multiset" where
  "bag R rs = mset (map (ro_setid R 0) rs)"

definition live :: "tables \<Rightarrow> catalog" where
  "live t i = \<lparr>
     lv_workflow = {#r \<in># bag workflowRow (tb_workflow t). w_Status r = NormalStatus \<and> w_WorkflowID r = i#},
     lv_task = {#r \<in># bag taskRow (tb_task t). t_Status r = NormalStatus \<and> t_WorkflowID r = i#},
     lv_action = {#r \<in># bag actionRow (tb_action t). a_Status r = NormalStatus \<and> a_WorkflowID r = i#},
     lv_relation = {#r \<in># bag relationRow (tb_relation t). r_Status r = NormalStatus \<and> r_WorkflowID r = i#}\<rparr>"

text \<open>What the compiler makes of a parsed workflow.\<close>

definition compiled :: "(nat \<Rightarrow> string) \<Rightarrow> nat \<Rightarrow> time \<Rightarrow> string \<Rightarrow> workflow \<Rightarrow> liveRows" where
  "compiled uuid n now text0 flow =
     (let tasks = buildTask uuid n now flow in
      \<lparr>lv_workflow = {#workflowRecord now text0 flow#},
       lv_task = mset (map (ro_cols taskRow) tasks),
       lv_action = mset (concat (map t_Actions tasks)),
       lv_relation = mset (buildTaskRelation now flow tasks)\<rparr>)"

text \<open>
  The invariant of the store: at most one workflow row is in force for an id, and where none is,
  no task, action or relation of that id is in force either.
\<close>

definition cat_inv :: "catalog \<Rightarrow> bool" where
  "cat_inv c \<longleftrightarrow> (\<forall>i. size (lv_workflow (c i)) \<le> 1 \<and> (lv_workflow (c i) = {#} \<longrightarrow> c i = noRows))"

definition store_inv :: "tables \<Rightarrow> bool" where
  "store_inv t \<longleftrightarrow> cat_inv (live t)"

text \<open>The abstract operations.\<close>

definition spec_delete :: "string \<Rightarrow> catalog \<Rightarrow> catalog" where
  "spec_delete i c = c(i := noRows)"

definition spec_save :: "string \<Rightarrow> string \<Rightarrow> liveRows \<Rightarrow> catalog \<Rightarrow> catalog" where
  "spec_save old new rows c = ((if old = [] then c else spec_delete old c)(new := rows))"

section \<open>Soft deletion\<close>

fun invalidate :: "time \<Rightarrow> string \<Rightarrow> tableName \<Rightarrow> tables \<Rightarrow> tables" where
  "invalidate now i TWorkflow = tb_workflow_update (update_where (\<lambda>r. w_WorkflowID r = i)
     (ro_over workflowRow (zeroWorkflow\<lparr>w_Status := InvalidStatus, w_UpdateTime := now\<rparr>)))"
| "invalidate now i TTask = tb_task_update (update_where (\<lambda>r. t_WorkflowID r = i)
     (ro_over taskRow (zeroTask\<lparr>t_Status := InvalidStatus, t_UpdateTime := now\<rparr>)))"
| "invalidate now i TRelation = tb_relation_update (update_where (\<lambda>r. r_WorkflowID r = i)
     (ro_over relationRow (zeroRelation\<lparr>r_Status := InvalidStatus, r_UpdateTime := now\<rparr>)))"
| "invalidate now i TAction = tb_action_update (update_where (\<lambda>r. a_WorkflowID r = i)
     (ro_over actionRow (zeroAction\<lparr>a_Status := InvalidStatus, a_UpdateTime := now\<rparr>)))"
| "invalidate now i TInstance = tb_instance_update (update_where (\<lambda>r. i_WorkflowID r = i)
     (ro_over instanceRow (zeroInstance\<lparr>i_WorkflowStatus := InvalidStatus, i_UpdateTime := now\<rparr>)))"
| "invalidate now i TTaskInstance = tb_taskInstance_update (update_where (\<lambda>r. ti_WorkflowID r = i)
     (ro_over taskInstanceRow (zeroTaskInstance\<lparr>ti_Status := InvalidStatus, ti_UpdateTime := now\<rparr>)))"

definition invalidateAll :: "time \<Rightarrow> string \<Rightarrow> tables \<Rightarrow> tables" where
  "invalidateAll now i =
     fold (invalidate now i) [TWorkflow, TTask, TRelation, TAction, TInstance, TTaskInstance]"

lemma stmt_Ok: "stmt f db = (Ok x, db') \<longleftrightarrow> f db = Inr db'"
  by (auto simp: stmt_def split: sum.splits)

lemma stmt_no_panic [simp]: "stmt f db \<noteq> (Panic p, db')"
  by (auto simp: stmt_def split: sum.splits)

lemma deleteFrom_no_panic [simp]: "deleteFrom G now i tn db \<noteq> (Panic p, db')"
  by (cases tn) simp_all

lemma insert_row_no_panic [simp]: "insert_row G ins db \<noteq> (Panic p, db')"
  by (cases ins) simp_all

lemma invalidate_commute: "invalidate now i a \<circ> invalidate now i b = invalidate now i b \<circ> invalidate now i a"
  by (rule ext, cases a; cases b) simp_all

lemma row_ids [simp]:
  "ro_wfid workflowRow = w_WorkflowID" "ro_wfid taskRow = t_WorkflowID" "ro_wfid relationRow = r_WorkflowID"
  "ro_wfid actionRow = a_WorkflowID" "ro_wfid instanceRow = i_WorkflowID" "ro_wfid taskInstanceRow = ti_WorkflowID"
  by (simp_all add: row_defs)

context gorm_store
begin

lemma deleteFrom_effect: "deleteFrom G now i tn db = (Ok (), db') \<Longrightarrow> view db' = invalidate now i tn (view db)"
  by (cases tn) (auto simp: stmt_Ok dest!: wfT.updatesOf_ok inT.updatesOf_ok tkT.updatesOf_ok
      acT.updatesOf_ok rlT.updatesOf_ok tiT.updatesOf_ok)

lemma delete_all_effect:
  assumes "sched_ok sched" and "delete_all sched G now i db = (Ok x, db')"
  shows "view db' = invalidateAll now i (view db)"
  unfolding invalidateAll_def
  by (rule GoAndWait_fold [OF assms(1) _ _ _ assms(2) [unfolded delete_all_def]])
    (simp_all only: deleteFrom_effect invalidate_commute deleteFrom_no_panic not_False_eq_True)

end

text \<open>Rows that leave the selection when they are updated leave it in the whole table.\<close>

lemma bag_update_where:
  assumes "\<And>r. p r \<Longrightarrow> \<not> q (ro_setid R 0 (f r))"
  shows "filter_mset q (bag R (update_where p f rs)) = filter_mset q (bag R (filter (\<lambda>r. \<not> p r) rs))"
  using assms by (induction rs) (auto simp: bag_def update_where_def)

lemma bag_filter_keep:
  assumes "\<And>r. q (ro_setid R 0 r) \<Longrightarrow> \<not> p r"
  shows "filter_mset q (bag R (filter (\<lambda>r. \<not> p r) rs)) = filter_mset q (bag R rs)"
  using assms by (induction rs) (auto simp: bag_def)

lemma bag_filter_drop:
  assumes "\<And>r. q (ro_setid R 0 r) \<Longrightarrow> p r"
  shows "filter_mset q (bag R (filter (\<lambda>r. \<not> p r) rs)) = {#}"
  by (auto simp: bag_def dest: assms)

lemma setid_sel [simp]:
  "w_Status (ro_setid workflowRow k a) = w_Status a" "w_WorkflowID (ro_setid workflowRow k a) = w_WorkflowID a"
  "t_Status (ro_setid taskRow k b) = t_Status b" "t_WorkflowID (ro_setid taskRow k b) = t_WorkflowID b"
  "a_Status (ro_setid actionRow k c) = a_Status c" "a_WorkflowID (ro_setid actionRow k c) = a_WorkflowID c"
  "r_Status (ro_setid relationRow k d) = r_Status d" "r_WorkflowID (ro_setid relationRow k d) = r_WorkflowID d"
  by (simp_all add: row_defs)

lemma over_invalid [simp]:
  "w_Status (ro_over workflowRow (zeroWorkflow\<lparr>w_Status := InvalidStatus, w_UpdateTime := u\<rparr>) a) = InvalidStatus"
  "t_Status (ro_over taskRow (zeroTask\<lparr>t_Status := InvalidStatus, t_UpdateTime := u\<rparr>) b) = InvalidStatus"
  "a_Status (ro_over actionRow (zeroAction\<lparr>a_Status := InvalidStatus, a_UpdateTime := u\<rparr>) c) = InvalidStatus"
  "r_Status (ro_over relationRow (zeroRelation\<lparr>r_Status := InvalidStatus, r_UpdateTime := u\<rparr>) d) = InvalidStatus"
  by (simp_all add: row_defs pick_def)

lemma invalidateAll_rows:
  "tb_workflow (invalidateAll now i t) = tb_workflow (invalidate now i TWorkflow t)"
  "tb_task (invalidateAll now i t) = tb_task (invalidate now i TTask t)"
  "tb_action (invalidateAll now i t) = tb_action (invalidate now i TAction t)"
  "tb_relation (invalidateAll now i t) = tb_relation (invalidate now i TRelation t)"
  "tb_instance (invalidateAll now i t) = tb_instance (invalidate now i TInstance t)"
  "tb_taskInstance (invalidateAll now i t) = tb_taskInstance (invalidate now i TTaskInstance t)"
  by (simp_all add: invalidateAll_def)

text \<open>The rows in force for \<open>j\<close> after the rows of \<open>i\<close> have lost their status.\<close>

lemma bag_invalidate:
  assumes "\<And>r. st (f r) \<noteq> NormalStatus" and "\<And>r. st (ro_setid R 0 r) = st r"
    and "\<And>r. wid (ro_setid R 0 r) = wid r"
  shows "{#r \<in># bag R (update_where (\<lambda>r. wid r = i) f rs). st r = (NormalStatus :: int) \<and> wid r = j#}
       = (if j = i then {#} else {#r \<in># bag R rs. st r = NormalStatus \<and> wid r = j#})"
proof -
  have "{#r \<in># bag R (update_where (\<lambda>r. wid r = i) f rs). st r = NormalStatus \<and> wid r = j#}
      = {#r \<in># bag R (filter (\<lambda>r. wid r \<noteq> i) rs). st r = NormalStatus \<and> wid r = j#}"
    by (rule bag_update_where) (simp add: assms)
  also have "\<dots> = (if j = i then {#} else {#r \<in># bag R rs. st r = NormalStatus \<and> wid r = j#})"
  proof (cases "j = i")
    case True
    show ?thesis unfolding if_P [OF True] by (rule bag_filter_drop) (simp add: assms True)
  next
    case False
    show ?thesis unfolding if_not_P [OF False] by (rule bag_filter_keep) (simp add: assms False)
  qed
  finally show ?thesis .
qed

lemma live_invalidateAll: "live (invalidateAll now i t) = (live t)(i := noRows)"
  by (rule ext) (simp add: live_def noRows_def invalidateAll_rows bag_invalidate)

lemma update_where_filter:
  assumes "\<And>r. wid (f r) = wid r"
  shows "filter (\<lambda>r. wid r \<noteq> i) (update_where (\<lambda>r. wid r = i) f rs) = filter (\<lambda>r. wid r \<noteq> i) rs"
  using assms by (induction rs) (auto simp: update_where_def)

lemma invalidateAll_instances:
  "\<forall>r\<in>set (tb_instance (invalidateAll now i t)). i_WorkflowID r = i \<longrightarrow> i_WorkflowStatus r = InvalidStatus"
  "\<forall>r\<in>set (tb_taskInstance (invalidateAll now i t)). ti_WorkflowID r = i \<longrightarrow> ti_Status r = InvalidStatus"
  "filter (\<lambda>r. i_WorkflowID r \<noteq> i) (tb_instance (invalidateAll now i t))
     = filter (\<lambda>r. i_WorkflowID r \<noteq> i) (tb_instance t)"
  "filter (\<lambda>r. ti_WorkflowID r \<noteq> i) (tb_taskInstance (invalidateAll now i t))
     = filter (\<lambda>r. ti_WorkflowID r \<noteq> i) (tb_taskInstance t)"
proof -
  have st: "i_WorkflowStatus (ro_over instanceRow (zeroInstance\<lparr>i_WorkflowStatus := InvalidStatus, i_UpdateTime := now\<rparr>) r)
      = InvalidStatus"
    "ti_Status (ro_over taskInstanceRow (zeroTaskInstance\<lparr>ti_Status := InvalidStatus, ti_UpdateTime := now\<rparr>) q)
      = InvalidStatus" for r q
    by (simp_all add: row_defs pick_def)
  have wid: "i_WorkflowID (ro_over instanceRow (zeroInstance\<lparr>i_WorkflowStatus := InvalidStatus, i_UpdateTime := now\<rparr>) r)
      = i_WorkflowID r"
    "ti_WorkflowID (ro_over taskInstanceRow (zeroTaskInstance\<lparr>ti_Status := InvalidStatus, ti_UpdateTime := now\<rparr>) q)
      = ti_WorkflowID q" for r q
    by (simp_all add: row_defs pick_def zero_defs)
  show "\<forall>r\<in>set (tb_instance (invalidateAll now i t)). i_WorkflowID r = i \<longrightarrow> i_WorkflowStatus r = InvalidStatus"
    by (auto simp: invalidateAll_rows update_where_def st(1) split: if_splits)
  show "\<forall>r\<in>set (tb_taskInstance (invalidateAll now i t)). ti_WorkflowID r = i \<longrightarrow> ti_Status r = InvalidStatus"
    by (auto simp: invalidateAll_rows update_where_def st(2) split: if_splits)
qed (simp_all add: invalidateAll_rows update_where_filter row_defs pick_def zero_defs)

section \<open>Insertion\<close>

text \<open>The rows of the four tables of the catalog without their keys, and the insertion of one more.\<close>

definition bags :: "tables \<Rightarrow> liveRows" where
  "bags t = \<lparr>lv_workflow = bag workflowRow (tb_workflow t), lv_task = bag taskRow (tb_task t),
     lv_action = bag actionRow (tb_action t), lv_relation = bag relationRow (tb_relation t)\<rparr>"

fun addRow :: "insertion \<Rightarrow> liveRows \<Rightarrow> liveRows" where
  "addRow (InsWorkflow r) = lv_workflow_update (add_mset (ro_setid workflowRow 0 (ro_cols workflowRow r)))"
| "addRow (InsTask r) = lv_task_update (add_mset (ro_setid taskRow 0 (ro_cols taskRow r)))"
| "addRow (InsAction r) = lv_action_update (add_mset (ro_setid actionRow 0 (ro_cols actionRow r)))"
| "addRow (InsRelation r) = lv_relation_update (add_mset (ro_setid relationRow 0 (ro_cols relationRow r)))"

lemma addRow_commute: "addRow a \<circ> addRow b = addRow b \<circ> addRow a"
  by (rule ext, cases a; cases b) (simp_all add: add_mset_commute)

lemma bag_append [simp]: "bag R (rs @ [r]) = add_mset (ro_setid R 0 r) (bag R rs)"
  by (simp add: bag_def)

lemma setid_setid [simp]:
  "ro_setid workflowRow j (ro_setid workflowRow k a) = ro_setid workflowRow j a"
  "ro_setid taskRow j (ro_setid taskRow k b) = ro_setid taskRow j b"
  "ro_setid actionRow j (ro_setid actionRow k c) = ro_setid actionRow j c"
  "ro_setid relationRow j (ro_setid relationRow k d) = ro_setid relationRow j d"
  by (simp_all add: row_defs)

context gorm_store
begin

lemma insert_row_effect: "insert_row G ins db = (Ok (), db') \<Longrightarrow> bags (view db') = addRow ins (bags (view db))"
  by (cases ins) (auto simp: stmt_Ok bags_def dest!: wfT.create_ok tkT.create_ok acT.create_ok rlT.create_ok)

lemma insertions_effect:
  assumes "sched_ok sched" and "GoAndWait sched (map (insert_row G) rows) db = (Ok x, db')"
  shows "bags (view db') = fold addRow rows (bags (view db))"
  by (rule GoAndWait_fold [OF assms(1) _ _ _ assms(2), where view = "\<lambda>db. bags (view db)"])
    (simp_all only: insert_row_effect addRow_commute insert_row_no_panic not_False_eq_True)

end

section \<open>What is inserted for a workflow\<close>

lemma task_form:
  assumes "t \<in> set (buildTask uuid n now w)"
  obtains k x where "t = buildOneTask uuid now w (k, x)"
  using assms by (auto simp: buildTask_def split: if_splits)

lemma action_form:
  assumes "t \<in> set (buildTask uuid n now w)" and "a \<in> set (t_Actions t)"
  obtains oname oty where "a = newTaskAction now (t_TaskID t) (wfID w) oname oty"
proof -
  from assms(1) obtain k x where t: "t = buildOneTask uuid now w (k, x)" by (rule task_form)
  with assms(2) that show thesis
    by (auto simp: buildOneTask_def buildTaskAction_def Let_def zero_defs split: if_splits)
qed

lemma relation_form:
  assumes "r \<in> set (buildTaskRelation now w tasks)"
  obtains f t c where "r = newTaskRelation now (wfID w) f t c"
  using assms by (auto simp: buildTaskRelation_def taskRelations_def buildSwitchTaskRelation_def
      buildForkTaskRelation_def Let_def split: if_splits)

definition stored :: "'r rowops \<Rightarrow> 'r \<Rightarrow> 'r" where
  "stored R r = ro_setid R 0 (ro_cols R r)"

lemma stored_record [simp]: "stored workflowRow (workflowRecord now text0 w) = workflowRecord now text0 w"
  by (simp add: stored_def row_defs workflowRecord_def zero_defs)

lemma stored_task: "t \<in> set (buildTask uuid n now w) \<Longrightarrow> stored taskRow t = ro_cols taskRow t"
  by (erule task_form) (simp add: stored_def row_defs buildOneTask_def zero_defs)

lemma stored_action:
  assumes "t \<in> set (buildTask uuid n now w)" and "a \<in> set (t_Actions t)"
  shows "stored actionRow a = a"
  using assms by (rule action_form) (simp add: stored_def row_defs newTaskAction_def zero_defs)

lemma stored_relation: "r \<in> set (buildTaskRelation now w tasks) \<Longrightarrow> stored relationRow r = r"
  by (erule relation_form) (simp add: stored_def row_defs newTaskRelation_def zero_defs)

text \<open>The rows of each table among the insertions.\<close>

definition insW :: "insertion \<Rightarrow> mWorkflow list" where
  "insW x = (case x of InsWorkflow r \<Rightarrow> [r] | _ \<Rightarrow> [])"

definition insT :: "insertion \<Rightarrow> mWorkflowTask list" where
  "insT x = (case x of InsTask r \<Rightarrow> [r] | _ \<Rightarrow> [])"

definition insA :: "insertion \<Rightarrow> mWorkflowTaskAction list" where
  "insA x = (case x of InsAction r \<Rightarrow> [r] | _ \<Rightarrow> [])"

definition insR :: "insertion \<Rightarrow> mWorkflowTaskRelation list" where
  "insR x = (case x of InsRelation r \<Rightarrow> [r] | _ \<Rightarrow> [])"

lemmas ins_defs = insW_def insT_def insA_def insR_def

lemma fold_addRow:
  "fold addRow rows b =
     \<lparr>lv_workflow = lv_workflow b + mset (map (stored workflowRow) (concat (map insW rows))),
      lv_task = lv_task b + mset (map (stored taskRow) (concat (map insT rows))),
      lv_action = lv_action b + mset (map (stored actionRow) (concat (map insA rows))),
      lv_relation = lv_relation b + mset (map (stored relationRow) (concat (map insR rows)))\<rparr>"
proof (induction rows arbitrary: b)
  case (Cons x rows)
  show ?case by (cases x) (simp_all add: Cons.IH ins_defs stored_def)
qed simp

lemma concat_sub: "concat (map f (concat (map g xs))) = concat (map (\<lambda>x. concat (map f (g x))) xs)"
  by (induction xs) auto

lemma concat_trivial [simp]: "concat (map (\<lambda>x. []) xs) = []" "concat (map (\<lambda>x. [x]) xs) = xs"
  by (induction xs) auto

lemma insertions_parts:
  "concat (map insW (insertions uuid n now text0 w)) = [workflowRecord now text0 w]"
  "concat (map insT (insertions uuid n now text0 w)) = buildTask uuid n now w"
  "concat (map insA (insertions uuid n now text0 w)) = concat (map t_Actions (buildTask uuid n now w))"
  "concat (map insR (insertions uuid n now text0 w)) = buildTaskRelation now w (buildTask uuid n now w)"
  by (simp_all add: insertions_def Let_def concat_sub ins_defs comp_def)

definition plus_rows :: "liveRows \<Rightarrow> liveRows \<Rightarrow> liveRows" where
  "plus_rows a b = \<lparr>lv_workflow = lv_workflow a + lv_workflow b, lv_task = lv_task a + lv_task b,
     lv_action = lv_action a + lv_action b, lv_relation = lv_relation a + lv_relation b\<rparr>"

lemma fold_insertions:
  "fold addRow (insertions uuid n now text0 w) b = plus_rows b (compiled uuid n now text0 w)"
proof -
  let ?ts = "buildTask uuid n now w"
  have "map (stored taskRow) ?ts = map (ro_cols taskRow) ?ts"
    by (rule map_cong) (auto simp: stored_task)
  moreover have "map (stored actionRow) (concat (map t_Actions ?ts)) = concat (map t_Actions ?ts)"
    by (rule map_idI) (auto simp: stored_action)
  moreover have "map (stored relationRow) (buildTaskRelation now w ?ts) = buildTaskRelation now w ?ts"
    by (rule map_idI) (auto simp: stored_relation)
  ultimately show ?thesis
    by (simp only: fold_addRow insertions_parts plus_rows_def compiled_def Let_def liveRows.simps) simp
qed

text \<open>The rows in force for one id among the rows of the four tables.\<close>

definition sel :: "string \<Rightarrow> liveRows \<Rightarrow> liveRows" where
  "sel i b = \<lparr>
     lv_workflow = {#r \<in># lv_workflow b. w_Status r = NormalStatus \<and> w_WorkflowID r = i#},
     lv_task = {#r \<in># lv_task b. t_Status r = NormalStatus \<and> t_WorkflowID r = i#},
     lv_action = {#r \<in># lv_action b. a_Status r = NormalStatus \<and> a_WorkflowID r = i#},
     lv_relation = {#r \<in># lv_relation b. r_Status r = NormalStatus \<and> r_WorkflowID r = i#}\<rparr>"

lemma live_sel: "live t i = sel i (bags t)"
  by (simp add: live_def sel_def bags_def)

lemma sel_plus: "sel i (plus_rows a b) = plus_rows (sel i a) (sel i b)"
  by (simp add: sel_def plus_rows_def)

lemma plus_noRows [simp]: "plus_rows a noRows = a" "plus_rows noRows a = a"
  by (simp_all add: plus_rows_def noRows_def)

lemma compiled_in_force:
  "\<forall>r\<in>#lv_workflow (compiled uuid n now text0 w). w_Status r = NormalStatus \<and> w_WorkflowID r = wfID w"
  "\<forall>r\<in>#lv_task (compiled uuid n now text0 w). t_Status r = NormalStatus \<and> t_WorkflowID r = wfID w"
  "\<forall>r\<in>#lv_action (compiled uuid n now text0 w). a_Status r = NormalStatus \<and> a_WorkflowID r = wfID w"
  "\<forall>r\<in>#lv_relation (compiled uuid n now text0 w). r_Status r = NormalStatus \<and> r_WorkflowID r = wfID w"
proof -
  let ?ts = "buildTask uuid n now w"
  show "\<forall>r\<in>#lv_workflow (compiled uuid n now text0 w). w_Status r = NormalStatus \<and> w_WorkflowID r = wfID w"
    by (simp add: compiled_def Let_def workflowRecord_def zero_defs)
  have "t_Status (ro_cols taskRow t) = NormalStatus \<and> t_WorkflowID (ro_cols taskRow t) = wfID w"
    if "t \<in> set ?ts" for t
    using that by (rule task_form) (simp add: taskRow_def)
  then show "\<forall>r\<in>#lv_task (compiled uuid n now text0 w). t_Status r = NormalStatus \<and> t_WorkflowID r = wfID w"
    by (auto simp: compiled_def Let_def)
  have "a_Status a = NormalStatus \<and> a_WorkflowID a = wfID w" if "t \<in> set ?ts" "a \<in> set (t_Actions t)" for t a
    using that by (rule action_form) (simp add: newTaskAction_def zero_defs)
  then show "\<forall>r\<in>#lv_action (compiled uuid n now text0 w). a_Status r = NormalStatus \<and> a_WorkflowID r = wfID w"
    by (auto simp: compiled_def Let_def)
  show "\<forall>r\<in>#lv_relation (compiled uuid n now text0 w). r_Status r = NormalStatus \<and> r_WorkflowID r = wfID w"
    by (auto simp: compiled_def Let_def elim!: relation_form)
qed

lemma filter_mset_all: "(\<forall>r\<in>#M. P r) \<Longrightarrow> filter_mset P M = M"
  by (simp add: filter_mset_True filter_mset_cong)

lemma sel_compiled:
  "sel i (compiled uuid n now text0 w) = (if i = wfID w then compiled uuid n now text0 w else noRows)"
proof (cases "i = wfID w")
  case True
  with compiled_in_force [of uuid n now text0 w] show ?thesis by (simp add: sel_def filter_mset_all)
next
  case False
  with compiled_in_force [of uuid n now text0 w] show ?thesis by (auto simp: sel_def noRows_def)
qed

section \<open>The operations implement the catalog\<close>

lemma cat_inv_delete: "cat_inv c \<Longrightarrow> cat_inv (spec_delete i c)"
  by (simp add: cat_inv_def spec_delete_def noRows_def)

lemma cat_inv_save:
  "cat_inv c \<Longrightarrow> size (lv_workflow rows) = 1 \<Longrightarrow> cat_inv (spec_save old new rows c)"
  using cat_inv_delete [of c old] by (auto simp: cat_inv_def spec_save_def)

lemma Parse_id: "Parse yaml source = Inr (Some w) \<Longrightarrow> wfID w \<noteq> []"
  by (erule Parse_cases) (auto dest: parseV1Workflow_ok parseLegacyWorkflow_flat)

context gorm_store
begin

lemma Select_None:
  assumes "Select G i db = Inr None" and "i \<noteq> []"
  shows "lv_workflow (live (view db) i) = {#}"
proof -
  from assms(1) have "find (ro_match workflowRow (zeroWorkflow\<lparr>w_WorkflowID := i, w_Status := NormalStatus\<rparr>))
      (tb_workflow (view db)) = None"
    by (intro wfT.first_none) (auto simp: Select_def maybe_def split: sum.splits gerr.splits)
  then have "\<forall>r\<in>set (tb_workflow (view db)). \<not> (w_Status r = NormalStatus \<and> w_WorkflowID r = i)"
    using assms(2) by (auto simp: find_None_iff workflowRow_def agrees_def zero_defs)
  then show ?thesis by (auto simp: live_def bag_def)
qed

lemma create_refines:
  assumes s: "sched_ok sched" and c: "create sched yaml uuid n G now record db = (Ok x, db')"
    and inv: "store_inv (view db)"
  obtains w where "Parse yaml (w_Definition record) = Inr (Some w)" "live (view db) (wfID w) = noRows"
    "live (view db') = (live (view db))(wfID w := compiled uuid n now (w_Definition record) w)"
proof -
  from c obtain w where w: "Parse yaml (w_Definition record) = Inr (Some w)" "Select G (wfID w) db = Inr None"
      "GoAndWait sched (map (insert_row G) (insertions uuid n now (w_Definition record) w)) db = (Ok x, db')"
    by (auto simp: create_def split: sum.splits option.splits)
  from Select_None [OF w(2) Parse_id [OF w(1)]] inv have none: "live (view db) (wfID w) = noRows"
    by (simp add: store_inv_def cat_inv_def)
  have "bags (view db') = plus_rows (bags (view db)) (compiled uuid n now (w_Definition record) w)"
    using insertions_effect [OF s w(3)] by (simp add: fold_insertions)
  then have "live (view db') = (live (view db))(wfID w := compiled uuid n now (w_Definition record) w)"
    using none by (auto simp: live_sel sel_plus sel_compiled)
  from that [OF w(1) none this] show thesis .
qed

lemma delete_all_refines:
  "sched_ok sched \<Longrightarrow> delete_all sched G now i db = (Ok x, db') \<Longrightarrow>
     live (view db') = spec_delete i (live (view db))"
  by (simp add: delete_all_effect live_invalidateAll spec_delete_def)

lemma saveBody_refines:
  assumes s: "sched_ok sched" and ok: "saveBody sched yaml uuid n G now record db = (Ok x, db')"
    and inv: "store_inv (view db)"
  obtains w where "Parse yaml (w_Definition record) = Inr (Some w)"
    "live (view db') = spec_save (w_WorkflowID record) (wfID w)
       (compiled uuid n now (w_Definition record) w) (live (view db))"
proof -
  from ok obtain y db1 where
    d: "(if w_WorkflowID record \<noteq> [] then delete_all sched G now (w_WorkflowID record) else ret ()) db = (Ok y, db1)"
    and c: "create sched yaml uuid n G now record db1 = (Ok x, db')"
    unfolding saveBody_def by (rule bnd_OkE)
  have live1: "live (view db1) =
      (if w_WorkflowID record = [] then live (view db) else spec_delete (w_WorkflowID record) (live (view db)))"
    using d delete_all_refines [OF s] by (auto split: if_splits)
  with inv have "store_inv (view db1)" by (auto simp: store_inv_def cat_inv_delete)
  from create_refines [OF s c this] live1 that show thesis by (auto simp: spec_save_def)
qed

lemma Save_cases:
  assumes "Save sched yaml uuid n G now record db = (res, db')"
  obtains (committed) db1 where "saveBody sched yaml uuid n G now record db = (Ok (), db1)"
      "res = Ok ()" "view db' = view db1"
    | (undone) "\<not> is_ok res" "view db' = view db"
  using tx_ok [of db "saveBody sched yaml uuid n G now record"] assms
  by (auto simp: Save_def tx_result_def split: prod.splits outcome.splits)

end

lemma stmt_total: "\<exists>db'. f db = Inr db' \<Longrightarrow> \<exists>db'. stmt f db = (Ok (), db')"
  by (auto simp: stmt_def)

context gorm_reliable
begin

lemma deleteFrom_total: "\<exists>db'. deleteFrom G now i tn db = (Ok (), db')"
  by (cases tn) (simp_all add: stmt_total wfX.updatesOf_total inX.updatesOf_total tkX.updatesOf_total
      acX.updatesOf_total rlX.updatesOf_total tiX.updatesOf_total)

lemma insert_row_total: "\<exists>db'. insert_row G ins db = (Ok (), db')"
  by (cases ins) (simp_all add: stmt_total wfX.create_total tkX.create_total acX.create_total rlX.create_total)

lemma delete_all_total: "sched_ok sched \<Longrightarrow> \<exists>db'. delete_all sched G now i db = (Ok (), db')"
  unfolding delete_all_def by (rule GoAndWait_total) (auto simp: deleteFrom_total simp del: deleteFrom.simps)

lemma Select_total:
  assumes "i \<noteq> []"
  shows "case Select G i db of
    Inl e \<Rightarrow> False
  | Inr None \<Rightarrow> lv_workflow (live (view db) i) = {#}
  | Inr (Some r) \<Rightarrow> lv_workflow (live (view db) i) \<noteq> {#}"
proof -
  let ?c = "zeroWorkflow\<lparr>w_WorkflowID := i, w_Status := NormalStatus\<rparr>"
  have match: "ro_match workflowRow ?c r \<Longrightarrow> w_Status r = NormalStatus \<and> w_WorkflowID r = i" for r
    using assms by (simp add: workflowRow_def agrees_def)
  consider (found) r where "g_first (g_workflow G) ?c db = Inr r" | (none) "g_first (g_workflow G) ?c db = Inl RecordNotFound"
    using wfX.first_total by (cases "g_first (g_workflow G) ?c db") auto
  then show ?thesis
  proof cases
    case (found r)
    from wfT.first_ok [OF this] have "r \<in> set (tb_workflow (view db))" "w_Status r = NormalStatus \<and> w_WorkflowID r = i"
      using match by (auto simp: find_Some_iff)
    then have "lv_workflow (live (view db) i) \<noteq> {#}" by (auto simp: live_def bag_def)
    with found show ?thesis by (simp add: Select_def maybe_def)
  next
    case none
    then have "Select G i db = Inr None" by (simp add: Select_def maybe_def)
    with Select_None [OF this assms] show ?thesis by simp
  qed
qed

lemma create_outcome:
  assumes "sched_ok sched"
  shows "fst (create sched yaml uuid n G now record db) =
    (case Parse yaml (w_Definition record) of
       Inl e \<Rightarrow> Err (ParseError e)
     | Inr None \<Rightarrow> Err WorkflowTextInvalid
     | Inr (Some w) \<Rightarrow> if lv_workflow (live (view db) (wfID w)) = {#} then Ok () else Err WorkflowIDExists)"
proof (cases "Parse yaml (w_Definition record)")
  case (Inr o')
  show ?thesis
  proof (cases o')
    case (Some w)
    with Inr have p: "Parse yaml (w_Definition record) = Inr (Some w)" by simp
    have "\<exists>db'. GoAndWait sched (map (insert_row G) (insertions uuid n now (w_Definition record) w)) db = (Ok (), db')"
      by (rule GoAndWait_total [OF assms]) (auto simp: insert_row_total)
    then obtain db' where
      "GoAndWait sched (map (insert_row G) (insertions uuid n now (w_Definition record) w)) db = (Ok (), db')" ..
    with p Select_total [OF Parse_id [OF p], of db] show ?thesis
      by (auto simp: create_def split: sum.splits option.splits)
  qed (simp add: create_def Inr)
qed (simp add: create_def)

lemma Save_result:
  assumes s: "sched_ok sched"
  shows "fst (Save sched yaml uuid n G now record db) =
    (case Parse yaml (w_Definition record) of
       Inl e \<Rightarrow> Err (ParseError e)
     | Inr None \<Rightarrow> Err WorkflowTextInvalid
     | Inr (Some w) \<Rightarrow>
         if lv_workflow (live (view db) (wfID w)) = {#} \<or> wfID w = w_WorkflowID record
         then Ok () else Err WorkflowIDExists)"
proof -
  obtain db1 where db1: "(if w_WorkflowID record \<noteq> [] then delete_all sched G now (w_WorkflowID record) else ret ()) db
      = (Ok (), db1)"
    using delete_all_total [OF s, of now "w_WorkflowID record" db] by (cases "w_WorkflowID record = []") auto
  have live1: "live (view db1) =
      (if w_WorkflowID record = [] then live (view db) else spec_delete (w_WorkflowID record) (live (view db)))"
    using db1 delete_all_refines [OF s] by (auto split: if_splits)
  have body: "fst (saveBody sched yaml uuid n G now record db) =
    (case Parse yaml (w_Definition record) of
       Inl e \<Rightarrow> Err (ParseError e)
     | Inr None \<Rightarrow> Err WorkflowTextInvalid
     | Inr (Some w) \<Rightarrow>
         if lv_workflow (live (view db) (wfID w)) = {#} \<or> wfID w = w_WorkflowID record
         then Ok () else Err WorkflowIDExists)" (is "_ = ?out")
    unfolding saveBody_def
      bnd_Ok [of "if w_WorkflowID record \<noteq> [] then delete_all sched G now (w_WorkflowID record) else ret ()", OF db1]
      create_outcome [OF s] live1
    using Parse_id [of yaml "w_Definition record"]
    by (auto simp: spec_delete_def noRows_def split: sum.splits option.splits)
  have "fst (Save sched yaml uuid n G now record db) = fst (saveBody sched yaml uuid n G now record db)"
  proof (cases "fst (saveBody sched yaml uuid n G now record db)")
    case (Ok u)
    then show ?thesis by (simp add: Save_def tx_commits)
  next
    case (Err e)
    then show ?thesis using tx_ok [of db "saveBody sched yaml uuid n G now record"]
      by (auto simp: Save_def tx_result_def split: prod.splits)
  next
    case (Panic p)
    then show ?thesis using tx_ok [of db "saveBody sched yaml uuid n G now record"]
      by (auto simp: Save_def tx_result_def split: prod.splits)
  qed
  with body show ?thesis by simp
qed

end

section \<open>Properties\<close>

text \<open>A record to save, whose text is the demonstration document.\<close>

abbreviation (input) demo_yaml :: "string \<Rightarrow> string + gomap" where
  "demo_yaml \<equiv> \<lambda>_. Inr demo_v1"

definition demo_record :: mWorkflow where
  "demo_record = zeroWorkflow\<lparr>w_Definition := ''x''\<rparr>"

lemma demo_Parse:
  obtains w where "Parse demo_yaml (w_Definition demo_record) = Inr (Some w)" "\<not> wfLegacy w"
proof -
  have "accepted (Parse demo_yaml ''x'') (\<lambda>w. \<not> wfLegacy w)" by code_simp
  then show thesis by (rule acceptedE) (auto simp: demo_record_def intro: that)
qed

lemma empty_inv: "store_inv empty_tables"
  by (simp add: store_inv_def cat_inv_def live_def bag_def empty_tables_def noRows_def)

lemma demo_Save:
  obtains w db' where "Parse demo_yaml (w_Definition demo_record) = Inr (Some w)" "\<not> wfLegacy w"
    "Save (\<lambda>k. rev [0..<k]) demo_yaml demo_uuid 0 mem_gorm 7 demo_record empty_tables = (Ok (), db')"
proof -
  obtain w where w: "Parse demo_yaml (w_Definition demo_record) = Inr (Some w)" "\<not> wfLegacy w" by (rule demo_Parse)
  have "lv_workflow (live empty_tables (wfID w)) = {#}"
    by (simp add: live_def bag_def empty_tables_def)
  with w(1) memr.Save_result [OF sched_ok_rev, of demo_yaml demo_uuid 0 7 demo_record empty_tables]
  have "fst (Save (\<lambda>k. rev [0..<k]) demo_yaml demo_uuid 0 mem_gorm 7 demo_record empty_tables) = Ok ()" by simp
  then show thesis using w by (intro that [of w "snd (Save (\<lambda>k. rev [0..<k]) demo_yaml demo_uuid 0 mem_gorm 7 demo_record empty_tables)"])
      (auto simp: prod_eq_iff)
qed

text \<open>
  C1: A \<open>Save\<close> that returns nil implements the abstract catalog operation, for every order in which
  its concurrent inserts run: the text parses to a workflow \<open>w\<close>; the rows in force for the id of
  the record, if it has one, are retired; the rows in force for the id of \<open>w\<close> are exactly the
  compiled workflow, task, action and relation rows; and no other id is touched.
\<close>

theorem Save_refines:
  assumes "gorm_store G view" and "sched_ok sched" and "store_inv (view db)"
    and "Save sched yaml uuid n G now record db = (Ok (), db')"
  shows "\<exists>w. Parse yaml (w_Definition record) = Inr (Some w) \<and>
    live (view db') = spec_save (w_WorkflowID record) (wfID w)
      (compiled uuid n now (w_Definition record) w) (live (view db))"
proof (rule gorm_store.Save_cases [OF assms(1,4)])
  fix db1 assume "saveBody sched yaml uuid n G now record db = (Ok (), db1)" and "view db' = view db1"
  with gorm_store.saveBody_refines [OF assms(1,2) this(1) assms(3)] show ?thesis by metis
qed simp

theorem Save_refines_witness:
  "\<exists>w db'. Save (\<lambda>k. rev [0..<k]) demo_yaml demo_uuid 0 mem_gorm 7 demo_record empty_tables = (Ok (), db') \<and>
     live db' = spec_save [] (wfID w) (compiled demo_uuid 0 7 ''x'' w) (live empty_tables)"
proof -
  obtain w db' where s: "Save (\<lambda>k. rev [0..<k]) demo_yaml demo_uuid 0 mem_gorm 7 demo_record empty_tables = (Ok (), db')"
    by (rule demo_Save)
  with Save_refines [OF mem.gorm_store_axioms sched_ok_rev empty_inv s] show ?thesis
    by (auto simp: demo_record_def zero_defs)
qed

lemma Save_consistent:
  assumes "gorm_store G view" and "sched_ok sched" and "store_inv (view db)"
    and "Save sched yaml uuid n G now record db = (res, db')"
  shows "store_inv (view db') \<and> (\<not> is_ok res \<longrightarrow> view db' = view db)"
proof (rule gorm_store.Save_cases [OF assms(1,4)])
  fix db1 assume 1: "saveBody sched yaml uuid n G now record db = (Ok (), db1)" "res = Ok ()" "view db' = view db1"
  from gorm_store.saveBody_refines [OF assms(1,2) 1(1) assms(3)] obtain w where
    "live (view db1) = spec_save (w_WorkflowID record) (wfID w)
       (compiled uuid n now (w_Definition record) w) (live (view db))" by metis
  with 1 assms(3) cat_inv_save [of "live (view db)" "compiled uuid n now (w_Definition record) w"]
  show ?thesis by (simp add: store_inv_def compiled_def Let_def)
qed (use assms(3) in simp)

text \<open>
  C2: \<open>Save\<close> is all or nothing and keeps the store consistent: whatever way it ends, at most one
  workflow row is in force per id and no task, action or relation is in force without it; and
  when it ends with an error the tables are as before.
\<close>

theorem Save_atomic:
  assumes "gorm_store G view" and "sched_ok sched" and "store_inv (view db)"
    and "Save sched yaml uuid n G now record db = (res, db')"
  shows "store_inv (view db') \<and> (\<not> is_ok res \<longrightarrow> view db' = view db)"
  by (rule Save_consistent [OF assms])

theorem Save_atomic_witness:
  "\<exists>w db'. Save (\<lambda>k. rev [0..<k]) demo_yaml demo_uuid 0 mem_gorm 7 demo_record empty_tables = (Ok (), db') \<and> store_inv db'"
proof -
  obtain w db' where s: "Save (\<lambda>k. rev [0..<k]) demo_yaml demo_uuid 0 mem_gorm 7 demo_record empty_tables = (Ok (), db')"
    by (rule demo_Save)
  with Save_atomic [OF mem.gorm_store_axioms sched_ok_rev empty_inv s] show ?thesis by blast
qed

text \<open>
  C18: On a store whose statements do not fail, how \<open>Save\<close> ends is decided by the text and the
  catalog alone, and it succeeds on every valid text whose id is free or is the id the record
  already has: a parse error for a text that does not parse, \<open>workflow text invalid\<close> for a blank
  one, \<open>workflow id already exists\<close> for an id in force under another record.
\<close>

theorem Save_outcome:
  assumes "gorm_reliable G view" and "sched_ok sched"
  shows "fst (Save sched yaml uuid n G now record db) =
    (case Parse yaml (w_Definition record) of
       Inl e \<Rightarrow> Err (ParseError e)
     | Inr None \<Rightarrow> Err WorkflowTextInvalid
     | Inr (Some w) \<Rightarrow>
         if lv_workflow (live (view db) (wfID w)) = {#} \<or> wfID w = w_WorkflowID record
         then Ok () else Err WorkflowIDExists)"
  using assms by (rule gorm_reliable.Save_result)

theorem Save_outcome_witness:
  "fst (Save (\<lambda>k. [0..<k]) demo_yaml demo_uuid 0 mem_gorm 7 (zeroWorkflow\<lparr>w_Definition := '' ''\<rparr>) empty_tables)
     = Err WorkflowTextInvalid"
proof -
  have "Parse demo_yaml '' '' = Inr None" by code_simp
  then show ?thesis
    using Save_outcome [OF memr.gorm_reliable_axioms sched_ok_upt, of demo_yaml demo_uuid 0 7
        "zeroWorkflow\<lparr>w_Definition := '' ''\<rparr>" empty_tables] by simp
qed

text \<open>
  C4: A \<open>Delete\<close> that returns nil retires everything of the workflow, for every order of its six
  concurrent updates: nothing is in force for its id, all its workflow and task instances are
  invalid, the entries of the other ids and the instances of other workflows are untouched, and
  the store stays consistent.
\<close>

theorem Delete_refines:
  assumes "gorm_store G view" and "sched_ok sched" and "store_inv (view db)"
    and "Delete sched G now i db = (Ok (), db')"
  shows "live (view db') = spec_delete i (live (view db)) \<and> store_inv (view db')
    \<and> (\<forall>r\<in>set (tb_instance (view db')). i_WorkflowID r = i \<longrightarrow> i_WorkflowStatus r = InvalidStatus)
    \<and> (\<forall>r\<in>set (tb_taskInstance (view db')). ti_WorkflowID r = i \<longrightarrow> ti_Status r = InvalidStatus)
    \<and> filter (\<lambda>r. i_WorkflowID r \<noteq> i) (tb_instance (view db')) = filter (\<lambda>r. i_WorkflowID r \<noteq> i) (tb_instance (view db))
    \<and> filter (\<lambda>r. ti_WorkflowID r \<noteq> i) (tb_taskInstance (view db'))
        = filter (\<lambda>r. ti_WorkflowID r \<noteq> i) (tb_taskInstance (view db))"
proof -
  from gorm_store.delete_all_effect [OF assms(1,2) assms(4) [unfolded Delete_def]]
  have v: "view db' = invalidateAll now i (view db)" .
  have l: "live (view db') = spec_delete i (live (view db))"
    by (simp add: v live_invalidateAll spec_delete_def)
  with assms(3) cat_inv_delete have "store_inv (view db')" by (simp add: store_inv_def)
  with l invalidateAll_instances [where now = now and i = i and t = "view db"] show ?thesis unfolding v by blast
qed

theorem Delete_refines_witness:
  "\<exists>db'. Delete (\<lambda>k. rev [0..<k]) mem_gorm 7 ''order'' empty_tables = (Ok (), db') \<and> live db' ''order'' = noRows"
proof -
  obtain db' where d: "Delete (\<lambda>k. rev [0..<k]) mem_gorm 7 ''order'' empty_tables = (Ok (), db')"
    using memr.delete_all_total [OF sched_ok_rev, of 7 "''order''" empty_tables] by (auto simp: Delete_def)
  from Delete_refines [OF mem.gorm_store_axioms sched_ok_rev empty_inv d] d show ?thesis
    by (intro exI conjI) (assumption, simp only: spec_delete_def fun_upd_same)
qed

end
