(* ===== verification/DalQuery.thy ===== *)
theory DalQuery
  imports DalSpec
begin

text \<open>
  What the queries of the data access layer return: the start task of a saved workflow, the next
  task instance with its task, actions and outgoing relations, and the pages of workflows with
  their instance counts.
\<close>

section \<open>The start task\<close>

lemma in_bag: "x \<in># bag R rs \<longleftrightarrow> (\<exists>r\<in>set rs. x = ro_setid R 0 r)"
  by (auto simp: bag_def)

lemma relation_setid [simp]:
  "r_FromTaskID (ro_setid relationRow k r) = r_FromTaskID r" "r_ToTaskID (ro_setid relationRow k r) = r_ToTaskID r"
  by (simp_all add: relationRow_def)

context gorm_store
begin

lemma start_rows:
  assumes "i \<noteq> []" and "SelectStartTask G (zeroTask\<lparr>t_WorkflowID := i\<rparr>) db = Inr res"
  shows "case res of
      None \<Rightarrow> \<forall>x\<in>#lv_relation (live (view db) i). r_FromTaskID x \<noteq> TaskStartID
    | Some t \<Rightarrow> \<exists>x\<in>#lv_relation (live (view db) i). r_FromTaskID x = TaskStartID \<and>
        t = zeroTask\<lparr>t_TaskID := r_ToTaskID x, t_WorkflowID := i\<rparr>"
proof -
  let ?c = "zeroRelation\<lparr>r_FromTaskID := TaskStartID, r_WorkflowID := i, r_Status := NormalStatus\<rparr>"
  have match: "ro_match relationRow ?c r \<longleftrightarrow>
      r_FromTaskID r = TaskStartID \<and> r_WorkflowID r = i \<and> r_Status r = NormalStatus" for r
    using assms(1) by (auto simp: relationRow_def agrees_def zero_defs)
  consider (some) r where "g_first (g_relation G) ?c db = Inr r"
      "res = Some (zeroTask\<lparr>t_TaskID := r_ToTaskID r, t_WorkflowID := i\<rparr>)"
    | (none) "g_first (g_relation G) ?c db = Inl RecordNotFound" "res = None"
    using assms(2) by (auto simp: SelectStartTask_def maybe_def split: sum.splits gerr.splits)
  then show ?thesis
  proof cases
    case (some r)
    from rlT.first_ok [OF some(1)] have "r \<in> set (tb_relation (view db))" "ro_match relationRow ?c r"
      by (auto simp: find_Some_iff)
    then show ?thesis unfolding some(2) match
      by (auto simp: live_def in_bag intro!: exI [of _ "ro_setid relationRow 0 r"])
  next
    case none
    from rlT.first_none [OF none(1)] have "\<forall>r\<in>set (tb_relation (view db)). \<not> ro_match relationRow ?c r"
      by (simp add: find_None_iff)
    then show ?thesis unfolding none(2) match by (auto simp: live_def in_bag)
  qed
qed

end

context gorm_reliable
begin

lemma SelectStartTask_total: "\<exists>res. SelectStartTask G c db = Inr res"
  using rlX.first_total
  by (auto simp: SelectStartTask_def maybe_def split: sum.splits gerr.splits option.splits)

end

context gorm_store
begin

lemma Save_live:
  assumes "sched_ok sched" and "store_inv (view db)" and "Save sched yaml uuid n G now record db = (Ok (), db')"
    and "Parse yaml (w_Definition record) = Inr (Some w)"
  shows "live (view db') = spec_save (w_WorkflowID record) (wfID w)
    (compiled uuid n now (w_Definition record) w) (live (view db))"
proof (rule Save_cases [OF assms(3)])
  fix db1 assume 1: "saveBody sched yaml uuid n G now record db = (Ok (), db1)" "view db' = view db1"
  show ?thesis unfolding 1(2)
    by (rule saveBody_refines [OF assms(1) 1(1) assms(2)]) (use assms(4) in simp)
qed simp

end

text \<open>The start task of a saved workflow is the stored task with the name of its first task.\<close>

lemma start_task_after_save:
  assumes "gorm_store G view" and "sched_ok sched" and "uuid_ok uuid" and "store_inv (view db)"
    and "Save sched yaml uuid n G now record db = (Ok (), db')"
    and "Parse yaml (w_Definition record) = Inr (Some w)"
    and "SelectStartTask G (zeroTask\<lparr>t_WorkflowID := wfID w\<rparr>) db' = Inr res"
  shows "if wfStart w \<in> tName ` set (FlattenTasks w)
    then \<exists>t\<in>set (buildTask uuid n now w). t_TaskName t = wfStart w \<and>
      res = Some (zeroTask\<lparr>t_TaskID := t_TaskID t, t_WorkflowID := wfID w\<rparr>)
    else res = None"
proof -
  let ?rs = "set (buildTaskRelation now w (buildTask uuid n now w))"
  have "live (view db') = spec_save (w_WorkflowID record) (wfID w)
      (compiled uuid n now (w_Definition record) w) (live (view db))"
    by (rule gorm_store.Save_live [OF assms(1,2,4,5,6)])
  then have "live (view db') (wfID w) = compiled uuid n now (w_Definition record) w"
    by (simp add: spec_save_def)
  then have rel: "set_mset (lv_relation (live (view db') (wfID w))) = ?rs"
    by (simp add: compiled_def Let_def)
  note rows = gorm_store.start_rows [OF assms(1) Parse_id [OF assms(6)] assms(7), unfolded rel]
  note built = built_start_relation [OF assms(3,6), of n now]
  show ?thesis
  proof (cases "wfStart w \<in> tName ` set (FlattenTasks w)")
    case True
    with built obtain t where t: "t \<in> set (buildTask uuid n now w)" "t_TaskName t = wfStart w"
      "{r \<in> ?rs. r_FromTaskID r = TaskStartID} = {newTaskRelation now (wfID w) TaskStartID (t_TaskID t) []}" by auto
    have only: "r_ToTaskID x = t_TaskID t" if "x \<in> ?rs" "r_FromTaskID x = TaskStartID" for x
    proof -
      from t(3) that have "x = newTaskRelation now (wfID w) TaskStartID (t_TaskID t) []" by blast
      then show ?thesis by simp
    qed
    have "\<exists>x\<in>?rs. r_FromTaskID x = TaskStartID" using t(3) by blast
    then have "res = Some (zeroTask\<lparr>t_TaskID := t_TaskID t, t_WorkflowID := wfID w\<rparr>)"
      using rows only by (cases res) auto
    with t True show ?thesis by auto
  next
    case False
    with built have "{r \<in> ?rs. r_FromTaskID r = TaskStartID} = {}" by simp
    with rows False show ?thesis by (cases res) auto
  qed
qed

text \<open>
  C11: Saving and starting agree, for both versions of the DSL. After a \<open>Save\<close> that returned nil, the start task that
  \<open>SelectStartTask\<close> finds for the id of the workflow is the stored task that carries the name the workflow gives as its start;
  if no task of the workflow has that name, there is none. In DSL 1.0.3 there always is one; in the older DSL the
  name is not checked when the text is saved.
\<close>

theorem SelectStartTask_after_Save:
  assumes "gorm_store G view" and "sched_ok sched" and "uuid_ok uuid" and "store_inv (view db)"
    and "Save sched yaml uuid n G now record db = (Ok (), db')"
    and "Parse yaml (w_Definition record) = Inr (Some w)"
    and "SelectStartTask G (zeroTask\<lparr>t_WorkflowID := wfID w\<rparr>) db' = Inr res"
  shows "(if wfStart w \<in> tName ` set (FlattenTasks w)
     then \<exists>t\<in>set (buildTask uuid n now w). t_TaskName t = wfStart w \<and>
       res = Some (zeroTask\<lparr>t_TaskID := t_TaskID t, t_WorkflowID := wfID w\<rparr>)
     else res = None) \<and>
    (\<not> wfLegacy w \<longrightarrow> wfStart w \<in> tName ` set (FlattenTasks w))"
  using start_task_after_save [OF assms] v1_start_named [OF assms(6)] by blast

theorem SelectStartTask_after_Save_witness:
  "\<exists>(w :: workflow) db' t. Save (\<lambda>k. rev [0..<k]) demo_yaml demo_uuid 0 mem_gorm 7 demo_record empty_tables = (Ok (), db') \<and>
     SelectStartTask mem_gorm (zeroTask\<lparr>t_WorkflowID := wfID w\<rparr>) db' = Inr (Some t)"
proof -
  obtain w db' where s: "Parse demo_yaml (w_Definition demo_record) = Inr (Some w)" "\<not> wfLegacy w"
    "Save (\<lambda>k. rev [0..<k]) demo_yaml demo_uuid 0 mem_gorm 7 demo_record empty_tables = (Ok (), db')"
    by (rule demo_Save)
  obtain res where r: "SelectStartTask mem_gorm (zeroTask\<lparr>t_WorkflowID := wfID w\<rparr>) db' = Inr res"
    using memr.SelectStartTask_total by blast
  from SelectStartTask_after_Save [OF mem.gorm_store_axioms sched_ok_rev demo_uuid_ok empty_inv s(3,1) r] s(2)
  obtain t where "res = Some t" by auto
  with s(3) r show ?thesis by blast
qed

section \<open>The next task instance\<close>

text \<open>A task instance with its task, the relations in force that leave it and its actions.\<close>

definition completed :: "tables \<Rightarrow> mWorkflowTaskInstance \<Rightarrow> mWorkflowTask \<Rightarrow> mWorkflowTaskInstance" where
  "completed db r t = r\<lparr>ti_Task := Some (t\<lparr>
      t_ChildTasks := filter (\<lambda>x. r_FromTaskID x = ti_TaskID r \<and> r_WorkflowID x = ti_WorkflowID r \<and>
        r_Status x = NormalStatus) (tb_relation db),
      t_Actions := filter (\<lambda>x. a_WorkflowID x = ti_WorkflowID r \<and> a_TaskID x = ti_TaskID r)
        (tb_action db)\<rparr>)\<rparr>"

text \<open>The rows a read leaves in its variable.\<close>

definition rowsOf :: "dal_error + 'r list \<Rightarrow> 'r list" where
  "rowsOf res = (case res of Inl _ \<Rightarrow> [] | Inr rows \<Rightarrow> rows)"

lemmas read_steps = assignRows_def assignErr_def returnErr_def testErr_def returnTested_def onceDo_def

text \<open>Each variable has one goroutine that assigns it, so the weave of the goroutines does not matter to the rows.\<close>

lemma read_steps_keep [simp]:
  "rd_tasks (assignErr x s) = rd_tasks s" "rd_childTasks (assignErr x s) = rd_childTasks s"
  "rd_taskActions (assignErr x s) = rd_taskActions s"
  "rd_tasks (returnErr i s) = rd_tasks s" "rd_childTasks (returnErr i s) = rd_childTasks s"
  "rd_taskActions (returnErr i s) = rd_taskActions s"
  "rd_tasks (testErr s) = rd_tasks s" "rd_childTasks (testErr s) = rd_childTasks s" "rd_taskActions (testErr s) = rd_taskActions s"
  "rd_tasks (returnTested i s) = rd_tasks s" "rd_childTasks (returnTested i s) = rd_childTasks s"
  "rd_taskActions (returnTested i s) = rd_taskActions s"
  "rd_tasks (onceDo i s) = rd_tasks s" "rd_childTasks (onceDo i s) = rd_childTasks s" "rd_taskActions (onceDo i s) = rd_taskActions s"
  by (simp_all add: read_steps)

lemma three_reads:
  assumes "sched_ok sched"
  shows "rd_tasks (GoSteps sched (taskHandlers a b c) s) = rowsOf a"
    "rd_childTasks (GoSteps sched (taskHandlers a b c) s) = rowsOf b"
    "rd_taskActions (GoSteps sched (taskHandlers a b c) s) = rowsOf c"
proof -
  obtain steps where steps: "set steps = set (concat (taskHandlers a b c))"
      "GoSteps sched (taskHandlers a b c) s = fold (\<lambda>f. f) steps s" by (rule GoSteps_fold [OF assms])
  have handlers: "set steps = {assignRows a (\<lambda>x s. s\<lparr>rd_tasks := x\<rparr>), assignErr a, returnErr 0, onceDo 0,
      assignRows b (\<lambda>x s. s\<lparr>rd_childTasks := x\<rparr>), assignErr b, returnErr 1, onceDo 1,
      assignRows c (\<lambda>x s. s\<lparr>rd_taskActions := x\<rparr>), assignErr c, testErr, returnTested 2, onceDo 2}"
    unfolding steps(1) taskHandlers_def by (simp add: insert_commute)
  show "rd_tasks (GoSteps sched (taskHandlers a b c) s) = rowsOf a" unfolding steps(2)
    by (rule fold_assigned) (simp_all add: handlers assignRows_def rowsOf_def)
  show "rd_childTasks (GoSteps sched (taskHandlers a b c) s) = rowsOf b" unfolding steps(2)
    by (rule fold_assigned) (simp_all add: handlers assignRows_def rowsOf_def)
  show "rd_taskActions (GoSteps sched (taskHandlers a b c) s) = rowsOf c" unfolding steps(2)
    by (rule fold_assigned) (simp_all add: handlers assignRows_def rowsOf_def)
qed

text \<open>An error is reported only when some read failed, and then it is the error of one of them.\<close>

definition errs_from :: "dal_error set \<Rightarrow> taskReads \<Rightarrow> bool" where
  "errs_from E s \<longleftrightarrow> set_option (rd_err s) \<subseteq> E \<and> (\<forall>i. set_option (rd_ret s i) \<subseteq> E) \<and> set_option (rd_first s) \<subseteq> E"

lemma errs_from_steps:
  assumes "errs_from E s"
  shows "errs_from E (s\<lparr>rd_tasks := ts\<rparr>)" "errs_from E (s\<lparr>rd_childTasks := cs\<rparr>)" "errs_from E (s\<lparr>rd_taskActions := as\<rparr>)"
    "errs_from E (returnErr i s)" "errs_from E (testErr s)" "errs_from E (returnTested i s)" "errs_from E (onceDo i s)"
    "(\<And>e. x = Inl e \<Longrightarrow> e \<in> E) \<Longrightarrow> errs_from E (assignErr x s)"
  using assms by (simp_all add: errs_from_def returnErr_def testErr_def returnTested_def onceDo_def assignErr_def split: sum.splits)

lemma reads_first:
  assumes "sched_ok sched" and "rd_first (GoSteps sched (taskHandlers a b c) noReads) = Some e"
  shows "a = Inl e \<or> b = Inl e \<or> c = Inl e"
proof -
  let ?E = "{x. a = Inl x \<or> b = Inl x \<or> c = Inl x}"
  obtain steps where steps: "set steps = set (concat (taskHandlers a b c))"
      "GoSteps sched (taskHandlers a b c) noReads = fold (\<lambda>f. f) steps noReads" by (rule GoSteps_fold [OF assms(1)])
  have "errs_from ?E (fold (\<lambda>f. f) steps noReads)"
  proof (rule fold_invariant_steps)
    show "errs_from ?E noReads" by (simp add: errs_from_def noReads_def)
    fix f s assume "f \<in> set steps" and ok: "errs_from ?E s"
    then have "f \<in> set (concat (taskHandlers a b c))" by (simp add: steps(1))
    then show "errs_from ?E (f s)"
      unfolding taskHandlers_def
      by (simp add: assignRows_def) (elim disjE; simp add: errs_from_steps [OF ok])
  qed
  with assms(2) steps(2) show ?thesis by (simp add: errs_from_def)
qed

context gorm_store
begin

lemma selectTask_ok:
  "selectTask G i [tid] db = Inr ts \<Longrightarrow> i \<noteq> [] \<Longrightarrow>
     ts = filter (\<lambda>r. t_WorkflowID r = i \<and> t_TaskID r = tid) (tb_task (view db))"
  by (auto simp: selectTask_def checked_def taskRow_def agrees_def zero_defs split: sum.splits
      dest!: tasksOf_ok intro!: filter_cong)

lemma selectTaskAction_ok:
  "selectTaskAction G i [tid] db = Inr as \<Longrightarrow> i \<noteq> [] \<Longrightarrow>
     as = filter (\<lambda>r. a_WorkflowID r = i \<and> a_TaskID r = tid) (tb_action (view db))"
  by (auto simp: selectTaskAction_def checked_def actionRow_def agrees_def zero_defs split: sum.splits
      dest!: actionsOf_ok intro!: filter_cong)

lemma selectTaskRelation_ok:
  "selectTaskRelation G i tid db = Inr rs \<Longrightarrow> i \<noteq> [] \<Longrightarrow> tid \<noteq> [] \<Longrightarrow>
     rs = filter (\<lambda>r. r_FromTaskID r = tid \<and> r_WorkflowID r = i \<and> r_Status r = NormalStatus) (tb_relation (view db))"
  by (auto simp: selectTaskRelation_def checked_def relationRow_def agrees_def zero_defs split: sum.splits
      dest!: rlT.find_ok intro!: filter_cong)

end

text \<open>
  What the three reads leave of a task: its outgoing relations in force and its actions, either of which is missing when its
  read failed and the error was lost.
\<close>

definition loaded :: "'db gorm \<Rightarrow> tables \<Rightarrow> 'db \<Rightarrow> mWorkflowTaskInstance \<Rightarrow> mWorkflowTask \<Rightarrow> mWorkflowTaskInstance \<Rightarrow> bool" where
  "loaded G t db r task r' \<longleftrightarrow>
     (\<exists>cs as. r' = r\<lparr>ti_Task := Some (task\<lparr>t_ChildTasks := cs, t_Actions := as\<rparr>)\<rparr> \<and>
        (case selectTaskRelation G (ti_WorkflowID r) (ti_TaskID r) db of
           Inl _ \<Rightarrow> cs = []
         | Inr _ \<Rightarrow> cs = filter (\<lambda>x. r_FromTaskID x = ti_TaskID r \<and> r_WorkflowID x = ti_WorkflowID r \<and>
             r_Status x = NormalStatus) (tb_relation t)) \<and>
        (case selectTaskAction G (ti_WorkflowID r) [ti_TaskID r] db of
           Inl _ \<Rightarrow> as = []
         | Inr _ \<Rightarrow> as = filter (\<lambda>x. a_WorkflowID x = ti_WorkflowID r \<and> a_TaskID x = ti_TaskID r) (tb_action t)))"

lemma SelectTaskInstance_SomeE:
  assumes s: "sched_ok sched" and ok: "SelectTaskInstance sched G c db = Inr (Some r')"
  obtains r :: mWorkflowTaskInstance and t ts where "g_newest G c db = Inr r" and "selectTask G (ti_WorkflowID r) [ti_TaskID r] db = Inr (t # ts)"
    and "completeTaskInstance G r (t # ts) (rowsOf (selectTaskRelation G (ti_WorkflowID r) (ti_TaskID r) db))
       (rowsOf (selectTaskAction G (ti_WorkflowID r) [ti_TaskID r] db)) = Inr (Some r')"
proof -
  from ok obtain r where r: "g_newest G c db = Inr r"
    by (auto simp: SelectTaskInstance_def maybe_def split: sum.splits gerr.splits)
  with ok have compl: "completeTaskInstance G r (rowsOf (selectTask G (ti_WorkflowID r) [ti_TaskID r] db))
      (rowsOf (selectTaskRelation G (ti_WorkflowID r) (ti_TaskID r) db))
      (rowsOf (selectTaskAction G (ti_WorkflowID r) [ti_TaskID r] db)) = Inr (Some r')"
    by (simp add: SelectTaskInstance_def maybe_def Let_def three_reads [OF s] split: option.splits)
  then obtain t ts where "rowsOf (selectTask G (ti_WorkflowID r) [ti_TaskID r] db) = t # ts"
    by (auto simp: completeTaskInstance_def split: list.splits)
  with that [OF r, of t ts] compl show thesis by (auto simp: rowsOf_def split: sum.splits)
qed

context gorm_store
begin

lemma SelectTaskInstance_Some:
  assumes s: "sched_ok sched" and ok: "SelectTaskInstance sched G c db = Inr (Some r')"
  shows "\<exists>r. is_newest (ro_match taskInstanceRow c) (tb_taskInstance (view db)) r \<and>
    (ti_WorkflowID r \<noteq> [] \<longrightarrow> ti_TaskID r \<noteq> [] \<longrightarrow>
     (\<exists>t. t \<in> set (tb_task (view db)) \<and> t_TaskID t = ti_TaskID r \<and> t_WorkflowID t = ti_WorkflowID r \<and>
       loaded G (view db) db r t r'))"
proof (rule SelectTaskInstance_SomeE [OF s ok])
  fix r :: mWorkflowTaskInstance and t ts
  let ?cs = "selectTaskRelation G (ti_WorkflowID r) (ti_TaskID r) db" and ?as = "selectTaskAction G (ti_WorkflowID r) [ti_TaskID r] db"
  assume r: "g_newest G c db = Inr r" and ts: "selectTask G (ti_WorkflowID r) [ti_TaskID r] db = Inr (t # ts)"
    and compl: "completeTaskInstance G r (t # ts) (rowsOf ?cs) (rowsOf ?as) = Inr (Some r')"
  from compl have r': "r' = r\<lparr>ti_Task := Some (t\<lparr>t_ChildTasks := rowsOf ?cs, t_Actions := rowsOf ?as\<rparr>)\<rparr>"
    by (auto simp: completeTaskInstance_def split: sum.splits dest!: conv_ok)
  have "t \<in> set (tb_task (view db)) \<and> t_TaskID t = ti_TaskID r \<and> t_WorkflowID t = ti_WorkflowID r"
    if "ti_WorkflowID r \<noteq> []"
    using arg_cong [OF selectTask_ok [OF ts that], of set] by auto
  moreover have "loaded G (view db) db r t r'" if "ti_WorkflowID r \<noteq> []" "ti_TaskID r \<noteq> []"
    unfolding loaded_def r'
  proof (intro exI [of _ "rowsOf ?cs"] exI [of _ "rowsOf ?as"] conjI refl)
    show "case ?cs of Inl _ \<Rightarrow> rowsOf ?cs = [] | Inr _ \<Rightarrow> rowsOf ?cs = filter (\<lambda>x. r_FromTaskID x = ti_TaskID r \<and>
        r_WorkflowID x = ti_WorkflowID r \<and> r_Status x = NormalStatus) (tb_relation (view db))"
      using selectTaskRelation_ok [OF _ that, of db] by (cases ?cs) (simp_all add: rowsOf_def)
    show "case ?as of Inl _ \<Rightarrow> rowsOf ?as = [] | Inr _ \<Rightarrow> rowsOf ?as = filter (\<lambda>x. a_WorkflowID x = ti_WorkflowID r \<and>
        a_TaskID x = ti_TaskID r) (tb_action (view db))"
      using selectTaskAction_ok [OF _ that(1), of "ti_TaskID r" db] by (cases ?as) (simp_all add: rowsOf_def)
  qed
  ultimately show ?thesis using newest_ok [OF r] by blast
qed

end

lemma loaded_completed:
  assumes "loaded G t db r task r'" and "\<not> isl (selectTaskRelation G (ti_WorkflowID r) (ti_TaskID r) db)"
    and "\<not> isl (selectTaskAction G (ti_WorkflowID r) [ti_TaskID r] db)"
  shows "r' = completed t r task"
proof -
  from assms(2,3) obtain cs as where "selectTaskRelation G (ti_WorkflowID r) (ti_TaskID r) db = Inr cs"
    "selectTaskAction G (ti_WorkflowID r) [ti_TaskID r] db = Inr as" by (metis isl_def sum.collapse(2))
  with assms(1) show ?thesis by (simp add: loaded_def completed_def)
qed

text \<open>
  C10: The task instance that \<open>SelectTaskInstance\<close> returns is a newest one among those that match the
  condition, with the stored task of its task id. For every weave of the steps of the three goroutines, which share one
  variable for their errors, the relations it carries are exactly those in force that leave the task and the actions all
  those stored for it, in the order of their keys, except that a list whose read failed is empty; when neither of these two
  reads failed, nothing is missing.
\<close>

theorem SelectTaskInstance_correct:
  assumes "gorm_store G view" and s: "sched_ok sched"
    and ids: "\<forall>r\<in>set (tb_taskInstance (view db)). ti_WorkflowID r \<noteq> [] \<and> ti_TaskID r \<noteq> []"
    and ok: "SelectTaskInstance sched G c db = Inr (Some r')"
  shows "\<exists>r t. is_newest (ro_match taskInstanceRow c) (tb_taskInstance (view db)) r \<and>
    t \<in> set (tb_task (view db)) \<and> t_TaskID t = ti_TaskID r \<and> t_WorkflowID t = ti_WorkflowID r \<and>
    loaded G (view db) db r t r' \<and>
    (\<not> isl (selectTaskRelation G (ti_WorkflowID r) (ti_TaskID r) db) \<and> \<not> isl (selectTaskAction G (ti_WorkflowID r) [ti_TaskID r] db) \<longrightarrow>
       r' = completed (view db) r t)"
proof -
  from gorm_store.SelectTaskInstance_Some [OF assms(1) s ok] obtain r where
    r: "is_newest (ro_match taskInstanceRow c) (tb_taskInstance (view db)) r"
    "ti_WorkflowID r \<noteq> [] \<longrightarrow> ti_TaskID r \<noteq> [] \<longrightarrow> (\<exists>t. t \<in> set (tb_task (view db)) \<and> t_TaskID t = ti_TaskID r \<and>
       t_WorkflowID t = ti_WorkflowID r \<and> loaded G (view db) db r t r')" by blast
  from r(1) ids have "ti_WorkflowID r \<noteq> []" "ti_TaskID r \<noteq> []" by (simp_all add: is_newest_def)
  with r loaded_completed show ?thesis by metis
qed

text \<open>A store with one waiting instance of a task that has one relation and one action.\<close>

definition demo_due :: tables where
  "demo_due = empty_tables\<lparr>
     tb_taskInstance := [zeroTaskInstance\<lparr>ti_ID := 1, ti_Status := TaskInstanceWaitStatus, ti_WorkflowID := ''w'', ti_TaskID := ''t''\<rparr>],
     tb_task := [zeroTask\<lparr>t_ID := 1, t_WorkflowID := ''w'', t_TaskID := ''t'', t_Status := NormalStatus\<rparr>],
     tb_relation := [zeroRelation\<lparr>r_ID := 1, r_WorkflowID := ''w'', r_FromTaskID := ''t'', r_ToTaskID := ''u'', r_Status := NormalStatus\<rparr>],
     tb_action := [zeroAction\<lparr>a_ID := 1, a_WorkflowID := ''w'', a_TaskID := ''t'', a_Status := NormalStatus\<rparr>]\<rparr>"

definition demo_condition :: mWorkflowTaskInstance where
  "demo_condition = zeroTaskInstance\<lparr>ti_Status := TaskInstanceWaitStatus\<rparr>"

theorem SelectTaskInstance_correct_witness:
  "\<exists>r' r t. SelectTaskInstance (\<lambda>k. rev [0..<k]) mem_gorm demo_condition demo_due = Inr (Some r') \<and>
     r \<in> set (tb_taskInstance demo_due) \<and> loaded mem_gorm demo_due demo_due r t r' \<and> length (t_ChildTasks (the (ti_Task r'))) = 1"
proof -
  let ?sel = "SelectTaskInstance (\<lambda>k. rev [0..<k]) mem_gorm demo_condition demo_due"
  have "\<not> isl ?sel \<and> projr ?sel \<noteq> None \<and> length (t_ChildTasks (the (ti_Task (the (projr ?sel))))) = 1" by code_simp
  then obtain r' where ok: "?sel = Inr (Some r')" and l: "length (t_ChildTasks (the (ti_Task r'))) = 1" by (cases ?sel) auto
  have "\<forall>r\<in>set (tb_taskInstance demo_due). ti_WorkflowID r \<noteq> [] \<and> ti_TaskID r \<noteq> []" by (simp add: demo_due_def zero_defs)
  from SelectTaskInstance_correct [OF mem.gorm_store_axioms sched_ok_rev this ok]
  obtain r t where "r \<in> set (tb_taskInstance demo_due)" "loaded mem_gorm demo_due demo_due r t r'" by (auto simp: is_newest_def)
  with ok l show ?thesis by blast
qed

section \<open>A lost error\<close>

text \<open>
  A schedule of the thirteen steps: the goroutine of the relations runs until it has set the shared error, the two others
  run to their end, then it returns what has become of the error.
\<close>

definition losing :: "nat \<Rightarrow> nat list" where
  "losing k = (if k = 13 then [4, 5, 0, 1, 2, 3, 8, 9, 10, 11, 12, 6, 7] else [0..<k])"

lemma losing_ok: "sched_ok losing"
proof -
  have "mset [4, 5, 0, 1, 2, 3, 8, 9, 10, 11, 12, 6, 7] = mset [0..<13 :: nat]" by code_simp
  then show ?thesis unfolding sched_ok_def losing_def by simp
qed

lemma owners_taskHandlers: "owners (taskHandlers a b c) = [0, 0, 0, 0, 1, 1, 1, 1, 2, 2, 2, 2, 2]"
  by (simp add: owners_def taskHandlers_def upt_rec numeral_eq_Suc)

lemma weave_losing:
  "rd_first (GoSteps losing (taskHandlers (Inr ts) (Inl e) (Inr as)) noReads) = None"
  unfolding GoSteps_def owners_taskHandlers interleave_def
  by (simp add: losing_def taskHandlers_def read_steps noReads_def)

lemma weave_in_turn:
  "rd_first (GoSteps (\<lambda>k. [0..<k]) (taskHandlers (Inr ts) (Inl e) (Inr as)) noReads) = Some e"
  unfolding GoSteps_def owners_taskHandlers interleave_def
  by (simp add: upt_rec numeral_eq_Suc taskHandlers_def read_steps noReads_def)

text \<open>
  C30: A failed read can go unnoticed. When the relations of a task cannot be read while the task and its actions can, it
  depends on how the three goroutines are scheduled whether \<open>SelectTaskInstance\<close> returns the error, or returns the
  task instance without any relation and without an error: the error is in a variable that the other two overwrite with nil.
\<close>

theorem read_error_can_be_lost:
  assumes "g_newest G c db = Inr r" and "g_conv G r = Inr r"
    and "selectTask G (ti_WorkflowID r) [ti_TaskID r] db = Inr (t # ts)"
    and "selectTaskRelation G (ti_WorkflowID r) (ti_TaskID r) db = Inl e"
    and "selectTaskAction G (ti_WorkflowID r) [ti_TaskID r] db = Inr as"
  shows "(\<exists>sched. sched_ok sched \<and> SelectTaskInstance sched G c db = Inl e) \<and>
    (\<exists>sched. sched_ok sched \<and> SelectTaskInstance sched G c db =
       Inr (Some (r\<lparr>ti_Task := Some (t\<lparr>t_ChildTasks := [], t_Actions := as\<rparr>)\<rparr>)))"
proof
  show "\<exists>sched. sched_ok sched \<and> SelectTaskInstance sched G c db = Inl e"
    using assms sched_ok_upt by (intro exI [of _ "\<lambda>k. [0..<k]"]) (simp add: SelectTaskInstance_def maybe_def Let_def weave_in_turn)
  show "\<exists>sched. sched_ok sched \<and> SelectTaskInstance sched G c db =
       Inr (Some (r\<lparr>ti_Task := Some (t\<lparr>t_ChildTasks := [], t_Actions := as\<rparr>)\<rparr>))"
    using assms losing_ok
    by (intro exI [of _ losing])
      (simp add: SelectTaskInstance_def maybe_def Let_def weave_losing three_reads [OF losing_ok] rowsOf_def completeTaskInstance_def)
qed

text \<open>The store in memory, but for the reads of relations, which fail.\<close>

definition broken_gorm :: "tables gorm" where
  "broken_gorm = mem_gorm\<lparr>g_relation := (g_relation mem_gorm)\<lparr>g_find := (\<lambda>_ _. Inl (DBError ''bad connection''))\<rparr>\<rparr>"

theorem read_error_can_be_lost_witness:
  "\<exists>sched r'. sched_ok sched \<and> SelectTaskInstance sched broken_gorm demo_condition demo_due = Inr (Some r') \<and>
     t_ChildTasks (the (ti_Task r')) = [] \<and> length (tb_relation demo_due) = 1"
proof -
  let ?r = "hd (tb_taskInstance demo_due)" and ?t = "hd (tb_task demo_due)" and ?a = "hd (tb_action demo_due)"
  have h: "g_newest broken_gorm demo_condition demo_due = Inr ?r" "g_conv broken_gorm ?r = Inr ?r"
    "selectTask broken_gorm (ti_WorkflowID ?r) [ti_TaskID ?r] demo_due = Inr (?t # [])"
    "selectTaskRelation broken_gorm (ti_WorkflowID ?r) (ti_TaskID ?r) demo_due = Inl (StoreError (DBError ''bad connection''))"
    "selectTaskAction broken_gorm (ti_WorkflowID ?r) [ti_TaskID ?r] demo_due = Inr [?a]"
    by code_simp+
  have n: "length (tb_relation demo_due) = 1" by (simp add: demo_due_def)
  from read_error_can_be_lost [OF h] obtain sched where "sched_ok sched" "SelectTaskInstance sched broken_gorm demo_condition demo_due =
      Inr (Some (?r\<lparr>ti_Task := Some (?t\<lparr>t_ChildTasks := [], t_Actions := [?a]\<rparr>)\<rparr>))" by blast
  with n show ?thesis
    by (intro exI [of _ sched] exI [of _ "?r\<lparr>ti_Task := Some (?t\<lparr>t_ChildTasks := [], t_Actions := [?a]\<rparr>)\<rparr>"]) simp
qed

section \<open>Pages of workflows\<close>

lemma countInstances_sel:
  "w_TotalInstances (countInstances is w) = int (length is)"
  "w_TotalFailedInstances (countInstances is w) = w_TotalFailedInstances w
     + int (length (filter (\<lambda>r. i_WorkflowStatus r = TaskInstanceFailStatus) is))"
  "w_TotalRunningInstances (countInstances is w) = w_TotalRunningInstances w
     + int (length (filter (\<lambda>r. i_WorkflowStatus r \<noteq> TaskInstanceFailStatus) is))"
  "w_WorkflowID (countInstances is w) = w_WorkflowID w" "w_ID (countInstances is w) = w_ID w"
proof -
  let ?f = "fold (\<lambda>instance workflow.
         if i_WorkflowStatus instance = TaskInstanceFailStatus
         then workflow\<lparr>w_TotalFailedInstances := w_TotalFailedInstances workflow + 1\<rparr>
         else workflow\<lparr>w_TotalRunningInstances := w_TotalRunningInstances workflow + 1\<rparr>)"
  have "w_TotalInstances (?f is v) = w_TotalInstances v \<and> w_WorkflowID (?f is v) = w_WorkflowID v \<and> w_ID (?f is v) = w_ID v
    \<and> w_TotalFailedInstances (?f is v) = w_TotalFailedInstances v
     + int (length (filter (\<lambda>r. i_WorkflowStatus r = TaskInstanceFailStatus) is))
    \<and> w_TotalRunningInstances (?f is v) = w_TotalRunningInstances v
     + int (length (filter (\<lambda>r. i_WorkflowStatus r \<noteq> TaskInstanceFailStatus) is))" for v :: mWorkflow
    by (induction "is" arbitrary: v) auto
  from this [of "w\<lparr>w_TotalInstances := int (length is)\<rparr>"] show
    "w_TotalInstances (countInstances is w) = int (length is)"
    "w_TotalFailedInstances (countInstances is w) = w_TotalFailedInstances w
       + int (length (filter (\<lambda>r. i_WorkflowStatus r = TaskInstanceFailStatus) is))"
    "w_TotalRunningInstances (countInstances is w) = w_TotalRunningInstances w
       + int (length (filter (\<lambda>r. i_WorkflowStatus r \<noteq> TaskInstanceFailStatus) is))"
    "w_WorkflowID (countInstances is w) = w_WorkflowID w" "w_ID (countInstances is w) = w_ID w"
    by (simp_all add: countInstances_def)
qed

text \<open>The live instances of a workflow, and the row with its counts filled in.\<close>

definition liveInstancesOf :: "tables \<Rightarrow> string \<Rightarrow> mWorkflowInstance list" where
  "liveInstancesOf t i = filter (\<lambda>r. i_WorkflowID r = i \<and> i_WorkflowStatus r \<noteq> InvalidStatus) (tb_instance t)"

definition filled :: "tables \<Rightarrow> mWorkflow \<Rightarrow> mWorkflow" where
  "filled t w = (let is = liveInstancesOf t (w_WorkflowID w) in if is = [] then w else countInstances is w)"

definition fillAt :: "tables \<Rightarrow> nat \<Rightarrow> mWorkflow list \<Rightarrow> mWorkflow list" where
  "fillAt t k ws = ws[k := filled t (ws ! k)]"

lemma fillAt_commute: "fillAt t i \<circ> fillAt t j = fillAt t j \<circ> fillAt t i"
  by (cases "i = j") (auto simp: fillAt_def list_update_swap)

lemma fold_fillAt: "k \<le> length ws \<Longrightarrow> fold (fillAt t) [0..<k] ws = map (filled t) (take k ws) @ drop k ws"
proof (induction k)
  case (Suc k)
  then have k: "k < length ws" by simp
  with Suc have "fold (fillAt t) [0..<Suc k] ws = fillAt t k (map (filled t) (take k ws) @ drop k ws)" by simp
  also have "drop k ws = ws ! k # drop (Suc k) ws" using k by (rule Cons_nth_drop_Suc [symmetric])
  finally show ?case using k by (simp add: fillAt_def nth_append list_update_append take_Suc_conv_app_nth)
qed simp

context gorm_store
begin

lemma fillInstanceCount_ok:
  assumes "sched_ok sched" and "fillInstanceCount sched G db ws = (Ok x, ws')"
  shows "ws' = map (filled (view db)) ws"
proof -
  have "ws' = fold (fillAt (view db)) [0..<length ws] ws"
    by (rule GoAndWait_fold [where view = "\<lambda>s. s", OF assms(1) _ _ _ assms(2) [unfolded fillInstanceCount_def]])
      (auto simp: fillOne_def fillAt_def filled_def liveInstancesOf_def
        split: sum.splits if_splits dest!: liveInstances_ok intro: fillAt_commute)
  then show ?thesis by (simp add: fold_fillAt)
qed

end

text \<open>The counts that a listed workflow shows.\<close>

definition counts_ok :: "tables \<Rightarrow> mWorkflow \<Rightarrow> bool" where
  "counts_ok t w \<longleftrightarrow>
     (let is = liveInstancesOf t (w_WorkflowID w) in
      w_TotalInstances w = int (length is) \<and>
      w_TotalFailedInstances w = int (length (filter (\<lambda>r. i_WorkflowStatus r = TaskInstanceFailStatus) is)) \<and>
      w_TotalRunningInstances w = w_TotalInstances w - w_TotalFailedInstances w)"

lemma counts_filled:
  assumes "w \<in> ro_cols workflowRow ` S"
  shows "counts_ok t (filled t w)"
proof -
  let ?is = "liveInstancesOf t (w_WorkflowID w)"
  have "length ?is = length (filter (\<lambda>r. i_WorkflowStatus r = 5) ?is) + length (filter (\<lambda>r. i_WorkflowStatus r \<noteq> 5) ?is)"
    by (rule sum_length_filter_compl [symmetric])
  then show ?thesis
    using assms by (auto simp: counts_ok_def filled_def Let_def countInstances_sel workflowRow_def)
qed

lemma filled_id [simp]: "w_ID (filled t w) = w_ID w" "w_WorkflowID (filled t w) = w_WorkflowID w"
  by (simp_all add: filled_def Let_def countInstances_sel)

lemma clampParam_ok:
  "q_Size (clampParam p) \<le> 100" "q_Page (clampParam p) \<noteq> 0" "0 < q_Size p \<Longrightarrow> 0 < q_Size (clampParam p)"
  by (cases "100 < q_Size p"; cases "q_Page p = 0"; simp add: clampParam_def Let_def)+

lemma clampParam_unlimited: "q_Size p = 0 \<Longrightarrow> q_Size (clampParam p) = 0 \<and> pageOffset (clampParam p) = 0"
  by (simp add: clampParam_def pageOffset_def wrap64_def)

text \<open>
  C19: A page of workflows that \<open>SelectList\<close> returns without error: each row is a stored workflow of the requested status
  (in force by default), and carries the number of its live instances, of those with the status that failed task instances have,
  and of the others, for every order in which the concurrent counts run. Its number of rows is bounded by 100 for a
  positive size only: for the size 0, which a request without a size has, every matching row is returned, and
  their number is the count that is returned beside them; without a workflow id these are all workflows of the status. The
  parameter is left with a size of at most 100 and a page other than 0.
\<close>

theorem SelectList_correct:
  assumes "gorm_store G view" and s: "sched_ok sched"
    and ok: "SelectList sched G param db = ((res, cnt, None), param')"
  shows "(0 < q_Size param \<longrightarrow> length res \<le> 100) \<and> (q_Size param = 0 \<longrightarrow> int (length res) = cnt) \<and> int (length res) \<le> cnt \<and>
    (q_WorkflowID param = [] \<longrightarrow> cnt = int (length (filter (\<lambda>r. w_Status r =
       (if q_Status param = 0 then NormalStatus else q_Status param)) (tb_workflow (view db))))) \<and>
    q_Size param' \<le> 100 \<and> q_Page param' \<noteq> 0 \<and>
    (\<forall>w\<in>set res. counts_ok (view db) w \<and>
       (\<exists>r\<in>set (tb_workflow (view db)). w_ID r = w_ID w \<and> w_WorkflowID r = w_WorkflowID w \<and>
          w_Status r = (if q_Status param = 0 then NormalStatus else q_Status param)))"
proof -
  let ?st = "if q_Status param = 0 then NormalStatus else q_Status param" and ?p = "clampParam param"
  have p: "param' = ?p" "q_Size ?p \<le> 100" "q_Page ?p \<noteq> 0" "0 < q_Size param \<longrightarrow> 0 < q_Size ?p"
    using ok clampParam_ok [of param] by (auto simp: SelectList_def Let_def)
  obtain ws where page: "g_page G (q_WorkflowID param) ?st (q_Size ?p) (pageOffset ?p) db = Inr (ws, cnt)"
      and res: "res = map (filled (view db)) ws"
  proof (cases "g_page G (q_WorkflowID param) ?st (q_Size ?p) (pageOffset ?p) db")
    case (Inl e)
    with ok gorm_store.page_found [OF assms(1)] show thesis by (auto simp: SelectList_def Let_def split: gerr.splits)
  next
    case (Inr wn)
    obtain ws n where wn: "wn = (ws, n)" by force
    show thesis
    proof (cases "n = 0")
      case True
      with Inr wn gorm_store.page_ok [OF assms(1), of "q_WorkflowID param" ?st "q_Size ?p" "pageOffset ?p" db ws n] ok that
      show thesis by (auto simp: SelectList_def Let_def)
    next
      case False
      with ok Inr wn obtain ws' where "fillInstanceCount sched G db ws = (Ok (), ws')" "res = ws'" "cnt = n"
        by (auto simp: SelectList_def Let_def fillInstanceCount_def GoAndWait_no_panic split: prod.splits outcome.splits)
      with gorm_store.fillInstanceCount_ok [OF assms(1) s this(1)] Inr wn that show thesis by simp
    qed
  qed
  note law = gorm_store.page_ok [OF assms(1) page]
  have rows: "counts_ok (view db) (filled (view db) w) \<and>
     (\<exists>r\<in>set (tb_workflow (view db)). w_ID r = w_ID w \<and> w_WorkflowID r = w_WorkflowID w \<and> w_Status r = ?st)"
    if "w \<in> set ws" for w
  proof -
    from law that obtain r where r: "r \<in> set (tb_workflow (view db))" "w_Status r = ?st" "w = ro_cols workflowRow r" by blast
    then have "w_ID r = w_ID w \<and> w_WorkflowID r = w_WorkflowID w" by (simp add: workflowRow_def)
    with r counts_filled [of w "{r}"] show ?thesis by blast
  qed
  have "q_Size param = 0 \<longrightarrow> int (length res) = cnt" using law clampParam_unlimited [of param] by (simp add: res)
  moreover have "0 < q_Size param \<longrightarrow> length res \<le> 100" "int (length res) \<le> cnt" using law p by (auto simp: res)
  moreover have "\<forall>w\<in>set res. counts_ok (view db) w \<and>
     (\<exists>r\<in>set (tb_workflow (view db)). w_ID r = w_ID w \<and> w_WorkflowID r = w_WorkflowID w \<and> w_Status r = ?st)"
    unfolding res using rows by simp
  ultimately show ?thesis using law p(1-3) by blast
qed

text \<open>A workflow in force with three instances, one of them deleted, and a deleted workflow.\<close>

definition demo_catalog :: tables where
  "demo_catalog = empty_tables\<lparr>
     tb_workflow := [zeroWorkflow\<lparr>w_ID := 1, w_WorkflowID := ''w'', w_Status := NormalStatus\<rparr>,
       zeroWorkflow\<lparr>w_ID := 2, w_WorkflowID := ''v'', w_Status := InvalidStatus\<rparr>],
     tb_instance := [zeroInstance\<lparr>i_ID := 1, i_WorkflowID := ''w'', i_WorkflowStatus := WorkflowInstanceProcessStatus\<rparr>,
       zeroInstance\<lparr>i_ID := 2, i_WorkflowID := ''w'', i_WorkflowStatus := InvalidStatus\<rparr>,
       zeroInstance\<lparr>i_ID := 3, i_WorkflowID := ''w'', i_WorkflowStatus := TaskInstanceFailStatus\<rparr>]\<rparr>"

theorem SelectList_correct_witness:
  "\<exists>res cnt param'. SelectList (\<lambda>k. rev [0..<k]) mem_gorm \<lparr>q_WorkflowID = [], q_Status = 0, q_Page = 0, q_Size = 0\<rparr>
     demo_catalog = ((res, cnt, None), param') \<and> length res = 1 \<and> cnt = 1 \<and> map w_TotalInstances res = [2] \<and>
     list_all (counts_ok demo_catalog) res"
proof -
  let ?sel = "SelectList (\<lambda>k. rev [0..<k]) mem_gorm \<lparr>q_WorkflowID = [], q_Status = 0, q_Page = 0, q_Size = 0\<rparr> demo_catalog"
  have "snd (snd (fst ?sel)) = None" and t: "map w_TotalInstances (fst (fst ?sel)) = [2]" by code_simp+
  then have ok: "?sel = ((fst (fst ?sel), fst (snd (fst ?sel)), None), snd ?sel)" by (metis prod.collapse)
  note SelectList_correct [OF mem.gorm_store_axioms sched_ok_rev ok]
  then have "int (length (fst (fst ?sel))) = fst (snd (fst ?sel))" and "fst (snd (fst ?sel)) = 1"
    and "list_all (counts_ok demo_catalog) (fst (fst ?sel))"
    by (simp_all add: demo_catalog_def zero_defs list_all_iff)
  with ok t show ?thesis by (intro exI conjI) (assumption, simp_all)
qed

end
