(* ===== verification/Lexer.thy ===== *)
theory Lexer
  imports GoStrings
begin

text \<open>
  The lexer of \<open>third_party/lexer\<close> (\<open>lexer.go\<close>, \<open>rune_stack.go\<close>). A rune is an integer, the end of
  input is \<open>EOFRune\<close> = -1; the stack of runes that can be taken back is a list with its top first;
  the channel is the list of tokens sent so far. \<open>run\<close> is a loop over state functions: a state
  returns whether another one follows. The buffer of the channel is \<open>buffSize\<close>; a receiver takes
  tokens in order until the channel is closed.
\<close>

section \<open>State\<close>

abbreviation (input) EOFRune :: int where "EOFRune \<equiv> -1"

record 'k token =
  tok_Type :: 'k
  tok_Value :: string

record 'k lexer =
  lx_source :: string
  lx_start :: nat
  lx_position :: nat
  lx_rewind :: "int list"
  lx_tokens :: "'k token list"
  lx_Err :: "string option"
  lx_hasHandler :: bool

definition New :: "string \<Rightarrow> 'k lexer" where
  "New src = \<lparr>lx_source = src, lx_start = 0, lx_position = 0, lx_rewind = [], lx_tokens = [],
     lx_Err = None, lx_hasHandler = False\<rparr>"

definition buffSize :: "'k lexer \<Rightarrow> nat" where
  "buffSize l = (let n = length (lx_source l) div 2 in if n \<le> 0 then 1 else n)"

section \<open>The rune stack\<close>

definition stack_push :: "int \<Rightarrow> int list \<Rightarrow> int list" where
  "stack_push r st = r # st"

fun stack_pop :: "int list \<Rightarrow> int \<times> int list" where
  "stack_pop [] = (EOFRune, [])"
| "stack_pop (r # st) = (r, st)"

definition stack_clear :: "int list \<Rightarrow> int list" where
  "stack_clear st = []"

section \<open>Operations\<close>

definition Current :: "'k lexer \<Rightarrow> string" where
  "Current l = take (lx_position l - lx_start l) (drop (lx_start l) (lx_source l))"

definition Emit :: "'k \<Rightarrow> 'k lexer \<Rightarrow> 'k lexer" where
  "Emit t l =
     l\<lparr>lx_tokens := lx_tokens l @ [\<lparr>tok_Type = t, tok_Value = Current l\<rparr>],
       lx_start := lx_position l, lx_rewind := stack_clear (lx_rewind l)\<rparr>"

definition Ignore :: "'k lexer \<Rightarrow> 'k lexer" where
  "Ignore l = l\<lparr>lx_rewind := stack_clear (lx_rewind l), lx_start := lx_position l\<rparr>"

definition Next :: "'k lexer \<Rightarrow> int \<times> 'k lexer" where
  "Next l =
     (let str = drop (lx_position l) (lx_source l);
          (r, s) = (if str = [] then (EOFRune, 0) else (let (r, s) = decode_rune str in (int r, s)))
      in (r, l\<lparr>lx_position := lx_position l + s, lx_rewind := stack_push r (lx_rewind l)\<rparr>))"

text \<open>
  \<open>position\<close> is a Go \<open>int\<close>: the subtraction may go below \<open>start\<close>, and is then set back to it.
\<close>

definition Rewind :: "'k lexer \<Rightarrow> 'k lexer" where
  "Rewind l =
     (let (r, st) = stack_pop (lx_rewind l); l = l\<lparr>lx_rewind := st\<rparr> in
      if r > EOFRune then
        let position = int (lx_position l) - rune_len (nat r) in
        l\<lparr>lx_position := nat (if position < int (lx_start l) then int (lx_start l) else position)\<rparr>
      else l)"

definition Peek :: "'k lexer \<Rightarrow> int \<times> 'k lexer" where
  "Peek l = (let (r, l) = Next l in (r, Rewind l))"

text \<open>\<open>strings.ContainsRune\<close>: the runes of a string, an ill-formed byte being U+FFFD.\<close>

function runes :: "string \<Rightarrow> int list" where
  "runes s = (if s = [] then [] else let (r, n) = decode_rune s in int r # runes (drop n s))"
  by pat_completeness auto
termination
proof (relation "measure length")
  fix s :: string and x r n
  assume "s \<noteq> []" and "x = decode_rune s" and "(r, n) = x"
  then show "(drop n s, s) \<in> measure length"
    using decode_rune_width [of s] by (auto simp: prod_eq_iff)
qed simp

declare runes.simps [simp del]

lemma Next_source [simp]:
  "lx_source (snd (Next l)) = lx_source l" "lx_start (snd (Next l)) = lx_start l"
  "lx_tokens (snd (Next l)) = lx_tokens l"
  by (simp_all add: Next_def Let_def split: prod.split)

lemma Next_progress:
  assumes "fst (Next l) \<noteq> EOFRune"
  shows "lx_position l < lx_position (snd (Next l))" "lx_position (snd (Next l)) \<le> length (lx_source l)"
proof -
  let ?str = "drop (lx_position l) (lx_source l)"
  from assms have ne: "?str \<noteq> []" by (auto simp: Next_def Let_def)
  with decode_rune_width [OF ne] show "lx_position l < lx_position (snd (Next l))"
    "lx_position (snd (Next l)) \<le> length (lx_source l)"
    by (auto simp: Next_def Let_def split: prod.split)
qed

text \<open>The loop of \<open>Take\<close>, from the rune just read.\<close>

function takeLoop :: "string \<Rightarrow> int \<Rightarrow> 'k lexer \<Rightarrow> 'k lexer" where
  "takeLoop chars r l =
     (if r \<in> set (runes chars) then
        (let (r', l') = Next l in if r' = EOFRune then l' else takeLoop chars r' l')
      else l)"
  by pat_completeness auto
termination
proof (relation "measure (\<lambda>(chars, r, l). length (lx_source l) - lx_position l)")
  fix chars r and l :: "'k lexer" and x r' l'
  assume "x = Next l" and "(r', l') = x" and "r' \<noteq> EOFRune"
  then show "((chars, r', l'), (chars, r, l)) \<in> measure (\<lambda>(chars, r, l). length (lx_source l) - lx_position l)"
    using Next_progress [of l] Next_source(1) [of l] by (cases "Next l") auto
qed simp

definition Take :: "string \<Rightarrow> 'k lexer \<Rightarrow> 'k lexer" where
  "Take chars l = (let (r, l) = Next l in Rewind (takeLoop chars r l))"

text \<open>\<open>Error\<close>: \<open>None\<close> is the panic raised when no handler is installed.\<close>

definition Error :: "string \<Rightarrow> 'k lexer \<Rightarrow> 'k lexer option" where
  "Error e l = (if lx_hasHandler l then Some (l\<lparr>lx_Err := Some e\<rparr>) else None)"

text \<open>
  \<open>run\<close>: the state functions of a client are one function whose flag says whether a further state
  follows; a run that never ends has no value.
\<close>

partial_function (option) run :: "('k lexer \<Rightarrow> bool \<times> 'k lexer) \<Rightarrow> 'k lexer \<Rightarrow> 'k lexer option" where
  "run state l = (case state l of (again, l') \<Rightarrow> if again then run state l' else Some l')"

section \<open>Reading and taking back\<close>

lemma runes_EOF: "EOFRune \<notin> set (runes s)"
proof (induction s rule: runes.induct)
  case (1 s)
  show ?case
  proof (cases "s = []")
    case True
    then show ?thesis by (simp add: runes.simps)
  next
    case False
    with 1 show ?thesis by (subst runes.simps) (auto simp: Let_def split: prod.split)
  qed
qed

text \<open>What is left to read.\<close>

definition rest :: "'k lexer \<Rightarrow> string" where
  "rest l = drop (lx_position l) (lx_source l)"

lemma Next_EOF: "rest l = [] \<Longrightarrow> Next l = (EOFRune, l\<lparr>lx_rewind := EOFRune # lx_rewind l\<rparr>)"
  by (simp add: Next_def rest_def stack_push_def)

lemma Next_rune:
  assumes "rest l \<noteq> []"
  shows "Next l = (int (fst (decode_rune (rest l))),
    l\<lparr>lx_position := lx_position l + snd (decode_rune (rest l)),
      lx_rewind := int (fst (decode_rune (rest l))) # lx_rewind l\<rparr>)"
  using assms by (simp add: Next_def rest_def stack_push_def split: prod.split)

text \<open>Taking back an ASCII rune restores the position before it was read.\<close>

lemma Next_ascii:
  assumes "rest l = c # s" and "(of_char c :: nat) < 0x80"
  shows "Next l = (int (of_char c), l\<lparr>lx_position := Suc (lx_position l), lx_rewind := int (of_char c) # lx_rewind l\<rparr>)"
  using assms by (simp add: Next_rune decode_rune_ascii)

lemma Rewind_ascii:
  assumes "lx_rewind l = int n # st" and "n < 0x80" and "lx_start l < lx_position l"
  shows "Rewind l = l\<lparr>lx_rewind := st, lx_position := lx_position l - 1\<rparr>"
  using assms by (auto simp: Rewind_def rune_len_def Let_def nat_diff_distrib)

end
