(* ===== verification/Json.thy ===== *)
theory Json
  imports GoValue
begin

text \<open>
  \<open>json.Unmarshal\<close> into an \<open>interface{}\<close>, as the runtime uses it on the data of a task: the grammar
  of RFC 8259 with Go's limits (nesting depth 10000) and repairs (an ill-formed byte sequence or a
  lone surrogate in a string becomes U+FFFD). Numbers become \<open>float64\<close>: the parameter \<open>jnum\<close> gives
  the value of a number's text, or nothing when it is out of range; it stands for
  \<open>strconv.ParseFloat\<close> and the two ways a \<open>float64\<close> is printed.
\<close>

section \<open>Strings\<close>

definition is_ws :: "char \<Rightarrow> bool" where
  "is_ws c \<longleftrightarrow> c = CHR 0x20 \<or> c = CHR 0x09 \<or> c = CHR 0x0A \<or> c = CHR 0x0D"

definition skip_ws :: "string \<Rightarrow> string" where
  "skip_ws s = dropWhile is_ws s"

definition hex_val :: "char \<Rightarrow> nat option" where
  "hex_val c =
     (let b = (of_char c :: nat) in
      if 48 \<le> b \<and> b \<le> 57 then Some (b - 48)
      else if 97 \<le> b \<and> b \<le> 102 then Some (b - 87)
      else if 65 \<le> b \<and> b \<le> 70 then Some (b - 55) else None)"

fun hex4 :: "string \<Rightarrow> (nat \<times> string) option" where
  "hex4 (a # b # c # d # t) =
     (case (hex_val a, hex_val b, hex_val c, hex_val d) of
        (Some w, Some x, Some y, Some z) \<Rightarrow> Some (((w * 16 + x) * 16 + y) * 16 + z, t)
      | _ \<Rightarrow> None)"
| "hex4 _ = None"

text \<open>The second half of a surrogate pair, when the next characters are one.\<close>

definition low_half :: "nat \<Rightarrow> string \<Rightarrow> (nat \<times> string) option" where
  "low_half hi t =
     (if 0xD800 \<le> hi \<and> hi < 0xDC00 \<and> take 2 t = [CHR 0x5C, CHR ''u''] then
        (case hex4 (drop 2 t) of
           Some (lo, t') \<Rightarrow>
             if 0xDC00 \<le> lo \<and> lo < 0xE000 then Some ((hi - 0xD800) * 1024 + (lo - 0xDC00) + 0x10000, t')
             else None
         | None \<Rightarrow> None)
      else None)"

text \<open>The escape after a backslash: the characters it stands for and what follows.\<close>

definition escape :: "string \<Rightarrow> (string \<times> string) option" where
  "escape s = (case s of
     [] \<Rightarrow> None
   | c # t \<Rightarrow>
      if c = CHR 0x22 \<or> c = CHR 0x5C \<or> c = CHR 0x2F then Some ([c], t)
      else if c = CHR ''b'' then Some ([CHR 0x08], t)
      else if c = CHR ''f'' then Some ([CHR 0x0C], t)
      else if c = CHR ''n'' then Some ([CHR 0x0A], t)
      else if c = CHR ''r'' then Some ([CHR 0x0D], t)
      else if c = CHR ''t'' then Some ([CHR 0x09], t)
      else if c = CHR ''u'' then
        (case hex4 t of
           None \<Rightarrow> None
         | Some (r, t') \<Rightarrow>
             if 0xD800 \<le> r \<and> r \<le> 0xDFFF then
               (case low_half r t' of
                  Some (dec, t'') \<Rightarrow> Some (encode_rune dec, t'')
                | None \<Rightarrow> Some (encode_rune rune_error, t'))
             else Some (encode_rune r, t'))
      else None)"

lemma hex4_shorter: "hex4 s = Some (r, t) \<Longrightarrow> length t < length s"
  by (induction s rule: hex4.induct) (auto split: option.splits)

lemma escape_shorter: "escape s = Some (u, t) \<Longrightarrow> length t < length s"
  by (auto simp: escape_def low_half_def split: list.splits if_splits option.splits dest!: hex4_shorter)

text \<open>The text up to the closing quote, decoded, and what follows the quote.\<close>

function jstring :: "string \<Rightarrow> (string \<times> string) option" where
  "jstring [] = None"
| "jstring (c # t) =
     (if c = CHR 0x22 then Some ([], t)
      else if c = CHR 0x5C then
        (case escape t of
           None \<Rightarrow> None
         | Some (u, t') \<Rightarrow> map_option (\<lambda>(v, r). (u @ v, r)) (jstring t'))
      else if (of_char c :: nat) < 0x20 then None
      else if (of_char c :: nat) < 0x80 then map_option (\<lambda>(v, r). (c # v, r)) (jstring t)
      else (let (r, n) = decode_rune (c # t) in
            map_option (\<lambda>(v, r'). (encode_rune r @ v, r')) (jstring (drop n (c # t)))))"
  by pat_completeness auto
termination
proof (relation "measure length")
  fix c t x u t'
  assume "escape t = Some x" and "(u, t') = x"
  then show "(t', c # t) \<in> measure length" using escape_shorter [of t u t'] by auto
next
  fix c t x r n
  assume "x = decode_rune (c # t)" and "(r, n) = x"
  then show "(drop n (c # t), c # t) \<in> measure length"
    using decode_rune_width [of "c # t"] by (auto simp: prod_eq_iff)
qed auto

section \<open>Numbers\<close>

definition is_digit :: "char \<Rightarrow> bool" where
  "is_digit c \<longleftrightarrow> 48 \<le> (of_char c :: nat) \<and> (of_char c :: nat) \<le> 57"

definition digits :: "string \<Rightarrow> (string \<times> string) option" where
  "digits s = (let ds = takeWhile is_digit s in if ds = [] then None else Some (ds, dropWhile is_digit s))"

definition int_part :: "string \<Rightarrow> (string \<times> string) option" where
  "int_part s = (case s of
     [] \<Rightarrow> None
   | c # t \<Rightarrow> if c = CHR ''0'' then Some ([c], t) else digits s)"

definition frac_part :: "string \<Rightarrow> (string \<times> string) option" where
  "frac_part s = (case s of
     c # t \<Rightarrow> if c = CHR ''.'' then map_option (\<lambda>(d, r). (c # d, r)) (digits t) else Some ([], s)
   | [] \<Rightarrow> Some ([], s))"

definition exp_part :: "string \<Rightarrow> (string \<times> string) option" where
  "exp_part s = (case s of
     c # t \<Rightarrow>
       if c = CHR ''e'' \<or> c = CHR ''E'' then
         (let (sign, t') = (case t of d # u \<Rightarrow> if d = CHR ''+'' \<or> d = CHR ''-'' then ([d], u) else ([], t)
                             | [] \<Rightarrow> ([], t))
          in map_option (\<lambda>(d, r). (c # sign @ d, r)) (digits t'))
       else Some ([], s)
   | [] \<Rightarrow> Some ([], s))"

definition jnumber :: "string \<Rightarrow> (string \<times> string) option" where
  "jnumber s =
     (let (sign, s1) = (case s of c # t \<Rightarrow> if c = CHR ''-'' then ([c], t) else ([], s) | [] \<Rightarrow> ([], s)) in
      case int_part s1 of
        None \<Rightarrow> None
      | Some (i, s2) \<Rightarrow>
          (case frac_part s2 of
             None \<Rightarrow> None
           | Some (f, s3) \<Rightarrow> map_option (\<lambda>(e, r). (sign @ i @ f @ e, r)) (exp_part s3)))"

section \<open>Values\<close>

abbreviation (input) maxNestingDepth :: nat where "maxNestingDepth \<equiv> 10000"

text \<open>
  \<open>fuel\<close> bounds the number of nested and consecutive values; \<open>jvalue_fuel\<close> shows that twice the
  length of the input is enough.
\<close>

fun jvalue :: "(string \<Rightarrow> gval option) \<Rightarrow> nat \<Rightarrow> nat \<Rightarrow> string \<Rightarrow> (gval \<times> string) option"
  and jelems :: "(string \<Rightarrow> gval option) \<Rightarrow> nat \<Rightarrow> nat \<Rightarrow> string \<Rightarrow> (gval list \<times> string) option"
  and jmembers :: "(string \<Rightarrow> gval option) \<Rightarrow> nat \<Rightarrow> nat \<Rightarrow> string \<Rightarrow> ((string \<times> gval) list \<times> string) option" where
  "jvalue jnum 0 depth s = None"
| "jvalue jnum (Suc n) depth s =
     (case skip_ws s of
        [] \<Rightarrow> None
      | c # t \<Rightarrow>
          if c = CHR 0x22 then map_option (\<lambda>(v, r). (VStr v, r)) (jstring t)
          else if c = CHR ''['' then
            if depth \<ge> maxNestingDepth then None
            else (case skip_ws t of
                    d # u \<Rightarrow> if d = CHR '']'' then Some (VSeq [], u)
                             else map_option (\<lambda>(xs, r). (VSeq xs, r)) (jelems jnum n (Suc depth) t)
                  | [] \<Rightarrow> None)
          else if c = CHR ''{'' then
            if depth \<ge> maxNestingDepth then None
            else (case skip_ws t of
                    d # u \<Rightarrow> if d = CHR ''}'' then Some (VMap [], u)
                             else map_option (\<lambda>(es, r). (VMap es, r)) (jmembers jnum n (Suc depth) t)
                  | [] \<Rightarrow> None)
          else if take 4 (c # t) = ''true'' then Some (VBool True, drop 3 t)
          else if take 5 (c # t) = ''false'' then Some (VBool False, drop 4 t)
          else if take 4 (c # t) = ''null'' then Some (VNil, drop 3 t)
          else (case jnumber (c # t) of
                  None \<Rightarrow> None
                | Some (txt, r) \<Rightarrow> map_option (\<lambda>v. (v, r)) (jnum txt)))"
| "jelems jnum 0 depth s = None"
| "jelems jnum (Suc n) depth s =
     (case jvalue jnum n depth s of
        None \<Rightarrow> None
      | Some (v, r) \<Rightarrow>
          (case skip_ws r of
             [] \<Rightarrow> None
           | d # u \<Rightarrow>
               if d = CHR '']'' then Some ([v], u)
               else if d = CHR '','' then map_option (\<lambda>(vs, r'). (v # vs, r')) (jelems jnum n depth u)
               else None))"
| "jmembers jnum 0 depth s = None"
| "jmembers jnum (Suc n) depth s =
     (case skip_ws s of
        [] \<Rightarrow> None
      | q # t \<Rightarrow>
          if q \<noteq> CHR 0x22 then None
          else (case jstring t of
             None \<Rightarrow> None
           | Some (key, r) \<Rightarrow>
               (case skip_ws r of
                  [] \<Rightarrow> None
                | col # r1 \<Rightarrow>
                    if col \<noteq> CHR '':'' then None
                    else (case jvalue jnum n depth r1 of
                       None \<Rightarrow> None
                     | Some (v, r2) \<Rightarrow>
                         (case skip_ws r2 of
                            [] \<Rightarrow> None
                          | d # u \<Rightarrow>
                              if d = CHR ''}'' then Some ([(key, v)], u)
                              else if d = CHR '','' then
                                map_option (\<lambda>(es, r3). (if map_of es key = None then (key, v) # es else es, r3))
                                  (jmembers jnum n depth u)
                              else None)))))"

definition unmarshal :: "(string \<Rightarrow> gval option) \<Rightarrow> string \<Rightarrow> gval option" where
  "unmarshal jnum s =
     (case jvalue jnum (2 * length s + 2) 0 s of
        Some (v, r) \<Rightarrow> if skip_ws r = [] then Some v else None
      | None \<Rightarrow> None)"

section \<open>The input shrinks, and the fuel is enough\<close>

lemma skip_ws_le: "length (skip_ws s) \<le> length s"
  by (simp add: skip_ws_def length_dropWhile_le)

lemma skip_ws_Cons: "skip_ws s = c # t \<Longrightarrow> length t < length s"
  using skip_ws_le [of s] by auto

lemma jstring_shorter: "jstring s = Some (v, r) \<Longrightarrow> length r < length s"
proof (induction s arbitrary: v rule: jstring.induct)
  case (2 c t)
  show ?case
  proof (cases "c = CHR 0x22 \<or> c = CHR 0x5C \<or> (of_char c :: nat) < 0x80")
    case True
    with 2 show ?thesis
      by (auto split: if_splits option.splits dest!: escape_shorter) (fastforce+)?
  next
    case False
    obtain x n where d: "decode_rune (c # t) = (x, n)" by (cases "decode_rune (c # t)")
    with False 2(4) obtain v' where "jstring (drop n (c # t)) = Some (v', r)" by (auto simp: Let_def)
    with 2(3) [of "(x, n)" x n] False d have "length r < length (drop n (c # t))" by auto
    then show ?thesis by simp
  qed
qed simp

lemma digits_shorter: "digits s = Some (d, r) \<Longrightarrow> length r < length s"
proof -
  assume "digits s = Some (d, r)"
  then have "takeWhile is_digit s \<noteq> []" "r = dropWhile is_digit s" by (auto simp: digits_def Let_def split: if_splits)
  moreover have "length (takeWhile is_digit s) + length (dropWhile is_digit s) = length s"
    by (metis length_append takeWhile_dropWhile_id)
  ultimately show ?thesis by (cases "takeWhile is_digit s") auto
qed

lemma number_parts:
  "int_part s = Some (d, r) \<Longrightarrow> length r < length s"
  "frac_part s = Some (d, r) \<Longrightarrow> length r \<le> length s"
  "exp_part s = Some (d, r) \<Longrightarrow> length r \<le> length s"
  by (auto simp: int_part_def frac_part_def exp_part_def Let_def split: list.splits if_splits dest!: digits_shorter)

lemma jnumber_shorter: "jnumber s = Some (x, r) \<Longrightarrow> length r < length s"
  by (auto simp: jnumber_def Let_def split: list.splits if_splits option.splits dest!: number_parts)

lemma jvalue_step_shorter:
  assumes "\<And>d t vs r. jelems jnum n d t = Some (vs, r) \<Longrightarrow> length r < length t"
    and "\<And>d t es r. jmembers jnum n d t = Some (es, r) \<Longrightarrow> length r < length t"
    and ok: "jvalue jnum (Suc n) depth s = Some (v, r)"
  shows "length r < length s"
proof -
  from ok obtain c t where ct: "skip_ws s = c # t" by (auto split: list.splits)
  have "length r \<le> length t"
    using ok ct
    by (auto split: if_splits list.splits option.splits
        dest!: jstring_shorter jnumber_shorter skip_ws_Cons assms(1,2))
  with skip_ws_Cons [OF ct] show ?thesis by simp
qed

lemma jelems_step_shorter:
  assumes "\<And>d t v r. jvalue jnum n d t = Some (v, r) \<Longrightarrow> length r < length t"
    and "\<And>d t vs r. jelems jnum n d t = Some (vs, r) \<Longrightarrow> length r < length t"
    and ok: "jelems jnum (Suc n) depth s = Some (vs, r)"
  shows "length r < length s"
  using ok by (auto split: if_splits list.splits option.splits dest!: skip_ws_Cons assms(1,2))

lemma jmembers_step_shorter:
  assumes "\<And>d t v r. jvalue jnum n d t = Some (v, r) \<Longrightarrow> length r < length t"
    and "\<And>d t es r. jmembers jnum n d t = Some (es, r) \<Longrightarrow> length r < length t"
    and ok: "jmembers jnum (Suc n) depth s = Some (es, r)"
  shows "length r < length s"
  using ok by (auto split: if_splits list.splits option.splits dest!: skip_ws_Cons jstring_shorter assms(1,2))

lemma json_shorter:
  "(\<forall>depth s v r. jvalue jnum n depth s = Some (v, r) \<longrightarrow> length r < length s) \<and>
   (\<forall>depth s vs r. jelems jnum n depth s = Some (vs, r) \<longrightarrow> length r < length s) \<and>
   (\<forall>depth s es r. jmembers jnum n depth s = Some (es, r) \<longrightarrow> length r < length s)"
proof (induction n)
  case (Suc n)
  show ?case
    by (intro conjI allI impI; (erule jvalue_step_shorter [rotated 2] jelems_step_shorter [rotated 2]
          jmembers_step_shorter [rotated 2])) (use Suc in blast)+
qed simp

lemmas jvalue_shorter = json_shorter [THEN conjunct1, rule_format]

text \<open>More fuel than twice the length of the input makes no difference.\<close>

definition value_fuel :: "(string \<Rightarrow> gval option) \<Rightarrow> string \<Rightarrow> bool" where
  "value_fuel jnum s \<longleftrightarrow> (\<forall>depth n m. 2 * length s + 1 \<le> n \<longrightarrow> 2 * length s + 1 \<le> m \<longrightarrow>
     jvalue jnum n depth s = jvalue jnum m depth s)"

definition list_fuel :: "(string \<Rightarrow> gval option) \<Rightarrow> string \<Rightarrow> bool" where
  "list_fuel jnum s \<longleftrightarrow> (\<forall>depth n m. 2 * length s + 2 \<le> n \<longrightarrow> 2 * length s + 2 \<le> m \<longrightarrow>
     jelems jnum n depth s = jelems jnum m depth s \<and> jmembers jnum n depth s = jmembers jnum m depth s)"

lemma value_fuelI:
  assumes "\<And>t. length t < length s \<Longrightarrow> list_fuel jnum t"
  shows "value_fuel jnum s"
  unfolding value_fuel_def
proof (intro allI impI)
  fix depth n m assume "2 * length s + 1 \<le> n" "2 * length s + 1 \<le> m"
  then obtain n' m' where nm: "n = Suc n'" "m = Suc m'" "2 * length s \<le> n'" "2 * length s \<le> m'"
    by (cases n; cases m) auto
  show "jvalue jnum n depth s = jvalue jnum m depth s"
  proof (cases "skip_ws s")
    case (Cons c t)
    then have t: "length t < length s" by (rule skip_ws_Cons)
    with nm assms [OF t] have "jelems jnum n' d t = jelems jnum m' d t \<and> jmembers jnum n' d t = jmembers jnum m' d t" for d
      unfolding list_fuel_def by simp
    with Cons nm(1,2) show ?thesis by (simp split: list.split)
  qed (simp add: nm)
qed

lemma list_fuelI:
  assumes v: "\<And>t. length t \<le> length s \<Longrightarrow> value_fuel jnum t" and l: "\<And>t. length t < length s \<Longrightarrow> list_fuel jnum t"
  shows "list_fuel jnum s"
  unfolding list_fuel_def
proof (intro allI impI conjI)
  fix depth n m assume "2 * length s + 2 \<le> n" "2 * length s + 2 \<le> m"
  then obtain n' m' where nm: "n = Suc n'" "m = Suc m'" "2 * length s + 1 \<le> n'" "2 * length s + 1 \<le> m'"
    by (cases n; cases m) auto
  have val: "jvalue jnum n' d t = jvalue jnum m' d t" if "length t \<le> length s" for d t
    using v [OF that] nm that unfolding value_fuel_def by simp
  have lst: "jelems jnum n' d t = jelems jnum m' d t" "jmembers jnum n' d t = jmembers jnum m' d t"
    if "length t < length s" for d t
    using l [OF that] nm that unfolding list_fuel_def by simp_all
  show "jelems jnum n depth s = jelems jnum m depth s"
    using val [of s depth]
    by (auto simp: nm(1,2) split: option.split list.split dest!: jvalue_shorter skip_ws_Cons intro!: arg_cong [of _ _ "map_option _"] lst)
  show "jmembers jnum n depth s = jmembers jnum m depth s"
  proof (cases "\<exists>t key b r1. skip_ws s = CHR 0x22 # t \<and> jstring t = Some (key, b) \<and> skip_ws b = CHR '':'' # r1")
    case True
    then obtain t key b r1 where 1: "skip_ws s = CHR 0x22 # t" "jstring t = Some (key, b)" "skip_ws b = CHR '':'' # r1"
      by blast
    have r1: "length r1 < length s"
      using skip_ws_Cons [OF 1(1)] jstring_shorter [OF 1(2)] skip_ws_Cons [OF 1(3)] by simp
    show ?thesis
    proof (cases "jvalue jnum m' depth r1")
      case (Some vr)
      obtain v r2 where vr: "vr = (v, r2)" by force
      from jvalue_shorter [of jnum m' depth r1 v r2] Some vr have r2: "length r2 < length r1" by simp
      show ?thesis
      proof (cases "skip_ws r2")
        case (Cons d u)
        with skip_ws_Cons [OF this] r1 r2 lst(2) [of u depth] val [of r1 depth] Some vr 1
        show ?thesis by (simp add: nm(1,2))
      qed (use val [of r1 depth] Some vr 1 r1 in \<open>simp add: nm(1,2)\<close>)
    qed (use val [of r1 depth] 1 r1 in \<open>simp add: nm(1,2)\<close>)
  next
    case False
    then show ?thesis by (auto simp: nm(1,2) split: option.split list.split)
  qed
qed

lemma json_fuel: "value_fuel jnum s \<and> list_fuel jnum s"
proof (induction "length s" arbitrary: s rule: less_induct)
  case less
  have v: "value_fuel jnum t" if "length t \<le> length s" for t
    by (rule value_fuelI) (use less that in auto)
  with less list_fuelI [of s jnum] show ?case by auto
qed

lemma jvalue_fuel: "2 * length s + 1 \<le> n \<Longrightarrow> jvalue jnum n depth s = jvalue jnum (2 * length s + 2) depth s"
proof -
  assume n: "2 * length s + 1 \<le> n"
  from json_fuel have "value_fuel jnum s" by blast
  moreover have "2 * length s + 1 \<le> 2 * length s + 2" by simp
  ultimately show ?thesis using n unfolding value_fuel_def by blast
qed

end
