(* ===== verification/Jqer.thy ===== *)
theory Jqer
  imports Lexer Json Prelude
begin

text \<open>
  The query evaluator of \<open>third_party/jqer\<close>: the options, the lexer state that cuts a string into
  literal text and \<open>${ ... }\<close> queries, and the evaluation of a query given as a string, a map or a
  list. The query language itself is \<open>github.com/itchyny/gojq\<close>, which is the parameter \<open>gojq\<close>: it
  rejects the text of a query, or gives a function from an input to the values (or the error)
  its iterator yields, the expiry of the ten seconds included. \<open>jnum\<close> is the parameter of the
  JSON decoder.
\<close>

section \<open>Options\<close>

record jqOptions =
  WrapBegin :: string
  WrapLeftSeparator :: string
  WrapRightSeparator :: string

datatype jqOption = WithWrapBegin string | WithWrapLeftSeparator string | WithWrapRightSeparator string

fun applyOption :: "jqOption \<Rightarrow> jqOptions \<Rightarrow> jqOptions" where
  "applyOption (WithWrapBegin wrapBegin) opts = opts\<lparr>WrapBegin := wrapBegin\<rparr>"
| "applyOption (WithWrapLeftSeparator wrapBegin) opts = opts\<lparr>WrapBegin := wrapBegin\<rparr>"
| "applyOption (WithWrapRightSeparator wrapBegin) opts = opts\<lparr>WrapBegin := wrapBegin\<rparr>"

definition loadOptions :: "jqOption list \<Rightarrow> jqOptions" where
  "loadOptions options = fold applyOption options \<lparr>WrapBegin = [], WrapLeftSeparator = [], WrapRightSeparator = []\<rparr>"

definition NewJQ :: "jqOption list \<Rightarrow> jqOptions" where
  "NewJQ options =
     (let o1 = loadOptions options;
          o2 = (if WrapLeftSeparator o1 = [] then o1\<lparr>WrapBegin := ''$''\<rparr> else o1);
          o3 = (if WrapLeftSeparator o2 = [] then o2\<lparr>WrapLeftSeparator := ''{''\<rparr> else o2)
      in if WrapRightSeparator o3 = [] then o3\<lparr>WrapRightSeparator := ''}''\<rparr> else o3)"

definition stdOptions :: jqOptions where
  "stdOptions = \<lparr>WrapBegin = ''$'', WrapLeftSeparator = ''{'', WrapRightSeparator = ''}''\<rparr>"

section \<open>The lexer state\<close>

datatype jqTok = jqStartToken | stringToken | errorToken

text \<open>The loop that reads as many runes as the start separator has bytes.\<close>

fun readSep :: "nat \<Rightarrow> nat \<Rightarrow> string \<Rightarrow> nat \<Rightarrow> jqTok lexer \<Rightarrow> jqTok lexer + string \<times> nat \<times> jqTok lexer" where
  "readSep 0 i src jdxJ l = Inr (src, jdxJ, l)"
| "readSep (Suc k) i src jdxJ l =
     (let (r, l) = Next l in
      if r = EOFRune then Inl (if Current l \<noteq> [] then Emit stringToken l else l)
      else
        let ch = encode_rune (nat r) in
        readSep k (Suc i) (src @ ch) (if ch = ''$'' \<and> 0 < i then i else jdxJ) l)"

definition moveBack :: "nat \<Rightarrow> 'k lexer \<Rightarrow> 'k lexer" where
  "moveBack n l = (Rewind ^^ n) l"

definition moveForward :: "nat \<Rightarrow> 'k lexer \<Rightarrow> 'k lexer" where
  "moveForward n l = ((snd \<circ> Next) ^^ n) l"

text \<open>
  The loop that counts braces: \<open>Inl\<close> when the input ends inside the query, \<open>Inr\<close> in front of the
  closing separator. The options built by \<open>NewJQ\<close> have no empty separator, so the first byte of
  each exists.
\<close>

function braces :: "jqOptions \<Rightarrow> int \<Rightarrow> jqTok lexer \<Rightarrow> jqTok lexer + jqTok lexer" where
  "braces opts open l =
     (let (n, l') = Next l in
      if n = EOFRune then Inl (Emit errorToken l')
      else
        let open = (if n = int (of_char (hd (WrapLeftSeparator opts))) then open + 1
                    else if n = int (of_char (hd (WrapRightSeparator opts))) then open - 1 else open)
        in if open < 0 then Inr (Rewind l') else braces opts open l')"
  by pat_completeness auto
termination
proof (relation "measure (\<lambda>(opts, open, l). length (lx_source l) - lx_position l)")
  fix opts opn0 and l :: "jqTok lexer" and x n l' and opn :: int
  assume "x = Next l" and "(n, l') = x" and "n \<noteq> EOFRune"
  then show "((opts, opn, l'), (opts, opn0, l)) \<in> measure (\<lambda>(opts, open, l). length (lx_source l) - lx_position l)"
    using Next_progress [of l] Next_source(1) [of l] by (cases "Next l") auto
qed simp

declare braces.simps [simp del]

definition jqState :: "jqOptions \<Rightarrow> jqTok lexer \<Rightarrow> bool \<times> jqTok lexer" where
  "jqState opts l =
     (let sepLen = length (WrapBegin opts) + length (WrapLeftSeparator opts) in
      case readSep sepLen 0 [] 0 l of
        Inl l \<Rightarrow> (False, l)
      | Inr (isJX, jdxJ, l) \<Rightarrow>
          if isJX = WrapBegin opts @ WrapLeftSeparator opts then
            let l = moveBack sepLen l;
                l = (if Current l \<noteq> [] then Emit stringToken l else l);
                l = Ignore (moveForward sepLen l)
            in (case braces opts 0 l of
                  Inl l \<Rightarrow> (False, l)
                | Inr l \<Rightarrow> (True, Ignore (moveForward (length (WrapRightSeparator opts)) (Emit jqStartToken l))))
          else if 0 < jdxJ then (True, moveBack (sepLen - jdxJ) l)
          else (True, l))"

section \<open>Evaluation\<close>

datatype jq_error =
    JqMarshal
  | JqUnmarshal
  | JqParse string
  | JqRun string
  | MissingBracket
  | QueryFailed string jq_error
  | QueryNoResults string
  | NoResults
  | MultipleOutputs
  | PartMarshal
  | InKey string jq_error
  | InElement nat jq_error
  | UnexpectedType
  | LexerDiverges

type_synonym gojq = "string \<Rightarrow> string + (gval \<Rightarrow> (string + gval) list)"

text \<open>The loop over the iterator of a query: it stops at the first error.\<close>

fun drain :: "(string + gval) list \<Rightarrow> jq_error + gval list" where
  "drain [] = Inr []"
| "drain (Inl e # vs) = Inl (JqRun e)"
| "drain (Inr v # vs) = map_sum id (Cons v) (drain vs)"

definition doJq :: "(string \<Rightarrow> gval option) \<Rightarrow> gojq \<Rightarrow> gval \<Rightarrow> string \<Rightarrow> jq_error + gval list" where
  "doJq jnum gojq input command =
     (case json_marshal input of
        None \<Rightarrow> Inl JqMarshal
      | Some data \<Rightarrow>
          (case unmarshal jnum data of
             None \<Rightarrow> Inl JqUnmarshal
           | Some x \<Rightarrow>
               (case gojq command of
                  Inl e \<Rightarrow> Inl (JqParse e)
                | Inr query \<Rightarrow> drain (query x))))"

text \<open>The loop of \<open>recurseIntoString\<close> over the tokens it receives.\<close>

fun evalTokens :: "(string \<Rightarrow> gval option) \<Rightarrow> gojq \<Rightarrow> gval \<Rightarrow> jqTok token list \<Rightarrow> jq_error + gval list" where
  "evalTokens jnum gojq data [] = Inr []"
| "evalTokens jnum gojq data (tok # toks) =
     (case tok_Type tok of
        errorToken \<Rightarrow> Inl MissingBracket
      | jqStartToken \<Rightarrow>
          (case doJq jnum gojq data (tok_Value tok) of
             Inl e \<Rightarrow> Inl (QueryFailed (tok_Value tok) e)
           | Inr x \<Rightarrow>
               (case x of
                  [] \<Rightarrow> Inl (QueryNoResults (tok_Value tok))
                | v # vs \<Rightarrow>
                    if v = VNil then Inl (QueryNoResults (tok_Value tok))
                    else if vs = [] then map_sum id (Cons v) (evalTokens jnum gojq data toks)
                    else Inl MultipleOutputs))
      | stringToken \<Rightarrow> map_sum id (Cons (VStr (tok_Value tok))) (evalTokens jnum gojq data toks))"

text \<open>One part of a string put together of several tokens.\<close>

definition partText :: "gval \<Rightarrow> jq_error + string" where
  "partText part = (case part of
     VStr s \<Rightarrow> Inr s
   | _ \<Rightarrow> (case json_marshal part of None \<Rightarrow> Inl PartMarshal | Some d \<Rightarrow> Inr d))"

definition recurseIntoString :: "(string \<Rightarrow> gval option) \<Rightarrow> gojq \<Rightarrow> jqOptions \<Rightarrow> gval \<Rightarrow> string \<Rightarrow>
    jq_error + gval list" where
  "recurseIntoString jnum gojq opts data s =
     (case run (jqState opts) (New (trim_space s)) of
        None \<Rightarrow> Inl LexerDiverges
      | Some l \<Rightarrow>
          (case evalTokens jnum gojq data (lx_tokens l) of
             Inl e \<Rightarrow> Inl e
           | Inr out \<Rightarrow>
               if length out = 1 then Inr out
               else (case traverse partText out of
                       Inl e \<Rightarrow> Inl e
                     | Inr parts \<Rightarrow> Inr [VStr (concat (replicate (length out) [] @ parts))])))"

function recursiveEvaluate :: "(string \<Rightarrow> gval option) \<Rightarrow> gojq \<Rightarrow> jqOptions \<Rightarrow> gval \<Rightarrow> gval \<Rightarrow>
    jq_error + gval list" where
  "recursiveEvaluate jnum gojq opts data VNil = Inr [VNil]"
| "recursiveEvaluate jnum gojq opts data (VBool b) = Inr [VBool b]"
| "recursiveEvaluate jnum gojq opts data (VInt i) = Inr [VInt i]"
| "recursiveEvaluate jnum gojq opts data (VFloat f g) = Inr [VFloat f g]"
| "recursiveEvaluate jnum gojq opts data (VStr s) = recurseIntoString jnum gojq opts data s"
| "recursiveEvaluate jnum gojq opts data (VMap m) =
     map_sum id (\<lambda>results. [VMap results])
       (traverse (\<lambda>(k, v). case recursiveEvaluate jnum gojq opts data v of
                     Inl e \<Rightarrow> Inl (InKey k e)
                   | Inr [x] \<Rightarrow> Inr (k, x)
                   | Inr [] \<Rightarrow> Inl (InKey k NoResults)
                   | Inr _ \<Rightarrow> Inl (InKey k MultipleOutputs))
          (sort_key fst m))"
| "recursiveEvaluate jnum gojq opts data (VSeq q) =
     map_sum id (\<lambda>array. [VSeq array])
       (traverse (\<lambda>(i, v). case recursiveEvaluate jnum gojq opts data v of
                     Inl e \<Rightarrow> Inl (InElement i e)
                   | Inr [x] \<Rightarrow> Inr x
                   | Inr [] \<Rightarrow> Inl (InElement i NoResults)
                   | Inr _ \<Rightarrow> Inl (InElement i MultipleOutputs))
          (enumerate 0 q))"
| "recursiveEvaluate jnum gojq opts data (VTime t u) = Inl UnexpectedType"
| "recursiveEvaluate jnum gojq opts data (VMapI mi) = Inl UnexpectedType"
  by pat_completeness auto
termination
proof (relation "measure (\<lambda>(jnum, gojq, opts, data, q). gsz q)")
  fix m :: "(string \<times> gval) list" and x k v
  assume "x \<in> set (sort_key fst m)" and "(k, v) = x"
  then have "(k, v) \<in> set (mentries (Some m))" by auto
  from gsz_mentries [OF this] show "((a, b, c, d, v), (a, b, c, d, VMap m)) \<in> measure (\<lambda>(jnum, gojq, opts, data, q). gsz q)"
    for a :: "string \<Rightarrow> gval option" and b :: gojq and c :: jqOptions and d :: gval
    by (simp add: msz_def)
next
  fix q :: "gval list" and x i v
  assume "x \<in> set (enumerate 0 q)" and "(i, v) = x"
  then have "v \<in> set (asSlice (VSeq q))" by (auto simp: in_set_enumerate_eq)
  from gsz_asSlice [OF this] show "((a, b, c, d, v), (a, b, c, d, VSeq q)) \<in> measure (\<lambda>(jnum, gojq, opts, data, q). gsz q)"
    for a :: "string \<Rightarrow> gval option" and b :: gojq and c :: jqOptions and d :: gval by simp
qed simp

definition evaluate :: "(string \<Rightarrow> gval option) \<Rightarrow> gojq \<Rightarrow> jqOptions \<Rightarrow> gval \<Rightarrow> gval \<Rightarrow> jq_error + gval list" where
  "evaluate jnum gojq opts data query =
     (if query = VNil then Inr [data] else recursiveEvaluate jnum gojq opts data query)"

text \<open>The two error codes of the package, with the cause of a bad query.\<close>

datatype jq_failure = BadQuery jq_error | NotObject

definition jq :: "(string \<Rightarrow> gval option) \<Rightarrow> gojq \<Rightarrow> jqOptions \<Rightarrow> gval \<Rightarrow> gval \<Rightarrow> jq_failure + gval list" where
  "jq jnum gojq opts input command = map_sum BadQuery id (evaluate jnum gojq opts input command)"

definition One :: "(string \<Rightarrow> gval option) \<Rightarrow> gojq \<Rightarrow> jqOptions \<Rightarrow> gval \<Rightarrow> gval \<Rightarrow> jq_failure + gval" where
  "One jnum gojq opts input command =
     (case jq jnum gojq opts input command of
        Inl e \<Rightarrow> Inl e
      | Inr output \<Rightarrow> if length output \<noteq> 1 then Inl NotObject else Inr (hd output))"

definition Object :: "(string \<Rightarrow> gval option) \<Rightarrow> gojq \<Rightarrow> jqOptions \<Rightarrow> gval \<Rightarrow> gval \<Rightarrow>
    jq_failure + (string \<times> gval) list" where
  "Object jnum gojq opts input command =
     (case One jnum gojq opts input command of
        Inl e \<Rightarrow> Inl e
      | Inr x \<Rightarrow> (case x of VMap m \<Rightarrow> Inr m | _ \<Rightarrow> Inl NotObject))"

end
