(* ===== verification/JqerSpec.thy ===== *)
theory JqerSpec
  imports Jqer
begin

text \<open>
  A reference for the lexer of the query evaluator: a scanner over bytes that cuts a string at
  \<open>${\<close> and at the matching \<open>}\<close>. The lexer, which reads two runes at a time and takes runes back,
  emits exactly its tokens on every byte string, well formed or not.
\<close>

section \<open>The reference scanner\<close>

abbreviation dollar :: char where "dollar \<equiv> CHR ''$''"
abbreviation lbrace :: char where "lbrace \<equiv> CHR ''{''"
abbreviation rbrace :: char where "rbrace \<equiv> CHR ''}''"

definition tok :: "jqTok \<Rightarrow> string \<Rightarrow> jqTok token" where
  "tok k v = \<lparr>tok_Type = k, tok_Value = v\<rparr>"

text \<open>The text up to the brace that closes depth \<open>d\<close>, and what follows that brace.\<close>

fun close :: "nat \<Rightarrow> string \<Rightarrow> (string \<times> string) option" where
  "close d [] = None"
| "close d (c # t) =
     (if c = lbrace then map_option (\<lambda>(q, r). (c # q, r)) (close (Suc d) t)
      else if c = rbrace then
        (case d of 0 \<Rightarrow> Some ([], t) | Suc d' \<Rightarrow> map_option (\<lambda>(q, r). (c # q, r)) (close d' t))
      else map_option (\<lambda>(q, r). (c # q, r)) (close d t))"

lemma close_parts: "close d t = Some (q, r) \<Longrightarrow> t = q @ rbrace # r"
  by (induction d t arbitrary: q rule: close.induct) (auto split: if_splits nat.splits)

definition flush :: "string \<Rightarrow> jqTok token list" where
  "flush acc = (if acc = [] then [] else [tok stringToken acc])"

fun opens :: "string \<Rightarrow> bool" where
  "opens [] = False"
| "opens (c # t) = (c = lbrace)"

lemma opens_iff: "opens t \<longleftrightarrow> (\<exists>u. t = lbrace # u)"
  by (cases t) auto

text \<open>\<open>acc\<close> is the literal text read since the last token.\<close>

function scan :: "string \<Rightarrow> string \<Rightarrow> jqTok token list" where
  "scan acc [] = flush acc"
| "scan acc (c # t) =
     (if c = dollar \<and> opens t then
        flush acc @ (case close 0 (tl t) of
                       None \<Rightarrow> [tok errorToken (tl t)]
                     | Some (q, r) \<Rightarrow> tok jqStartToken q # scan [] r)
      else scan (acc @ [c]) t)"
  by pat_completeness auto
termination
  by (relation "measure (length \<circ> snd)") (auto dest!: close_parts simp: opens_iff)

section \<open>Laws of the scanner\<close>

text \<open>The source, put together again from its tokens.\<close>

definition tokText :: "jqTok token \<Rightarrow> string" where
  "tokText t = (case tok_Type t of
     stringToken \<Rightarrow> tok_Value t
   | jqStartToken \<Rightarrow> dollar # lbrace # tok_Value t @ [rbrace]
   | errorToken \<Rightarrow> dollar # lbrace # tok_Value t)"

lemma tokText_flush: "concat (map tokText (flush acc)) = acc"
  by (simp add: flush_def tok_def tokText_def)

lemma scan_lossless: "concat (map tokText (scan acc s)) = acc @ s"
proof (induction acc s rule: scan.induct)
  case (1 acc)
  then show ?case by (simp add: tokText_flush)
next
  case (2 acc c t)
  then show ?case
    by (auto simp: tokText_flush tok_def tokText_def [of "\<lparr>tok_Type = _, tok_Value = _\<rparr>"] opens_iff split: option.split dest: close_parts)
qed

lemma scan_count: "2 * length (scan acc s) \<le> length acc + length s + 1"
proof (induction acc s rule: scan.induct)
  case (1 acc)
  then show ?case by (cases acc) (simp_all add: flush_def)
next
  case (2 acc c t)
  show ?case
  proof (cases "c = dollar \<and> opens t")
    case True
    then obtain u where u: "t = lbrace # u" by (auto simp: opens_iff)
    have fl: "2 * length (flush acc) \<le> length acc + 1" by (cases acc) (simp_all add: flush_def)
    show ?thesis
    proof (cases "close 0 u")
      case None
      with True u fl show ?thesis by simp
    next
      case (Some qr)
      then obtain q r where c: "close 0 u = Some (q, r)" by (cases qr) auto
      then have "2 * length (scan [] r) \<le> length r + 1" using 2(1) [OF True] u by simp
      moreover from close_parts [OF c] have "length u = length q + length r + 1" by simp
      ultimately show ?thesis using True u c fl by simp
    qed
  next
    case False
    from 2(2) [OF this] False show ?thesis by auto
  qed
qed

lemma scan_plain: "dollar \<notin> set u \<Longrightarrow> scan acc (u @ t) = scan (acc @ u) t"
  by (induction u arbitrary: acc) auto

lemma close_plain:
  "lbrace \<notin> set u \<Longrightarrow> rbrace \<notin> set u \<Longrightarrow> close d (u @ t) = map_option (\<lambda>(q, r). (u @ q, r)) (close d t)"
  by (induction u) (auto simp: option.map_comp comp_def split_def option.map_ident_strong)

section \<open>Runes and bytes\<close>

text \<open>A rune is one ASCII byte, or a block of bytes none of which is ASCII.\<close>

lemma decode_rune_tail:
  assumes "0x80 \<le> (of_char c :: nat)" and "x \<in> set (take (snd (decode_rune (c # t))) (c # t))"
  shows "0x80 \<le> (of_char x :: nat)"
proof -
  let ?b = "of_char c :: nat"
  have one: "\<forall>x\<in>set (take 1 (c # t)). 0x80 \<le> (of_char x :: nat)" using assms(1) by simp
  consider "?b < 0xC2" | "0xC2 \<le> ?b" "?b \<le> 0xDF" | "0xE0 \<le> ?b" "?b \<le> 0xEF"
    | "0xF0 \<le> ?b" "?b \<le> 0xF4" | "0xF4 < ?b" by linarith
  then have "\<forall>x\<in>set (take (snd (decode_rune (c # t))) (c # t)). 0x80 \<le> (of_char x :: nat)"
  proof cases
    case 1
    with assms(1) one show ?thesis by (simp add: decode_rune_def Let_def)
  next
    case 2
    with assms(1) one show ?thesis
      by (cases t) (simp_all add: decode_rune_def Let_def cont_def numeral_2_eq_2)
  next
    case 3
    let ?lo = "if ?b = 0xE0 then 0xA0 else 0x80 :: nat" and ?hi = "if ?b = 0xED then 0x9F else 0xBF :: nat"
    have lo: "0x80 \<le> ?lo" by simp
    have d: "snd (decode_rune (c # t)) = (case t of
        c1 # c2 # _ \<Rightarrow> if cont ?lo ?hi c1 \<and> cont 0x80 0xBF c2 then 3 else 1 | _ \<Rightarrow> 1)"
      using 3 by (simp add: decode_rune_def Let_def split: list.split)
    from lo one assms(1) show ?thesis
      unfolding d by (auto simp: cont_def numeral_3_eq_3 split: list.split)
  next
    case 4
    let ?lo = "if ?b = 0xF0 then 0x90 else 0x80 :: nat" and ?hi = "if ?b = 0xF4 then 0x8F else 0xBF :: nat"
    have lo: "0x80 \<le> ?lo" by simp
    have d: "snd (decode_rune (c # t)) = (case t of
        c1 # c2 # c3 # _ \<Rightarrow> if cont ?lo ?hi c1 \<and> cont 0x80 0xBF c2 \<and> cont 0x80 0xBF c3 then 4 else 1 | _ \<Rightarrow> 1)"
      using 4 by (simp add: decode_rune_def Let_def split: list.split)
    from lo one assms(1) show ?thesis
      unfolding d by (auto simp: cont_def numeral_eq_Suc split: list.split)
  next
    case 5
    with one show ?thesis by (simp add: decode_rune_def Let_def)
  qed
  with assms(2) show ?thesis by blast
qed

lemma rune_cases:
  assumes "s \<noteq> []"
  obtains (ascii) c t where "s = c # t" "(of_char c :: nat) < 0x80" "decode_rune s = (of_char c, 1)"
  | (block) r n where "decode_rune s = (r, n)" "0x80 \<le> r" "\<forall>x\<in>set (take n s). 0x80 \<le> (of_char x :: nat)"
proof -
  obtain c t where s: "s = c # t" using assms by (cases s) auto
  show thesis
  proof (cases "(of_char c :: nat) < 0x80")
    case True
    with s decode_rune_ascii [OF True, of t] show thesis by (intro ascii) simp_all
  next
    case False
    then have c: "0x80 \<le> (of_char c :: nat)" by simp
    obtain r n where d: "decode_rune s = (r, n)" by (cases "decode_rune s")
    with s decode_rune_high [OF c, of t] decode_rune_tail [OF c, of _ t] show thesis by (intro block [OF d]) auto
  qed
qed

lemma rune_shorter: "s \<noteq> [] \<Longrightarrow> decode_rune s = (r, n) \<Longrightarrow> length (drop n s) < length s"
  using decode_rune_width [of s] by auto

lemma encode_rune_ascii: "r < 0x80 \<Longrightarrow> encode_rune r = [char_of r]"
  by (simp add: encode_rune_def)

lemma encode_rune_block: "0x80 \<le> r \<Longrightarrow> 2 \<le> length (encode_rune r)"
  by (simp add: encode_rune_def Let_def)

lemma encode_rune_single:
  assumes "(of_char c :: nat) < 0x80"
  shows "encode_rune r = [c] \<longleftrightarrow> r = of_char c"
proof (cases "r < 0x80")
  case True
  then show ?thesis using assms by (auto simp: encode_rune_ascii char_of_eq_iff take_bit_eq_mod)
next
  case False
  with encode_rune_block [of r] assms show ?thesis by auto
qed

lemma encode_rune_pair: "encode_rune r @ encode_rune r' = [dollar, lbrace] \<longleftrightarrow> r = 36 \<and> r' = 123"
proof
  assume e: "encode_rune r @ encode_rune r' = [dollar, lbrace]"
  have "encode_rune x \<noteq> []" for x using encode_rune_block [of x] by (cases "x < 0x80") (auto simp: encode_rune_ascii)
  with e have "encode_rune r = [dollar]" "encode_rune r' = [lbrace]" by (auto simp: append_eq_Cons_conv)
  with encode_rune_single [of dollar r] encode_rune_single [of lbrace r'] show "r = 36 \<and> r' = 123" by simp
next
  assume "r = 36 \<and> r' = 123"
  with encode_rune_single [of dollar r] encode_rune_single [of lbrace r']
  show "encode_rune r @ encode_rune r' = [dollar, lbrace]" by simp
qed

section \<open>The position of the lexer\<close>

text \<open>The lexer has sent \<open>out\<close>, has \<open>acc\<close> in hand and \<open>s\<close> ahead of it.\<close>

definition at :: "jqTok lexer \<Rightarrow> string \<Rightarrow> string \<Rightarrow> jqTok token list \<Rightarrow> bool" where
  "at l acc s out \<longleftrightarrow>
     (\<exists>pre. lx_source l = pre @ acc @ s \<and> lx_start l = length pre \<and> lx_position l = length pre + length acc)
     \<and> lx_tokens l = out"

lemma at_New: "at (New s) [] s []"
  by (simp add: at_def New_def)

lemma at_Current: "at l acc s out \<Longrightarrow> Current l = acc"
  by (auto simp: at_def Current_def)

lemma at_rest: "at l acc s out \<Longrightarrow> rest l = s"
  by (auto simp: at_def rest_def)

lemma at_EOF: "at l acc [] out \<Longrightarrow> \<exists>l'. Next l = (EOFRune, l') \<and> at l' acc [] out"
  by (frule at_rest) (auto simp: Next_EOF at_def)

lemma at_Next:
  assumes "at l acc s out" and "s \<noteq> []" and "decode_rune s = (r, n)"
  shows "\<exists>l'. Next l = (int r, l') \<and> at l' (acc @ take n s) (drop n s) out \<and> lx_rewind l' = int r # lx_rewind l"
proof -
  have "n \<le> length s" using decode_rune_width [OF assms(2)] assms(3) by simp
  with assms show ?thesis using at_rest [OF assms(1)] Next_rune [of l] by (auto simp: at_def)
qed

lemma at_Rewind:
  assumes "at l (acc @ [c]) s out" and "(of_char c :: nat) < 0x80" and "lx_rewind l = int (of_char c) # st"
  shows "at (Rewind l) acc (c # s) out \<and> lx_rewind (Rewind l) = st"
proof -
  from assms(1) have "lx_start l < lx_position l" by (auto simp: at_def)
  with Rewind_ascii [OF assms(3,2)] assms(1) show ?thesis by (auto simp: at_def)
qed

lemma at_Emit: "at l acc s out \<Longrightarrow> at (Emit k l) [] s (out @ [tok k acc])"
  by (frule at_Current) (auto simp: at_def Emit_def tok_def intro: exI [of _ "_ @ acc"])

lemma at_Ignore: "at l acc s out \<Longrightarrow> at (Ignore l) [] s out"
  by (auto simp: at_def Ignore_def intro: exI [of _ "_ @ acc"])

lemma at_flush: "at l acc s out \<Longrightarrow> at (if Current l \<noteq> [] then Emit stringToken l else l) [] s (out @ flush acc)"
  using at_Emit [of l acc s out stringToken] at_Current [of l acc s out]
  by (cases "acc = []") (simp_all add: flush_def)

lemma at_tokens: "at l acc s out \<Longrightarrow> lx_tokens l = out"
  by (simp add: at_def)

section \<open>Counting braces\<close>

lemma byte_code [simp]:
  "(of_char c :: nat) = 36 \<longleftrightarrow> c = dollar" "(of_char c :: nat) = 123 \<longleftrightarrow> c = lbrace"
  "(of_char c :: nat) = 125 \<longleftrightarrow> c = rbrace"
proof -
  have "(of_char dollar :: nat) = 36" "(of_char lbrace :: nat) = 123" "(of_char rbrace :: nat) = 125" by simp_all
  then show "(of_char c :: nat) = 36 \<longleftrightarrow> c = dollar" "(of_char c :: nat) = 123 \<longleftrightarrow> c = lbrace"
    "(of_char c :: nat) = 125 \<longleftrightarrow> c = rbrace" by (metis of_char_eq_iff)+
qed

text \<open>The end of the counting loop agrees with the result of \<open>close\<close>.\<close>

definition closes :: "jqTok lexer + jqTok lexer \<Rightarrow> string \<Rightarrow> string \<Rightarrow> jqTok token list \<Rightarrow> (string \<times> string) option \<Rightarrow> bool" where
  "closes res acc t out cl \<longleftrightarrow>
     (case cl of
        None \<Rightarrow> \<exists>l'. res = Inl l' \<and> lx_tokens l' = out @ [tok errorToken (acc @ t)]
      | Some (q, r) \<Rightarrow> \<exists>l'. res = Inr l' \<and> at l' (acc @ q) (rbrace # r) out)"

lemma closes_block:
  "closes res (acc @ u) t out cl \<Longrightarrow> closes res acc (u @ t) out (map_option (\<lambda>(q, r). (u @ q, r)) cl)"
  by (auto simp: closes_def split: option.splits)

lemma braces_step:
  assumes "Next l = (n, l')" and "n \<noteq> EOFRune"
  shows "braces stdOptions k l =
    (let k' = (if n = 123 then k + 1 else if n = 125 then k - 1 else k)
     in if k' < 0 then Inr (Rewind l') else braces stdOptions k' l')"
  using assms by (subst braces.simps) (simp add: stdOptions_def)

lemma braces_at:
  assumes "at l acc t out"
  shows "closes (braces stdOptions (int d) l) acc t out (close d t)"
  using assms
proof (induction "length t" arbitrary: t acc l d rule: less_induct)
  case less
  show ?case
  proof (cases "t = []")
    case True
    with at_EOF less.prems obtain l' where "Next l = (EOFRune, l')" "at l' acc [] out" by blast
    with at_Emit [OF this(2), of errorToken] True show ?thesis
      by (auto simp: braces.simps [of _ _ l] closes_def dest: at_tokens)
  next
    case False
    from False show ?thesis
    proof (cases rule: rune_cases)
      case (ascii c u)
      from at_Next [OF less.prems False ascii(3)] ascii(1) obtain l' where
        n: "Next l = (int (of_char c), l')" "at l' (acc @ [c]) u out" "lx_rewind l' = int (of_char c) # lx_rewind l"
        by auto
      have IH: "closes (braces stdOptions (int e) l') acc (c # u) out (map_option (\<lambda>(q, r). (c # q, r)) (close e u))" for e
        using closes_block [of _ acc "[c]" u] less.hyps [OF _ n(2), of e] ascii(1) by simp
      show ?thesis
      proof (cases "c = rbrace \<and> d = 0")
        case True
        with at_Rewind [OF n(2) ascii(2) n(3)] braces_step [OF n(1), of 0] ascii(1) show ?thesis
          by (simp add: closes_def)
      next
        case False
        with IH [of "Suc d"] IH [of "d - 1"] IH [of d] braces_step [OF n(1), of "int d"] ascii(1)
        show ?thesis by (cases d) (auto simp: algebra_simps)
      qed
    next
      case (block r n)
      from at_Next [OF less.prems False block(1)] obtain l' where
        n: "Next l = (int r, l')" "at l' (acc @ take n t) (drop n t) out" by blast
      have sh: "length (drop n t) < length t" by (rule rune_shorter [OF False block(1)])
      have b: "braces stdOptions (int d) l = braces stdOptions (int d) l'"
        using braces_step [OF n(1), of "int d"] block(2) by simp
      have "lbrace \<notin> set (take n t)" "rbrace \<notin> set (take n t)" using block(3) by force+
      from close_plain [OF this, of d "drop n t"]
      have "close d t = map_option (\<lambda>(q, r). (take n t @ q, r)) (close d (drop n t))" by simp
      with closes_block [OF less.hyps [OF sh n(2), of d]] show ?thesis unfolding b by simp
    qed
  qed
qed

section \<open>One state, then all\<close>

lemma moveForward_2: "moveForward 2 l = snd (Next (snd (Next l)))"
  by (simp add: moveForward_def numeral_2_eq_2)

lemma moveBack_2: "moveBack 2 l = Rewind (Rewind l)"
  by (simp add: moveBack_def numeral_2_eq_2)

text \<open>In front of \<open>${\<close>: both runes are read, taken back, and skipped.\<close>

lemma open_at:
  assumes "at l acc (dollar # lbrace # t) out"
  obtains l2 where "Next l = (36, fst (snd (l2 :: jqTok lexer \<times> jqTok lexer \<times> jqTok lexer)))"
    "Next (fst (snd l2)) = (123, snd (snd l2))" "at (moveBack 2 (snd (snd l2))) acc (dollar # lbrace # t) out"
proof -
  obtain l1 where l1: "Next l = (36, l1)" "at l1 (acc @ [dollar]) (lbrace # t) out" "lx_rewind l1 = 36 # lx_rewind l"
    using at_Next [OF assms _ decode_rune_ascii] by auto
  obtain l2 where l2: "Next l1 = (123, l2)" "at l2 ((acc @ [dollar]) @ [lbrace]) t out" "lx_rewind l2 = 123 # lx_rewind l1"
    using at_Next [OF l1(2) _ decode_rune_ascii] by auto
  have r: "at (Rewind l2) (acc @ [dollar]) (lbrace # t) out \<and> lx_rewind (Rewind l2) = lx_rewind l1"
    using at_Rewind [OF l2(2), of "lx_rewind l1"] l2(3) by simp
  with at_Rewind [of "Rewind l2" acc dollar "lbrace # t" out "lx_rewind l"] l1(3)
  have "at (moveBack 2 l2) acc (dollar # lbrace # t) out" by (simp add: moveBack_2)
  with that [of "(l, l1, l2)"] l1(1) l2(1) show thesis by simp
qed

lemma skip_at:
  assumes "at l [] (dollar # lbrace # t) out"
  shows "at (Ignore (moveForward 2 l)) [] t out"
proof -
  obtain l1 where l1: "Next l = (36, l1)" "at l1 [dollar] (lbrace # t) out"
    using at_Next [OF assms _ decode_rune_ascii] by auto
  obtain l2 where "Next l1 = (123, l2)" "at l2 [dollar, lbrace] t out"
    using at_Next [OF l1(2) _ decode_rune_ascii] by auto
  with l1 show ?thesis by (auto simp: moveForward_2 intro: at_Ignore)
qed

text \<open>What one state does: it ends the run with the tokens of the scanner, or goes on nearer the end.\<close>

definition state_ok :: "bool \<times> jqTok lexer \<Rightarrow> string \<Rightarrow> string \<Rightarrow> jqTok token list \<Rightarrow> bool" where
  "state_ok res acc s out \<longleftrightarrow>
     (if fst res then \<exists>acc' s' out'. at (snd res) acc' s' out' \<and> length s' < length s \<and> out' @ scan acc' s' = out @ scan acc s
      else lx_tokens (snd res) = out @ scan acc s)"

lemma state_more:
  "at l acc' s' out' \<Longrightarrow> length s' < length s \<Longrightarrow> out' @ scan acc' s' = out @ scan acc s \<Longrightarrow>
     state_ok (True, l) acc s out"
  by (auto simp: state_ok_def)

lemma readSep_2:
  "readSep 2 0 [] 0 l =
     (let (r, l1) = Next l in
      if r = EOFRune then Inl (if Current l1 \<noteq> [] then Emit stringToken l1 else l1)
      else (let (r', l2) = Next l1 in
        if r' = EOFRune then Inl (if Current l2 \<noteq> [] then Emit stringToken l2 else l2)
        else Inr (encode_rune (nat r) @ encode_rune (nat r'), if encode_rune (nat r') = ''$'' then 1 else 0, l2)))"
  by (simp add: numeral_2_eq_2 Let_def split: prod.split)

lemma stdOptions_sel:
  "WrapBegin stdOptions = ''$''" "WrapLeftSeparator stdOptions = ''{''" "WrapRightSeparator stdOptions = ''}''"
  by (simp_all add: stdOptions_def)

lemma jqState_std:
  "jqState stdOptions l =
     (case readSep 2 0 [] 0 l of
        Inl l \<Rightarrow> (False, l)
      | Inr (isJX, jdxJ, l) \<Rightarrow>
          if isJX = ''${'' then
            let l = moveBack 2 l;
                l = (if Current l \<noteq> [] then Emit stringToken l else l);
                l = Ignore (moveForward 2 l)
            in (case braces stdOptions 0 l of
                  Inl l \<Rightarrow> (False, l)
                | Inr l \<Rightarrow> (True, Ignore (moveForward 1 (Emit jqStartToken l))))
          else if 0 < jdxJ then (True, moveBack (2 - jdxJ) l)
          else (True, l))"
proof -
  have L: "length ''$'' + length ''{'' = 2" "length ''}'' = 1" "''$'' @ ''{'' = ''${''" by simp_all
  show ?thesis unfolding jqState_def stdOptions_sel L Let_def by (rule refl)
qed

lemma state_open:
  assumes "at l acc (dollar # lbrace # t) out"
  shows "state_ok (jqState stdOptions l) acc (dollar # lbrace # t) out"
proof -
  obtain l1 l2 where n: "Next l = (36, l1)" "Next l1 = (123, l2)" "at (moveBack 2 l2) acc (dollar # lbrace # t) out"
    using open_at [OF assms] by metis
  let ?m = "moveBack 2 l2"
  let ?l3 = "Ignore (moveForward 2 (if Current ?m \<noteq> [] then Emit stringToken ?m else ?m))"
  have l3: "at ?l3 [] t (out @ flush acc)" by (rule skip_at [OF at_flush [OF n(3)]])
  have st: "jqState stdOptions l = (case braces stdOptions 0 ?l3 of
      Inl l \<Rightarrow> (False, l) | Inr l \<Rightarrow> (True, Ignore (moveForward 1 (Emit jqStartToken l))))"
    using n encode_rune_pair [of 36 123] by (simp add: jqState_std readSep_2 Let_def)
  from braces_at [OF l3, of 0] have c: "closes (braces stdOptions 0 ?l3) [] t (out @ flush acc) (close 0 t)" by simp
  show ?thesis
  proof (cases "close 0 t")
    case None
    with c obtain l' where "braces stdOptions 0 ?l3 = Inl l'" "lx_tokens l' = (out @ flush acc) @ [tok errorToken t]"
      by (auto simp: closes_def)
    with None show ?thesis unfolding st by (simp add: state_ok_def)
  next
    case (Some qr)
    then obtain q r where qr: "close 0 t = Some (q, r)" by (cases qr) auto
    with c obtain l' where l': "braces stdOptions 0 ?l3 = Inr l'" "at l' q (rbrace # r) (out @ flush acc)"
      by (auto simp: closes_def)
    from at_Next [OF at_Emit [OF l'(2), of jqStartToken] _ decode_rune_ascii] obtain l''
      where "Next (Emit jqStartToken l') = (125, l'')" "at l'' [rbrace] r ((out @ flush acc) @ [tok jqStartToken q])"
      by auto
    then have "at (Ignore (moveForward 1 (Emit jqStartToken l'))) [] r ((out @ flush acc) @ [tok jqStartToken q])"
      by (auto simp: moveForward_def intro: at_Ignore)
    moreover from close_parts [OF qr] have "length r < length (dollar # lbrace # t)" by simp
    ultimately show ?thesis using qr l'(1) unfolding st state_ok_def by fastforce
  qed
qed

definition at_open :: "string \<Rightarrow> bool" where
  "at_open s \<longleftrightarrow> (\<exists>t. s = dollar # lbrace # t)"

lemma scan_skip:
  assumes "s \<noteq> []" and "decode_rune s = (r, n)" and "\<not> at_open s"
  shows "scan acc s = scan (acc @ take n s) (drop n s)"
  using assms(1)
proof (cases rule: rune_cases)
  case (ascii c t)
  with assms show ?thesis by (auto simp: at_open_def opens_iff)
next
  case (block r' n')
  with assms(2) have "dollar \<notin> set (take n s)" by force
  from scan_plain [OF this, of acc "drop n s"] show ?thesis by simp
qed

lemma rune_36: "s \<noteq> [] \<Longrightarrow> decode_rune s = (36, n) \<Longrightarrow> \<exists>t. s = dollar # t \<and> n = 1"
  by (erule rune_cases) auto

lemma rune_123: "s \<noteq> [] \<Longrightarrow> decode_rune s = (123, n) \<Longrightarrow> \<exists>t. s = lbrace # t \<and> n = 1"
  by (erule rune_cases) auto

lemma state_end:
  assumes "at l acc [] out"
  shows "state_ok (jqState stdOptions l) acc [] out"
proof -
  from at_EOF [OF assms] obtain l' where "Next l = (EOFRune, l')" "at l' acc [] out" by blast
  with at_flush [OF this(2)] show ?thesis
    by (auto simp: state_ok_def jqState_std readSep_2 dest: at_tokens split: if_splits)
qed

lemma state_skip:
  assumes l: "at l acc s out" and s: "s \<noteq> []" "\<not> at_open s"
  shows "state_ok (jqState stdOptions l) acc s out"
proof -
  obtain r n where d: "decode_rune s = (r, n)" by (cases "decode_rune s")
  from at_Next [OF l s(1) d] obtain l1 where l1: "Next l = (int r, l1)" "at l1 (acc @ take n s) (drop n s) out" by blast
  note sc = scan_skip [OF s(1) d s(2), of acc] and sh = rune_shorter [OF s(1) d]
  show ?thesis
  proof (cases "drop n s = []")
    case True
    from at_EOF [OF l1(2) [unfolded True]] obtain l2 where "Next l1 = (EOFRune, l2)" "at l2 (acc @ take n s) [] out" by blast
    with at_flush [OF this(2)] l1 show ?thesis unfolding state_ok_def sc True
      by (auto simp: jqState_std readSep_2 dest: at_tokens split: if_splits)
  next
    case False
    obtain r' n' where d': "decode_rune (drop n s) = (r', n')" by (cases "decode_rune (drop n s)")
    from at_Next [OF l1(2) False d'] obtain l2 where l2: "Next l1 = (int r', l2)"
      "at l2 ((acc @ take n s) @ take n' (drop n s)) (drop n' (drop n s)) out" "lx_rewind l2 = int r' # lx_rewind l1" by blast
    have "\<not> (r = 36 \<and> r' = 123)"
      using rune_36 [OF s(1)] rune_123 [OF False] d d' s(2) by (auto simp: at_open_def)
    then have st: "jqState stdOptions l = (True, if r' = 36 then moveBack 1 l2 else l2)"
      using l1(1) l2(1) encode_rune_pair [of r r'] encode_rune_single [of dollar r']
      by (auto simp: jqState_std readSep_2)
    show ?thesis
    proof (cases "r' = 36")
      case True
      with rune_36 [OF False] d' obtain t where t: "drop n s = dollar # t" "n' = 1" by blast
      with at_Rewind [of l2 "acc @ take n s" dollar t out "lx_rewind l1"] l2 True
      have "at (moveBack 1 l2) (acc @ take n s) (drop n s) out" by (simp add: moveBack_def)
      from state_more [OF this sh] show ?thesis by (simp add: st True sc)
    next
      case False': False
      have "\<not> at_open (drop n s)"
        using d' False' decode_rune_ascii [of dollar] by (auto simp: at_open_def)
      with scan_skip [OF False d' this, of "acc @ take n s"] rune_shorter [OF False d'] sh
      show ?thesis by (simp add: st False' state_more [OF l2(2)] sc)
    qed
  qed
qed

lemma jqState_at: "at l acc s out \<Longrightarrow> state_ok (jqState stdOptions l) acc s out"
  using state_end state_open state_skip by (cases "s = []"; cases "at_open s") (auto simp: at_open_def)

lemma run_at:
  assumes "at l acc s out"
  shows "\<exists>l'. run (jqState stdOptions) l = Some l' \<and> lx_tokens l' = out @ scan acc s"
  using assms
proof (induction "length s" arbitrary: s l acc out rule: less_induct)
  case less
  obtain again l1 where st: "jqState stdOptions l = (again, l1)" by force
  with jqState_at [OF less.prems] have ok: "state_ok (again, l1) acc s out" by simp
  show ?case
  proof (cases again)
    case True
    with ok obtain acc' s' out' where "at l1 acc' s' out'" "length s' < length s" "out' @ scan acc' s' = out @ scan acc s"
      by (auto simp: state_ok_def)
    with less.hyps [OF this(2,1)] st True show ?thesis by (subst run.simps) simp
  next
    case False
    with ok st show ?thesis by (subst run.simps) (simp add: state_ok_def)
  qed
qed

section \<open>Properties\<close>

lemma NewJQ_std: "NewJQ options = stdOptions"
proof -
  have "WrapLeftSeparator (fold applyOption options o1) = WrapLeftSeparator o1 \<and>
      WrapRightSeparator (fold applyOption options o1) = WrapRightSeparator o1" for o1 :: jqOptions
  proof (induction options arbitrary: o1)
    case (Cons x options)
    show ?case by (cases x) (simp_all add: Cons)
  qed simp
  then have "WrapLeftSeparator (loadOptions options) = [] \<and> WrapRightSeparator (loadOptions options) = []"
    by (simp add: loadOptions_def)
  then show ?thesis by (simp add: NewJQ_def stdOptions_def Let_def)
qed

text \<open>
  C17: On every byte string and for every list of options, the lexer that the query evaluator starts
  comes to an end, and the tokens it sends are those of the reference scanner: the literal text
  between queries, the text of each \<open>${ ... }\<close> up to its matching brace, and an error token when
  that brace is missing. Nothing of the source is lost: the tokens spell it out again.
\<close>

theorem lexer_is_scanner:
  "\<exists>l. run (jqState (NewJQ options)) (New s) = Some l \<and> lx_tokens l = scan [] s
     \<and> concat (map tokText (lx_tokens l)) = s"
  using run_at [OF at_New, of s] scan_lossless [of "[]" s] unfolding NewJQ_std by auto

text \<open>
  The lexer's goroutine is never left blocked on its channel: the tokens it sends are at most one
  more than the channel buffers, and a receiver that gives up has received at least one.
\<close>

theorem lexer_tokens_fit:
  "\<exists>l. run (jqState (NewJQ options)) (New s) = Some l \<and>
     length (lx_tokens l) \<le> buffSize (New s :: jqTok lexer) + 1"
proof -
  obtain l where l: "run (jqState stdOptions) (New s) = Some l" "lx_tokens l = scan [] s"
    using run_at [OF at_New, of s] by auto
  have "2 * length (scan [] s) \<le> length s + 1" using scan_count [of "[]" s] by simp
  then have "length (lx_tokens l) \<le> buffSize (New s :: jqTok lexer) + 1"
    using l by (auto simp: buffSize_def New_def Let_def)
  with l show ?thesis unfolding NewJQ_std by blast
qed

end
