(* ===== verification/JqerEval.thy ===== *)
theory JqerEval
  imports JqerSpec
begin

text \<open>
  What the query evaluator makes of a string: a literal is itself, a string that is one
  \<open>${ ... }\<close> is the single result of its query, and anything else is the texts of its parts put
  together. The facts rest on the reference scanner, which the lexer implements.
\<close>

section \<open>Tokens of a string\<close>

lemma recurseIntoString_scan:
  "recurseIntoString jnum gojq (NewJQ options) data s =
     (case evalTokens jnum gojq data (scan [] (trim_space s)) of
        Inl e \<Rightarrow> Inl e
      | Inr out \<Rightarrow>
          if length out = 1 then Inr out
          else (case traverse partText out of
                  Inl e \<Rightarrow> Inl e
                | Inr parts \<Rightarrow> Inr [VStr (concat parts)]))"
proof -
  obtain l where l: "run (jqState stdOptions) (New (trim_space s)) = Some l" "lx_tokens l = scan [] (trim_space s)"
    using run_at [OF at_New, of "trim_space s"] by auto
  have "concat (replicate n [] @ ps) = concat ps" for n and ps :: "string list" by (induction n) auto
  with l show ?thesis unfolding NewJQ_std recurseIntoString_def by (simp split: sum.split)
qed

lemma scan_literal: "\<not> sublist ''${'' s \<Longrightarrow> scan acc s = flush (acc @ s)"
proof (induction s arbitrary: acc)
  case (Cons c s)
  then have no: "\<not> sublist ''${'' s" "\<not> (c = dollar \<and> opens s)"
    by (auto simp: sublist_Cons_right opens_iff)
  from no(2) have "scan acc (c # s) = scan (acc @ [c]) s" by (simp only: scan.simps if_False)
  with Cons.IH [OF no(1), of "acc @ [c]"] show ?case by simp
qed simp

lemma partText_VStr [simp]: "partText (VStr s) = Inr s"
  by (simp add: partText_def)

lemma evalTokens_flush [simp]: "evalTokens jnum gojq data (flush acc) = Inr (if acc = [] then [] else [VStr acc])"
  by (simp add: flush_def tok_def)

section \<open>Literals and queries\<close>

lemma One_literal:
  assumes "\<not> sublist ''${'' (trim_space s)"
  shows "One jnum gojq (NewJQ options) data (VStr s) = Inr (VStr (trim_space s))"
  using assms by (simp add: One_def jq_def evaluate_def recurseIntoString_scan scan_literal)

text \<open>The value of one query: exactly one result, which is not null.\<close>

definition queryValue :: "(string \<Rightarrow> gval option) \<Rightarrow> gojq \<Rightarrow> gval \<Rightarrow> string \<Rightarrow> jq_error + gval" where
  "queryValue jnum gojq data q =
     (case doJq jnum gojq data q of
        Inl e \<Rightarrow> Inl (QueryFailed q e)
      | Inr x \<Rightarrow> (case x of
            [] \<Rightarrow> Inl (QueryNoResults q)
          | v # vs \<Rightarrow> if v = VNil then Inl (QueryNoResults q)
                      else if vs = [] then Inr v else Inl MultipleOutputs))"

lemma evalTokens_query:
  "evalTokens jnum gojq data (tok jqStartToken q # toks) =
     (case queryValue jnum gojq data q of
        Inl e \<Rightarrow> Inl e
      | Inr v \<Rightarrow> map_sum id (Cons v) (evalTokens jnum gojq data toks))"
  by (simp add: tok_def queryValue_def split: sum.split list.split)

lemma One_query:
  assumes "trim_space s = dollar # lbrace # t" and "close 0 t = Some (q, [])"
  shows "One jnum gojq (NewJQ options) data (VStr s) = map_sum BadQuery id (queryValue jnum gojq data q)"
proof -
  have "scan [] (trim_space s) = [tok jqStartToken q]" using assms by (simp add: flush_def)
  with evalTokens_query [of jnum gojq data q "[]"]
  have "evalTokens jnum gojq data (scan [] (trim_space s)) = map_sum id (\<lambda>v. [v]) (queryValue jnum gojq data q)"
    by (simp del: evalTokens.simps(2) split: sum.splits)
  then show ?thesis
    by (cases "queryValue jnum gojq data q") (simp_all add: One_def jq_def evaluate_def recurseIntoString_scan)
qed

section \<open>Several parts\<close>

text \<open>The text that a token contributes to a string of several parts.\<close>

definition tokenText :: "(string \<Rightarrow> gval option) \<Rightarrow> gojq \<Rightarrow> gval \<Rightarrow> jqTok token \<Rightarrow> string option" where
  "tokenText jnum gojq data t =
     (case tok_Type t of
        stringToken \<Rightarrow> Some (tok_Value t)
      | errorToken \<Rightarrow> None
      | jqStartToken \<Rightarrow>
          (case queryValue jnum gojq data (tok_Value t) of
             Inl _ \<Rightarrow> None
           | Inr v \<Rightarrow> (case partText v of Inl _ \<Rightarrow> None | Inr s \<Rightarrow> Some s)))"

lemma tok_collapse: "tok (tok_Type t) (tok_Value t) = t"
  by (simp add: tok_def)

lemma evalTokens_texts:
  assumes "those (map (tokenText jnum gojq data) toks) = Some texts"
  shows "\<exists>out. evalTokens jnum gojq data toks = Inr out \<and> length out = length toks \<and> traverse partText out = Inr texts"
  using assms
proof (induction toks arbitrary: texts)
  case (Cons t toks)
  then obtain x xs where x: "tokenText jnum gojq data t = Some x"
      "those (map (tokenText jnum gojq data) toks) = Some xs" "texts = x # xs"
    by (auto split: option.splits)
  from Cons.IH [OF x(2)] obtain out where out: "evalTokens jnum gojq data toks = Inr out"
      "length out = length toks" "traverse partText out = Inr xs" by blast
  show ?case
  proof (cases "tok_Type t")
    case stringToken
    with x out show ?thesis by (simp add: tokenText_def)
  next
    case jqStartToken
    with x(1) obtain v where "queryValue jnum gojq data (tok_Value t) = Inr v" "partText v = Inr x"
      by (auto simp: tokenText_def split: sum.splits)
    with jqStartToken x(3) out evalTokens_query [of jnum gojq data "tok_Value t" toks] show ?thesis
      by (simp add: tok_collapse jqStartToken [symmetric])
  next
    case errorToken
    with x(1) show ?thesis by (simp add: tokenText_def)
  qed
qed simp

text \<open>
  C28: Interpolation. A string is evaluated to the concatenation of what its parts contribute, in
  order: the literal text between queries as it stands, and for each \<open>${ ... }\<close> the single result
  of its query, a string as it is and any other value as JSON. This holds whenever every query
  has one printable result and the string has other than one part; a string of one part is
  the result of the query itself, not its text.
\<close>

theorem One_interpolates:
  assumes "length (scan [] (trim_space s)) \<noteq> 1"
    and "those (map (tokenText jnum gojq data) (scan [] (trim_space s))) = Some texts"
  shows "One jnum gojq (NewJQ options) data (VStr s) = Inr (VStr (concat texts))"
proof -
  from evalTokens_texts [OF assms(2)] obtain out where
    "evalTokens jnum gojq data (scan [] (trim_space s)) = Inr out"
    "length out = length (scan [] (trim_space s))" "traverse partText out = Inr texts" by blast
  with assms(1) show ?thesis
    by (simp add: One_def jq_def evaluate_def recurseIntoString_scan)
qed

theorem One_interpolates_witness:
  "One (\<lambda>t. Some (VInt 7)) (\<lambda>q. Inr (\<lambda>v. [Inr v])) (NewJQ []) (VInt 7) (VStr '' n=${ . }! '') = Inr (VStr ''n=7!'')"
proof -
  have t: "trim_space '' n=${ . }! '' = ''n=${ . }!''" by code_simp
  have s: "scan [] ''n=${ . }!'' = [tok stringToken ''n='', tok jqStartToken '' . '', tok stringToken ''!'']"
    by (simp add: flush_def)
  have d: "doJq (\<lambda>t. Some (VInt 7)) (\<lambda>q. Inr (\<lambda>v. [Inr v])) (VInt 7) '' . '' = Inr [VInt 7]" by code_simp
  have p: "partText (VInt 7) = Inr ''7''" by code_simp
  have "those (map (tokenText (\<lambda>t. Some (VInt 7)) (\<lambda>q. Inr (\<lambda>v. [Inr v])) (VInt 7))
      [tok stringToken ''n='', tok jqStartToken '' . '', tok stringToken ''!'']) = Some [''n='', ''7'', ''!'']"
    using d p by (simp add: tokenText_def tok_def queryValue_def)
  then show ?thesis
    using One_interpolates [of "'' n=${ . }! ''" "\<lambda>t. Some (VInt 7)" "\<lambda>q. Inr (\<lambda>v. [Inr v])" "VInt 7"
        "[''n='', ''7'', ''!'']" "[]"] unfolding t s by simp
qed

end
