(* ===== verification/Config.thy ===== *)
theory Config
  imports Prelude
begin

text \<open>
  \<open>config/config.go\<close>: the configuration of the runtime, kept in a package variable that is nil
  until \<open>Setup\<close> has run. Reading the file and decoding YAML into the structure are the parameters
  \<open>readFile\<close> and \<open>decode\<close>.
\<close>

record config =
  Flow_Queue_Store :: string
  Flow_Queue_Topic :: string
  Flow_Scheduler_Type :: string
  Flow_Scheduler_Interval :: int
  Flow_Selector :: string
  Flow_Protocol :: string
  Catalog_ServerName :: string
  EventMesh_Host :: string
  EventMesh_Env :: string
  EventMesh_IDC :: string
  EventMesh_GRPC_Port :: int
  EventMesh_Sys :: string
  EventMesh_UserName :: string
  EventMesh_Password :: string
  EventMesh_ProducerGroup :: string
  EventMesh_ConsumerGroup :: string
  EventMesh_TTL :: int
  Metrics_EndpointPort :: string

definition zeroConfig :: config where
  "zeroConfig = \<lparr>Flow_Queue_Store = [], Flow_Queue_Topic = [], Flow_Scheduler_Type = [], Flow_Scheduler_Interval = 0,
     Flow_Selector = [], Flow_Protocol = [], Catalog_ServerName = [], EventMesh_Host = [], EventMesh_Env = [],
     EventMesh_IDC = [], EventMesh_GRPC_Port = 0, EventMesh_Sys = [], EventMesh_UserName = [], EventMesh_Password = [],
     EventMesh_ProducerGroup = [], EventMesh_ConsumerGroup = [], EventMesh_TTL = 0, Metrics_EndpointPort = []\<rparr>"

datatype config_error = ReadError string | YamlError string

text \<open>The decoder fills in the structure it is given.\<close>

definition parseConfigFromFile :: "(string \<Rightarrow> string + string) \<Rightarrow> (string \<Rightarrow> config \<Rightarrow> string + config) \<Rightarrow> string \<Rightarrow>
    config_error + config" where
  "parseConfigFromFile readFile decode configPath =
     (case readFile configPath of
        Inl e \<Rightarrow> Inl (ReadError e)
      | Inr buf \<Rightarrow> (case decode buf zeroConfig of Inl e \<Rightarrow> Inl (YamlError e) | Inr c \<Rightarrow> Inr c))"

text \<open>\<open>Setup\<close> assigns the variable before it looks at the error: a failure leaves it nil.\<close>

definition Setup :: "(string \<Rightarrow> string + string) \<Rightarrow> (string \<Rightarrow> config \<Rightarrow> string + config) \<Rightarrow> string \<Rightarrow>
    (config option, config_error, unit) prog" where
  "Setup readFile decode path cfg =
     (case parseConfigFromFile readFile decode path of
        Inl e \<Rightarrow> (Err e, None)
      | Inr c \<Rightarrow> (Ok (), Some c))"

definition Get :: "config option \<Rightarrow> config option" where
  "Get cfg = cfg"

text \<open>The configuration in force when the packages are initialised, before \<open>main\<close> calls \<open>Setup\<close>.\<close>

definition initialConfig :: "config option" where
  "initialConfig = None"

end
