(* ===== verification/Metrics.thy ===== *)
theory Metrics
  imports Config
begin

text \<open>
  \<open>internal/metrics/metrics.go\<close>: the collectors of the runtime. A Go map that was never made is
  \<open>None\<close>: it reads as empty and a write to it panics. Gauge values and latencies are whole numbers
  (the runtime adds and subtracts 1 and lengths), which \<open>float64\<close> holds exactly. The Prometheus
  registry is a parameter: \<open>accepts reg name ty\<close> tells whether \<open>MustRegister\<close> takes a collector
  next to those in \<open>reg\<close>. Serving the endpoint is not modelled beyond the port it would use.
\<close>

section \<open>State\<close>

datatype collector =
    HistogramVec "(string \<times> int list) list"
  | GaugeVec "(string \<times> int) list"

abbreviation (input) histogram :: int where "histogram \<equiv> 0"
abbreviation (input) gauge :: int where "gauge \<equiv> 1"
abbreviation (input) defaultEndPoint :: string where "defaultEndPoint \<equiv> ''19090''"

record metrics =
  m_counters :: "(string \<times> collector) list option"
  m_histograms :: "(string \<times> collector) list option"
  m_gauges :: "(string \<times> collector) list option"
  m_port :: string
  m_registry :: "(string \<times> int) list"

datatype metrics_error = IllegalCollectorType int | FailToLoad string

type_synonym accepts = "(string \<times> int) list \<Rightarrow> string \<Rightarrow> int \<Rightarrow> bool"

definition readMap :: "(string \<times> 'a) list option \<Rightarrow> string \<Rightarrow> 'a option" where
  "readMap m k = (case m of None \<Rightarrow> None | Some es \<Rightarrow> map_of es k)"

section \<open>Collectors\<close>

definition checkMetricsConfig :: "config option \<Rightarrow> bool" where
  "checkMetricsConfig config = (case config of None \<Rightarrow> False | Some c \<Rightarrow> Metrics_EndpointPort c \<noteq> [])"

definition getPrometheusMetricsByConfig :: "config option \<Rightarrow> metrics" where
  "getPrometheusMetricsByConfig config =
     (let port = (if \<not> checkMetricsConfig config then defaultEndPoint else Metrics_EndpointPort (the config)) in
      \<lparr>m_counters = Some [], m_histograms = Some [], m_gauges = None, m_port = port, m_registry = []\<rparr>)"

definition getCollectorByNameAndType :: "metrics \<Rightarrow> string \<Rightarrow> int \<Rightarrow> metrics_error + collector option" where
  "getCollectorByNameAndType p name collectorType =
     (if collectorType = histogram then Inr (readMap (m_histograms p) name)
      else if collectorType = gauge then Inr (readMap (m_gauges p) name)
      else Inl (IllegalCollectorType collectorType))"

definition loadCollector :: "metrics \<Rightarrow> string \<Rightarrow> int \<Rightarrow> metrics_error + collector" where
  "loadCollector p name collectorType =
     (case getCollectorByNameAndType p name collectorType of
        Inl e \<Rightarrow> Inl e
      | Inr (Some c) \<Rightarrow> Inr c
      | Inr None \<Rightarrow> Inl (FailToLoad name))"

definition MustRegister :: "accepts \<Rightarrow> string \<Rightarrow> int \<Rightarrow> (metrics, metrics_error, unit) prog" where
  "MustRegister accepts name ty p =
     (if accepts (m_registry p) name ty then (Ok (), p\<lparr>m_registry := m_registry p @ [(name, ty)]\<rparr>)
      else (Panic ''duplicate metrics collector registration attempted'', p))"

text \<open>\<open>p.histograms[name] = collector\<close> and \<open>p.gauges[name] = collector\<close>.\<close>

definition putHistogram :: "string \<Rightarrow> collector \<Rightarrow> (metrics, metrics_error, unit) prog" where
  "putHistogram name c p =
     (case m_histograms p of
        None \<Rightarrow> (Panic ''assignment to entry in nil map'', p)
      | Some es \<Rightarrow> (Ok (), p\<lparr>m_histograms := Some (AList.update name c es)\<rparr>))"

definition putGauge :: "string \<Rightarrow> collector \<Rightarrow> (metrics, metrics_error, unit) prog" where
  "putGauge name c p =
     (case m_gauges p of
        None \<Rightarrow> (Panic ''assignment to entry in nil map'', p)
      | Some es \<Rightarrow> (Ok (), p\<lparr>m_gauges := Some (AList.update name c es)\<rparr>))"

definition registerNewCollector :: "accepts \<Rightarrow> string \<Rightarrow> int \<Rightarrow> (metrics, metrics_error, collector) prog" where
  "registerNewCollector accepts name collectorType p =
     (case getCollectorByNameAndType p name collectorType of
        Inl e \<Rightarrow> (Err e, p)
      | Inr (Some c) \<Rightarrow> (Ok c, p)
      | Inr None \<Rightarrow>
          if collectorType = histogram then
            bnd (putHistogram name (HistogramVec []))
              (\<lambda>_. bnd (MustRegister accepts name collectorType) (\<lambda>_. ret (HistogramVec []))) p
          else if collectorType = gauge then
            bnd (putGauge name (GaugeVec []))
              (\<lambda>_. bnd (MustRegister accepts name collectorType) (\<lambda>_. ret (GaugeVec []))) p
          else (Panic ''prometheus metrics plugin register collector error, illegal collector type'', p))"

text \<open>An error of \<open>registerNewCollector\<close> is turned into a panic.\<close>

definition mustRegister :: "accepts \<Rightarrow> string \<times> int \<Rightarrow> (metrics, metrics_error, unit) prog" where
  "mustRegister accepts nt p =
     (case registerNewCollector accepts (fst nt) (snd nt) p of
        (Ok _, p') \<Rightarrow> (Ok (), p')
      | (Err e, p') \<Rightarrow> (Panic ''fail to register collector'', p')
      | (Panic s, p') \<Rightarrow> (Panic s, p'))"

fun registerAll :: "accepts \<Rightarrow> (string \<times> int) list \<Rightarrow> (metrics, metrics_error, unit) prog" where
  "registerAll accepts [] = ret ()"
| "registerAll accepts (nt # nts) = bnd (mustRegister accepts nt) (\<lambda>_. registerAll accepts nts)"

definition allCollectors :: "(string \<times> int) list" where
  "allCollectors =
     [(''event_task'', histogram), (''event_task'', gauge),
      (''operation_task'', histogram), (''operation_task'', gauge),
      (''switch_task'', histogram), (''switch_task'', gauge),
      (''scheduler'', histogram), (''scheduler'', gauge),
      (''engine'', histogram), (''engine'', gauge),
      (''task_queue'', histogram), (''task_queue'', gauge)]"

definition loadAllCollectors :: "accepts \<Rightarrow> (metrics, metrics_error, unit) prog" where
  "loadAllCollectors accepts = registerAll accepts allCollectors"

section \<open>Operations\<close>

definition labelValue :: "string \<Rightarrow> (string \<times> int) list \<Rightarrow> int" where
  "labelValue label vs = (case map_of vs label of None \<Rightarrow> 0 | Some v \<Rightarrow> v)"

text \<open>
  The body shared by \<open>Inc\<close>, \<open>Add\<close>, \<open>Sub\<close> and \<open>Dec\<close>: the collector is asserted to be a gauge. A
  collector found in the map is a pointer, so the change is seen by every later reader.
\<close>

definition gaugeAdd :: "string \<Rightarrow> string \<Rightarrow> int \<Rightarrow> (metrics, metrics_error, unit) prog" where
  "gaugeAdd name label val p =
     (case loadCollector p name gauge of
        Inl e \<Rightarrow> (Err e, p)
      | Inr (GaugeVec vs) \<Rightarrow>
          (Ok (), p\<lparr>m_gauges := map_option (AList.update name (GaugeVec (AList.update label (labelValue label vs + val) vs)))
             (m_gauges p)\<rparr>)
      | Inr (HistogramVec _) \<Rightarrow> (Panic ''interface conversion'', p))"

definition Inc :: "string \<Rightarrow> string \<Rightarrow> (metrics, metrics_error, unit) prog" where
  "Inc name label = gaugeAdd name label 1"

definition Add :: "string \<Rightarrow> string \<Rightarrow> int \<Rightarrow> (metrics, metrics_error, unit) prog" where
  "Add name label val = gaugeAdd name label val"

definition Sub :: "string \<Rightarrow> string \<Rightarrow> int \<Rightarrow> (metrics, metrics_error, unit) prog" where
  "Sub name label val = gaugeAdd name label (- val)"

definition Dec :: "string \<Rightarrow> string \<Rightarrow> (metrics, metrics_error, unit) prog" where
  "Dec name label = gaugeAdd name label (- 1)"

definition RecordLatency :: "string \<Rightarrow> string \<Rightarrow> int \<Rightarrow> (metrics, metrics_error, unit) prog" where
  "RecordLatency name label latency p =
     (case loadCollector p name histogram of
        Inl e \<Rightarrow> (Err e, p)
      | Inr (HistogramVec vs) \<Rightarrow>
          (Ok (), p\<lparr>m_histograms := map_option (AList.update name (HistogramVec
              (AList.update label ((case map_of vs label of None \<Rightarrow> [] | Some xs \<Rightarrow> xs) @ [latency]) vs)))
             (m_histograms p)\<rparr>)
      | Inr (GaugeVec _) \<Rightarrow> (Panic ''interface conversion'', p))"

section \<open>Every collector is of the type of its map\<close>

fun isGauge :: "collector \<Rightarrow> bool" where
  "isGauge (GaugeVec _) = True"
| "isGauge (HistogramVec _) = False"

definition metrics_typed :: "metrics \<Rightarrow> bool" where
  "metrics_typed p \<longleftrightarrow>
     (\<forall>k c. readMap (m_gauges p) k = Some c \<longrightarrow> isGauge c) \<and>
     (\<forall>k c. readMap (m_histograms p) k = Some c \<longrightarrow> \<not> isGauge c)"

datatype metricsCall =
    Register string int
  | CInc string string
  | CAdd string string int
  | CSub string string int
  | CDec string string
  | CRecordLatency string string int

fun metricsRun :: "accepts \<Rightarrow> metricsCall \<Rightarrow> (metrics, metrics_error, unit) prog" where
  "metricsRun accepts (Register name ty) = bnd (registerNewCollector accepts name ty) (\<lambda>_. ret ())"
| "metricsRun accepts (CInc name label) = Inc name label"
| "metricsRun accepts (CAdd name label val) = Add name label val"
| "metricsRun accepts (CSub name label val) = Sub name label val"
| "metricsRun accepts (CDec name label) = Dec name label"
| "metricsRun accepts (CRecordLatency name label val) = RecordLatency name label val"

lemma readMap_update [simp]:
  "readMap (map_option (AList.update k v) m) = (if m = None then readMap m else (readMap m)(k \<mapsto> v))"
  "readMap (Some (AList.update k v es)) = (readMap (Some es))(k \<mapsto> v)"
  by (auto simp: readMap_def update_conv' fun_eq_iff split: option.split)

lemma gaugeAdd_typed: "metrics_typed p \<Longrightarrow> metrics_typed (snd (gaugeAdd name label val p))"
  by (auto simp: metrics_typed_def gaugeAdd_def split: sum.split collector.split)

lemma RecordLatency_typed: "metrics_typed p \<Longrightarrow> metrics_typed (snd (RecordLatency name label val p))"
  by (auto simp: metrics_typed_def RecordLatency_def split: sum.split collector.split)

lemma registerNewCollector_typed:
  "metrics_typed p \<Longrightarrow> metrics_typed (snd (registerNewCollector accepts name ty p))"
  by (auto simp: metrics_typed_def registerNewCollector_def bnd_def MustRegister_def putHistogram_def putGauge_def
      split: sum.split option.split)

lemma gaugeAdd_no_panic: "metrics_typed p \<Longrightarrow> gaugeAdd name label val p \<noteq> (Panic s, p')"
  by (fastforce simp: metrics_typed_def gaugeAdd_def loadCollector_def getCollectorByNameAndType_def
      split: sum.splits collector.splits option.splits)

lemma RecordLatency_no_panic: "metrics_typed p \<Longrightarrow> RecordLatency name label val p \<noteq> (Panic s, p')"
  by (fastforce simp: metrics_typed_def RecordLatency_def loadCollector_def getCollectorByNameAndType_def
      split: sum.splits collector.splits option.splits)

lemma bnd_ret_snd: "snd (bnd m (\<lambda>_. ret ()) s) = snd (m s)"
  by (simp add: bnd_def split: prod.split outcome.split)

lemmas metric_ops = Inc_def Add_def Sub_def Dec_def

lemma metricsRun_typed: "metrics_typed p \<Longrightarrow> metrics_typed (snd (metricsRun accepts c p))"
  by (cases c) (simp_all add: metric_ops gaugeAdd_typed RecordLatency_typed registerNewCollector_typed bnd_ret_snd)

text \<open>The collectors after a sequence of calls.\<close>

definition metricsAfter :: "accepts \<Rightarrow> metricsCall list \<Rightarrow> metrics \<Rightarrow> metrics" where
  "metricsAfter accepts calls p = fold (\<lambda>c p. snd (metricsRun accepts c p)) calls p"

lemma metricsAfter_typed: "metrics_typed p \<Longrightarrow> metrics_typed (metricsAfter accepts calls p)"
  unfolding metricsAfter_def by (induction calls arbitrary: p) (simp_all add: metricsRun_typed)

lemma getPrometheusMetricsByConfig_typed: "metrics_typed (getPrometheusMetricsByConfig cfg)"
  by (simp add: getPrometheusMetricsByConfig_def metrics_typed_def readMap_def Let_def)

text \<open>
  The type assertions of the metrics package never fail: from any maps that hold collectors of their own type, those
  that the package makes or others, and after any sequence of registrations and updates, they still
  do, and an update ends with a nil or a non-nil error but no panic.
\<close>

lemma metrics_never_misread:
  assumes "metrics_typed p"
  shows "metrics_typed (metricsAfter accepts calls p) \<and> gaugeAdd name label val (metricsAfter accepts calls p) \<noteq> (Panic s, q) \<and>
    RecordLatency name label val (metricsAfter accepts calls p) \<noteq> (Panic s, q)"
  using metricsAfter_typed [OF assms] gaugeAdd_no_panic RecordLatency_no_panic by blast

section \<open>Gauges count\<close>

text \<open>What a gauge reads for a label; 0 when there is no such gauge.\<close>

definition reading_of :: "metrics \<Rightarrow> string \<Rightarrow> string \<Rightarrow> int" where
  "reading_of p name label =
     (case readMap (m_gauges p) name of Some (GaugeVec vs) \<Rightarrow> labelValue label vs | _ \<Rightarrow> 0)"

lemma gaugeAdd_reading:
  "fst (gaugeAdd name label val p) = Ok () \<Longrightarrow>
     reading_of (snd (gaugeAdd name label val p)) n l = reading_of p n l + (if n = name \<and> l = label then val else 0)"
  by (auto simp: gaugeAdd_def reading_of_def labelValue_def loadCollector_def getCollectorByNameAndType_def
      update_conv' readMap_def split: sum.splits collector.splits option.splits)

lemma gaugeAdd_keeps_registered:
  "(fst (gaugeAdd name label val (snd (gaugeAdd n l v p))) = Ok ()) = (fst (gaugeAdd name label val p) = Ok ())"
  by (auto simp: gaugeAdd_def loadCollector_def getCollectorByNameAndType_def readMap_def
      update_conv' split: sum.splits collector.splits option.splits if_splits)

text \<open>
  The size of a queue, as its gauge shows it, is the number of tasks published less the number
  handled: after \<open>Add\<close> of any number of tasks and one \<open>Dec\<close> per task handled, a registered gauge
  has moved by the difference, and no other gauge and no other label has moved.
\<close>

theorem gauge_counts_difference:
  assumes "fst (gaugeAdd name label 0 p) = Ok ()"
  shows "reading_of (((\<lambda>q. snd (Dec name label q)) ^^ handled) (snd (Add name label (int published) p))) n l =
    reading_of p n l + (if n = name \<and> l = label then int published - int handled else 0)"
proof -
  let ?q = "snd (Add name label (int published) p)"
  have reg: "fst (gaugeAdd name label v (((\<lambda>q. snd (Dec name label q)) ^^ k) ?q)) = Ok ()" for k v
  proof (induction k arbitrary: v)
    case 0
    have "fst (gaugeAdd name label v p) = Ok ()" for v
      using assms by (auto simp: gaugeAdd_def split: sum.splits collector.splits)
    then show ?case by (simp add: Add_def gaugeAdd_keeps_registered)
  next
    case (Suc k)
    then show ?case by (simp add: Dec_def gaugeAdd_keeps_registered)
  qed
  have "fst (gaugeAdd name label (int published) p) = Ok ()"
    using assms by (auto simp: gaugeAdd_def split: sum.splits collector.splits)
  from gaugeAdd_reading [OF this]
  have 0: "reading_of ?q n l = reading_of p n l + (if n = name \<and> l = label then int published else 0)"
    by (simp add: Add_def)
  show ?thesis
  proof (induction handled)
    case 0
    then show ?case using \<open>reading_of ?q n l = _\<close> by simp
  next
    case (Suc k)
    with gaugeAdd_reading [OF reg, of "- 1" k n l] show ?case by (auto simp: Dec_def)
  qed
qed

theorem gauge_counts_difference_witness:
  "reading_of (((\<lambda>q. snd (Dec ''task_queue'' ''x'' q)) ^^ 2)
     (snd (Add ''task_queue'' ''x'' (int 3) \<lparr>m_counters = None, m_histograms = None,
        m_gauges = Some [(''task_queue'', GaugeVec [])], m_port = [], m_registry = []\<rparr>))) ''task_queue'' ''x'' = 1"
proof -
  let ?p = "\<lparr>m_counters = None, m_histograms = None, m_gauges = Some [(''task_queue'', GaugeVec [])],
     m_port = [], m_registry = []\<rparr>"
  have a: "fst (gaugeAdd ''task_queue'' ''x'' 0 ?p) = Ok ()" and r: "reading_of ?p ''task_queue'' ''x'' = 0" by code_simp+
  show ?thesis unfolding gauge_counts_difference [OF a, of 2 3] by (simp add: r)
qed

section \<open>Initialisation\<close>

text \<open>Histograms that are not there yet and that the registry takes are registered, in order.\<close>

definition histograms :: "string list \<Rightarrow> (string \<times> int) list" where
  "histograms ns = map (\<lambda>n. (n, histogram)) ns"

definition taken :: "accepts \<Rightarrow> string list \<Rightarrow> bool" where
  "taken accepts ns \<longleftrightarrow> distinct ns \<and> (\<forall>i<length ns. accepts (histograms (take i ns)) (ns ! i) histogram)"

definition withHistograms :: "string list \<Rightarrow> metrics \<Rightarrow> metrics" where
  "withHistograms ns p = p\<lparr>m_histograms := Some (map (\<lambda>n. (n, HistogramVec [])) ns), m_registry := histograms ns\<rparr>"

lemma update_new: "n \<notin> fst ` set es \<Longrightarrow> AList.update n c es = es @ [(n, c)]"
  by (induction es) auto

lemma register_histogram:
  assumes "n \<notin> set pre" and "accepts (histograms pre) n histogram"
  shows "mustRegister accepts (n, histogram) (withHistograms pre p) = (Ok (), withHistograms (pre @ [n]) p)"
proof -
  have "map_of (map (\<lambda>n. (n, HistogramVec [])) pre) n = None" using assms(1) by (simp add: map_of_eq_None_iff image_image)
  moreover have "AList.update n (HistogramVec []) (map (\<lambda>n. (n, HistogramVec [])) pre) = map (\<lambda>n. (n, HistogramVec [])) (pre @ [n])"
    using assms(1) by (simp add: update_new image_image)
  ultimately show ?thesis using assms(2)
    by (simp add: mustRegister_def registerNewCollector_def getCollectorByNameAndType_def readMap_def putHistogram_def MustRegister_def
        bnd_def ret_def withHistograms_def histograms_def)
qed

lemma register_histograms:
  assumes "taken accepts (pre @ ns)"
  shows "registerAll accepts (histograms ns @ nts) (withHistograms pre p) = registerAll accepts nts (withHistograms (pre @ ns) p)"
  using assms
proof (induction ns arbitrary: pre)
  case (Cons n ns)
  then have "n \<notin> set pre" "accepts (histograms pre) n histogram"
    by (auto simp: taken_def dest!: spec [of _ "length pre"])
  then have "mustRegister accepts (n, histogram) (withHistograms pre p) = (Ok (), withHistograms (pre @ [n]) p)"
    by (rule register_histogram)
  with Cons.IH [of "pre @ [n]"] Cons.prems show ?case by (simp add: histograms_def bnd_def)
qed (simp add: histograms_def)

lemma register_gauge: "m_gauges p = None \<Longrightarrow> mustRegister accepts (g, gauge) p = (Panic ''assignment to entry in nil map'', p)"
  by (simp add: mustRegister_def registerNewCollector_def getCollectorByNameAndType_def readMap_def putGauge_def bnd_def)

text \<open>
  C35: A gauge cannot be registered. The constructor makes the maps of counters and histograms but not the map of gauges. So
  with the collectors it builds, for every configuration, any number of new histograms that the registry takes are
  registered, one after the other and with nothing else changed, and the first gauge after them ends in the panic of an
  assignment to a nil map, whatever is to be registered after it.
\<close>

theorem first_gauge_panics:
  assumes "distinct ns" and "\<forall>i<length ns. accepts (map (\<lambda>n. (n, histogram)) (take i ns)) (ns ! i) histogram"
  shows "registerAll accepts (map (\<lambda>n. (n, histogram)) ns @ (g, gauge) # rest) (getPrometheusMetricsByConfig cfg) =
    (Panic ''assignment to entry in nil map'', (getPrometheusMetricsByConfig cfg)\<lparr>
       m_histograms := Some (map (\<lambda>n. (n, HistogramVec [])) ns), m_registry := map (\<lambda>n. (n, histogram)) ns\<rparr>)"
proof -
  let ?p = "getPrometheusMetricsByConfig cfg"
  have "taken accepts ([] @ ns)" using assms by (simp add: taken_def histograms_def)
  from register_histograms [OF this, of "(g, gauge) # rest" ?p]
  have "registerAll accepts (histograms ns @ (g, gauge) # rest) (withHistograms [] ?p) = registerAll accepts ((g, gauge) # rest) (withHistograms ns ?p)"
    by simp
  moreover have "withHistograms [] ?p = ?p" "m_gauges (withHistograms ns ?p) = None"
    by (simp_all add: withHistograms_def histograms_def getPrometheusMetricsByConfig_def Let_def)
  ultimately show ?thesis using register_gauge [of "withHistograms ns ?p"] by (simp add: histograms_def withHistograms_def bnd_def)
qed

text \<open>A registry that refuses a name it has, as that of Prometheus does.\<close>

definition fresh_names :: accepts where
  "fresh_names reg name ty \<longleftrightarrow> name \<notin> fst ` set reg"

theorem first_gauge_panics_witness:
  "loadAllCollectors fresh_names (getPrometheusMetricsByConfig initialConfig) =
     (Panic ''assignment to entry in nil map'', (getPrometheusMetricsByConfig initialConfig)\<lparr>
        m_histograms := Some [(''event_task'', HistogramVec [])], m_registry := [(''event_task'', histogram)]\<rparr>)"
proof -
  let ?ns = "[''event_task'']"
  have all: "allCollectors = map (\<lambda>n. (n, histogram)) ?ns @ (''event_task'', gauge) # drop 2 allCollectors"
    by (simp add: allCollectors_def)
  have "registerAll fresh_names (map (\<lambda>n. (n, histogram)) ?ns @ (''event_task'', gauge) # drop 2 allCollectors)
      (getPrometheusMetricsByConfig initialConfig) =
    (Panic ''assignment to entry in nil map'', (getPrometheusMetricsByConfig initialConfig)\<lparr>
       m_histograms := Some (map (\<lambda>n. (n, HistogramVec [])) ?ns), m_registry := map (\<lambda>n. (n, histogram)) ?ns\<rparr>)"
    by (rule first_gauge_panics) (simp_all add: fresh_names_def)
  from this [folded all] show ?thesis unfolding loadAllCollectors_def list.map .
qed

text \<open>
  Making the map of gauges would not be enough: the histogram and the gauge of one component have the same
  name, and a registry that refuses a name it already has makes \<open>MustRegister\<close> panic.
\<close>

lemma gauge_names_clash:
  assumes "\<And>reg ty ty'. (n, ty') \<in> set reg \<Longrightarrow> \<not> accepts reg n ty"
    and "readMap (m_gauges p) n = None" and "m_gauges p \<noteq> None" and "(n, histogram) \<in> set (m_registry p)"
  shows "fst (mustRegister accepts (n, gauge) p) = Panic ''duplicate metrics collector registration attempted''"
  using assms(1) [OF assms(4)] assms(2,3)
  by (auto simp: mustRegister_def registerNewCollector_def getCollectorByNameAndType_def putGauge_def bnd_def MustRegister_def)

text \<open>What the initialisation of the package comes to.\<close>

lemma loadAllCollectors_panics:
  "\<exists>p. loadAllCollectors accepts (getPrometheusMetricsByConfig cfg) =
     (Panic (if accepts [] ''event_task'' histogram then ''assignment to entry in nil map''
             else ''duplicate metrics collector registration attempted''), p) \<and> m_gauges p = None"
proof -
  obtain port where p: "getPrometheusMetricsByConfig cfg =
      \<lparr>m_counters = Some [], m_histograms = Some [], m_gauges = None, m_port = port, m_registry = []\<rparr>"
    by (simp add: getPrometheusMetricsByConfig_def Let_def)
  show ?thesis
    unfolding p loadAllCollectors_def allCollectors_def
    by (simp add: mustRegister_def registerNewCollector_def getCollectorByNameAndType_def readMap_def
        putHistogram_def putGauge_def MustRegister_def bnd_def)
qed

end
