(* ===== verification/DataFilter.thy ===== *)
theory DataFilter
  imports JqerEval Model
begin

text \<open>
  \<open>internal/filter/data_filter.go\<close>: the filters on the input and the output of a task. A filter is
  a query over the JSON text of the data; an error leaves the data as it is.
\<close>

section \<open>The filters\<close>

datatype filter_error = FilterJson | FilterQuery jq_failure | FilterMarshal

definition normalizeFilterExpression :: "string \<Rightarrow> string" where
  "normalizeFilterExpression filterJson =
     (let trimmed = trim_space filterJson in
      if prefix ''${'' trimmed then filterJson else ''${ '' @ trimmed @ '' }'')"

definition filterJsonData :: "(string \<Rightarrow> gval option) \<Rightarrow> gojq \<Rightarrow> string \<Rightarrow> string \<Rightarrow> filter_error + string" where
  "filterJsonData jnum gojq filterJson inputDataJson =
     (case unmarshal jnum inputDataJson of
        None \<Rightarrow> Inl FilterJson
      | Some jsonObj \<Rightarrow>
          (case Object jnum gojq (NewJQ []) jsonObj (VStr (normalizeFilterExpression filterJson)) of
             Inl e \<Rightarrow> Inl (FilterQuery e)
           | Inr r \<Rightarrow> (case json_marshal (VMap r) of None \<Rightarrow> Inl FilterMarshal | Some d \<Rightarrow> Inr d)))"

definition FilterWorkflowTaskOutputData :: "(string \<Rightarrow> gval option) \<Rightarrow> gojq \<Rightarrow> string \<Rightarrow> string \<Rightarrow> string" where
  "FilterWorkflowTaskOutputData jnum gojq input outputFilter =
     (if outputFilter = [] \<or> input = [] then input
      else (case filterJsonData jnum gojq outputFilter input of Inl _ \<Rightarrow> input | Inr d \<Rightarrow> d))"

text \<open>\<open>None\<close> for the instance is the nil pointer; an instance without its task is a nil dereference.\<close>

definition FilterWorkflowTaskInputData :: "(string \<Rightarrow> gval option) \<Rightarrow> gojq \<Rightarrow> mWorkflowTaskInstance option \<Rightarrow>
    (filter_error, mWorkflowTaskInstance option) outcome" where
  "FilterWorkflowTaskInputData jnum gojq task =
     (case task of
        None \<Rightarrow> Ok None
      | Some ti \<Rightarrow>
          if ti_Input ti = [] then Ok (Some ti)
          else (case ti_Task ti of
                  None \<Rightarrow> Panic ''nil pointer dereference''
                | Some t \<Rightarrow>
                    if t_TaskInputFilter t = [] then Ok (Some ti)
                    else (case filterJsonData jnum gojq (t_TaskInputFilter t) (ti_Input ti) of
                            Inl _ \<Rightarrow> Ok (Some ti)
                          | Inr d \<Rightarrow> Ok (Some (ti\<lparr>ti_Input := d\<rparr>)))))"

section \<open>What a filter computes\<close>

text \<open>The braces of a query match: the first brace that closes more than it opens is the one after it.\<close>

definition balanced :: "string \<Rightarrow> bool" where
  "balanced q \<longleftrightarrow> close 0 (q @ ''}'') = Some (q, [])"

lemma close_snoc:
  assumes "close d (u @ ''}'') = Some (u, [])" and "c \<noteq> lbrace" and "c \<noteq> rbrace"
  shows "close d (u @ c # ''}'') = Some (u @ [c], [])"
  using assms
proof (induction u arbitrary: d)
  case Nil
  then show ?case by (cases d) auto
next
  case (Cons x u)
  show ?case
  proof (cases "x = rbrace")
    case True
    with Cons show ?thesis by (cases d) auto
  next
    case False
    with Cons show ?thesis by (cases "x = lbrace") auto
  qed
qed

lemma balanced_pad:
  assumes "balanced q"
  shows "close 0 (CHR '' '' # q @ '' }'') = Some (CHR '' '' # q @ '' '', [])"
  using close_snoc [of 0 q "CHR '' ''"] assms by (simp add: balanced_def)

text \<open>Text without braces is balanced.\<close>

lemma balanced_plain: "lbrace \<notin> set q \<Longrightarrow> rbrace \<notin> set q \<Longrightarrow> balanced q"
  by (simp add: balanced_def close_plain)

lemma lead_char: "s \<noteq> [] \<Longrightarrow> hd s \<notin> hd ` set ws \<Longrightarrow> [] \<notin> set ws \<Longrightarrow> lead ws s = None"
  by (cases s) (auto simp: lead_def find_None_iff prefix_def image_iff neq_Nil_conv append_eq_Cons_conv)

lemma trim_wrapped: "trim_space (dollar # s @ [rbrace]) = dollar # s @ [rbrace]"
  by (rule trim_space_id) (rule lead_char; simp add: spaces_def)+

text \<open>A filter as the runtime stores it: without the wrapper, and with matching braces.\<close>

definition plainFilter :: "string \<Rightarrow> bool" where
  "plainFilter f \<longleftrightarrow> \<not> prefix ''${'' (trim_space f) \<and> balanced (trim_space f)"

lemma filter_query:
  assumes "plainFilter f"
  shows "One jnum gojq (NewJQ options) data (VStr (normalizeFilterExpression f)) =
    map_sum BadQuery id (queryValue jnum gojq data ('' '' @ trim_space f @ '' ''))"
proof (rule One_query)
  have "normalizeFilterExpression f = dollar # (''{ '' @ trim_space f @ '' '') @ [rbrace]"
    using assms by (simp add: normalizeFilterExpression_def plainFilter_def)
  then show "trim_space (normalizeFilterExpression f) = dollar # lbrace # '' '' @ trim_space f @ '' }''"
    using trim_wrapped [of "''{ '' @ trim_space f @ '' ''"] by simp
  show "close 0 ('' '' @ trim_space f @ '' }'') = Some ('' '' @ trim_space f @ '' '', [])"
    using balanced_pad [of "trim_space f"] assms by (simp add: plainFilter_def)
qed

text \<open>The reference: the JSON object that the query yields for the decoded data.\<close>

definition filtered :: "(string \<Rightarrow> gval option) \<Rightarrow> gojq \<Rightarrow> string \<Rightarrow> string \<Rightarrow> string option" where
  "filtered jnum gojq q input =
     (case unmarshal jnum input of
        None \<Rightarrow> None
      | Some x \<Rightarrow> (case queryValue jnum gojq x q of Inr (VMap m) \<Rightarrow> json_marshal (VMap m) | _ \<Rightarrow> None))"

lemma filterJsonData_filtered:
  assumes "plainFilter f"
  shows "(case filterJsonData jnum gojq f input of Inl _ \<Rightarrow> None | Inr d \<Rightarrow> Some d) =
    filtered jnum gojq ('' '' @ trim_space f @ '' '') input"
proof (cases "unmarshal jnum input")
  case (Some x)
  show ?thesis
  proof (cases "queryValue jnum gojq x ('' '' @ trim_space f @ '' '')")
    case (Inr v)
    with Some filter_query [OF assms] show ?thesis
      by (cases v) (simp_all add: filterJsonData_def filtered_def Object_def split: option.split)
  qed (use Some filter_query [OF assms] in \<open>simp add: filterJsonData_def filtered_def Object_def\<close>)
qed (simp add: filterJsonData_def filtered_def)

text \<open>
  C29: An output filter as the store keeps it (no \<open>${ }\<close> around it, braces matching) is applied as a
  query: the data is replaced by the JSON text of the one object the query yields for the
  decoded data, and stays as it is when the data is not JSON, when the query fails or yields no,
  several or a null result, and when the result is not an object.
\<close>

theorem output_filter_is_query:
  assumes "plainFilter f"
  shows "FilterWorkflowTaskOutputData jnum gojq input f =
    (if f = [] \<or> input = [] then input
     else (case filtered jnum gojq ('' '' @ trim_space f @ '' '') input of None \<Rightarrow> input | Some d \<Rightarrow> d))"
  using filterJsonData_filtered [OF assms, of jnum gojq input]
  by (auto simp: FilterWorkflowTaskOutputData_def split: sum.splits option.splits)

theorem output_filter_is_query_witness:
  "FilterWorkflowTaskOutputData (\<lambda>t. None) (\<lambda>q. Inr (\<lambda>v. [Inr (VMap [(''k'', v)])])) ''true'' ''{k: .}''
     = ''{'' @ [CHR 0x22] @ ''k'' @ [CHR 0x22] @ '':true}''"
proof -
  have p: "plainFilter ''{k: .}''" by code_simp
  have f: "filtered (\<lambda>t. None) (\<lambda>q. Inr (\<lambda>v. [Inr (VMap [(''k'', v)])])) ('' '' @ trim_space ''{k: .}'' @ '' '') ''true''
    = Some (''{'' @ [CHR 0x22] @ ''k'' @ [CHR 0x22] @ '':true}'')" by code_simp
  show ?thesis using output_filter_is_query [OF p, of "\<lambda>t. None" "\<lambda>q. Inr (\<lambda>v. [Inr (VMap [(''k'', v)])])" "''true''"]
    unfolding f by simp
qed

text \<open>
  The input filter never stops a task: on an instance that carries its task it returns the
  instance with at most its input changed, and the new input is the JSON text of an object.
\<close>

theorem input_filter_total:
  assumes "ti_Task ti \<noteq> None"
  shows "\<exists>ti'. FilterWorkflowTaskInputData jnum gojq (Some ti) = Ok (Some ti') \<and>
    (ti' = ti \<or> (\<exists>m d. json_marshal (VMap m) = Some d \<and> ti' = ti\<lparr>ti_Input := d\<rparr>))"
proof -
  obtain t where t: "ti_Task ti = Some t" using assms by blast
  show ?thesis
  proof (cases "filterJsonData jnum gojq (t_TaskInputFilter t) (ti_Input ti)")
    case (Inl e)
    with t show ?thesis by (simp add: FilterWorkflowTaskInputData_def)
  next
    case (Inr d)
    then obtain m where "json_marshal (VMap m) = Some d"
      by (auto simp: filterJsonData_def simp del: json_marshal.simps split: option.splits sum.splits)
    with t Inr show ?thesis
      by (cases "ti_Input ti = [] \<or> t_TaskInputFilter t = []") (auto simp: FilterWorkflowTaskInputData_def simp del: json_marshal.simps)
  qed
qed

theorem input_filter_total_witness:
  "\<exists>ti'. FilterWorkflowTaskInputData (\<lambda>t. None) (\<lambda>q. Inl ''bad'')
     (Some (zeroTaskInstance\<lparr>ti_Input := ''true'', ti_Task := Some (zeroTask\<lparr>t_TaskInputFilter := ''.''\<rparr>)\<rparr>)) = Ok (Some ti')"
  using input_filter_total [of "zeroTaskInstance\<lparr>ti_Input := ''true'', ti_Task := Some (zeroTask\<lparr>t_TaskInputFilter := ''.''\<rparr>)\<rparr>"
      "\<lambda>t. None" "\<lambda>q. Inl ''bad''"] by auto

end
