(* ===== verification/Runtime.thy ===== *)
theory Runtime
  imports Dal Metrics DataFilter
begin

text \<open>
  The world in which the runtime executes: the database, the tasks and messages in flight, the
  collectors, and how many identifiers, clock readings and outside calls have been used up. Code
  that is not part of the sources is the record of parameters \<open>env\<close>; the answer of an outside call may
  depend on how many such calls came before, so it may change from one call to the next.
\<close>

section \<open>The world\<close>

text \<open>A message of EventMesh, as the SDK's \<open>SimpleMessage\<close>.\<close>

record simpleMessage =
  sm_ProducerGroup :: string
  sm_Topic :: string
  sm_Content :: string
  sm_Ttl :: string
  sm_UniqueId :: string
  sm_SeqNum :: string
  sm_Properties :: "(string \<times> string) list"

text \<open>
  \<open>wd_queue\<close>: the tasks sent to the channel of the in-memory queue and not yet handled, oldest
  first (a nil pointer is \<open>None\<close>); \<open>wd_topic\<close>: the messages on the topic of the EventMesh queue;
  \<open>wd_events\<close>: the events that EventMesh has accepted.
\<close>

record 'db world =
  wd_db :: 'db
  wd_uuids :: nat
  wd_ticks :: nat
  wd_calls :: nat
  wd_metrics :: metrics
  wd_queue :: "mWorkflowTaskInstance option list"
  wd_topic :: "simpleMessage list"
  wd_events :: "simpleMessage list"

datatype a2a_error =
    A2AMarshal
  | A2AHttp string
  | A2AStatus string int string
  | A2ADecode
  | A2ASendFailed a2a_error
  | A2ATaskError string
  | A2APollError string
  | A2ATaskFailed string
  | A2ATimedOut string nat

datatype run_error =
    DalError dal_error
  | JsonError
  | MarshalFailed
  | QueryError jq_failure
  | ParseBoolError string
  | NamingNotRegistered
  | SelectFailed string
  | CatalogNotRunning
  | BadAddress string
  | DialFailed string
  | QueryOperationsFailed string
  | OperationInvalid string
  | MeshClientFailed string
  | MeshPublishFailed string
  | MeshRejected string string
  | DurationInvalid string
  | Raised string
  | A2AFailed a2a_error
  | WorkflowNotExists

type_synonym ('db, 'a) rt = "('db world, run_error, 'a) prog"

section \<open>Parameters\<close>

text \<open>An operation of the EventMesh catalog.\<close>

record operation =
  op_Type :: string
  op_ChannelName :: string
  op_Schema :: string

datatype observeQueue = InMemoryQueue | EventMeshQueue

text \<open>
  \<open>ev_store\<close>, \<open>ev_sched\<close>, \<open>ev_uuid\<close>, \<open>ev_clock\<close>, \<open>ev_jnum\<close> and \<open>ev_gojq\<close> are the parameters of the
  components below; \<open>ev_gstr\<close> is \<open>gconv.String\<close>. \<open>ev_config\<close> is the configuration, \<open>ev_queueStore\<close> and
  \<open>ev_serverName\<close> the two entries read from the configuration of the server library. The naming service,
  the catalog, the EventMesh client and HTTP are outside calls. \<open>ev_timeText\<close> and \<open>ev_timeParse\<close> print
  and read an instant in the JSON of a row, \<open>ev_rfc3339\<close> prints one to the second.
\<close>

record 'db env =
  ev_store :: "'db gorm"
  ev_sched :: "nat \<Rightarrow> nat list"
  ev_uuid :: "nat \<Rightarrow> string"
  ev_clock :: "nat \<Rightarrow> time"
  ev_jnum :: "string \<Rightarrow> gval option"
  ev_gojq :: gojq
  ev_gstr :: "gval \<Rightarrow> string"
  ev_timeText :: "time \<Rightarrow> string"
  ev_timeParse :: "string \<Rightarrow> time option"
  ev_rfc3339 :: "time \<Rightarrow> string"
  ev_config :: config
  ev_queueStore :: string
  ev_serverName :: string
  ev_queues :: "(string \<times> observeQueue) list"
  ev_naming :: "string \<Rightarrow> bool"
  ev_select :: "nat \<Rightarrow> string \<Rightarrow> string + string option"
  ev_dial :: "nat \<Rightarrow> string \<Rightarrow> string option"
  ev_operations :: "nat \<Rightarrow> string \<Rightarrow> string \<Rightarrow> string + operation list"
  ev_meshNew :: "nat \<Rightarrow> config \<Rightarrow> string option"
  ev_meshPublish :: "nat \<Rightarrow> simpleMessage \<Rightarrow> string + string \<times> string"
  ev_post :: "nat \<Rightarrow> string \<Rightarrow> string \<Rightarrow> string + int \<times> string"
  ev_get :: "nat \<Rightarrow> string \<Rightarrow> string + int \<times> string"

section \<open>Steps of the world\<close>

definition dalRun :: "('db, dal_error, 'a) prog \<Rightarrow> ('db, 'a) rt" where
  "dalRun p w =
     (case p (wd_db w) of
        (Ok x, db) \<Rightarrow> (Ok x, w\<lparr>wd_db := db\<rparr>)
      | (Err e, db) \<Rightarrow> (Err (DalError e), w\<lparr>wd_db := db\<rparr>)
      | (Panic s, db) \<Rightarrow> (Panic s, w\<lparr>wd_db := db\<rparr>))"

definition dalRead :: "('db \<Rightarrow> dal_error + 'a) \<Rightarrow> ('db, 'a) rt" where
  "dalRead f w = (case f (wd_db w) of Inl e \<Rightarrow> (Err (DalError e), w) | Inr x \<Rightarrow> (Ok x, w))"

definition newUUID :: "'db env \<Rightarrow> ('db, string) rt" where
  "newUUID env w = (Ok (ev_uuid env (wd_uuids w)), w\<lparr>wd_uuids := Suc (wd_uuids w)\<rparr>)"

definition timeNow :: "'db env \<Rightarrow> ('db, time) rt" where
  "timeNow env w = (Ok (ev_clock env (wd_ticks w)), w\<lparr>wd_ticks := Suc (wd_ticks w)\<rparr>)"

definition outside :: "(nat \<Rightarrow> 'a) \<Rightarrow> ('db, 'a) rt" where
  "outside f w = (Ok (f (wd_calls w)), w\<lparr>wd_calls := Suc (wd_calls w)\<rparr>)"

text \<open>A call of the metrics package whose error is dropped.\<close>

definition metric :: "(metrics, metrics_error, unit) prog \<Rightarrow> ('db, unit) rt" where
  "metric m w =
     (case m (wd_metrics w) of
        (Panic s, p) \<Rightarrow> (Panic s, w\<lparr>wd_metrics := p\<rparr>)
      | (_, p) \<Rightarrow> (Ok (), w\<lparr>wd_metrics := p\<rparr>))"

text \<open>The operations of the data access layer, with the clock readings they take.\<close>

definition insertInstance :: "'db env \<Rightarrow> mWorkflowInstance \<Rightarrow> ('db, unit) rt" where
  "insertInstance env r = bnd (timeNow env) (\<lambda>now. dalRun (InsertInstance (ev_store env) now r))"

definition insertTaskInstance :: "'db env \<Rightarrow> mWorkflowTaskInstance \<Rightarrow> ('db, unit) rt" where
  "insertTaskInstance env r = bnd (timeNow env) (\<lambda>now. dalRun (InsertTaskInstance (ev_store env) now r))"

definition updateInstance :: "'db env \<Rightarrow> mWorkflowInstance \<Rightarrow> ('db, unit) rt" where
  "updateInstance env r = bnd (timeNow env) (\<lambda>now. dalRun (UpdateInstance (ev_store env) now r))"

definition updateTaskInstance :: "'db env \<Rightarrow> mWorkflowTaskInstance \<Rightarrow> ('db, unit) rt" where
  "updateTaskInstance env r = bnd (timeNow env) (\<lambda>now. dalRun (UpdateTaskInstance (ev_store env) now r))"

text \<open>An error that is only logged.\<close>

definition logged :: "('db, 'a) rt \<Rightarrow> ('db, unit) rt" where
  "logged p w = (case p w of (Ok _, w') \<Rightarrow> (Ok (), w') | (Err _, w') \<Rightarrow> (Ok (), w') | (Panic s, w') \<Rightarrow> (Panic s, w'))"

definition failIf :: "string option \<Rightarrow> (string \<Rightarrow> run_error) \<Rightarrow> ('db, unit) rt" where
  "failIf e f = (case e of None \<Rightarrow> ret () | Some s \<Rightarrow> fail (f s))"

definition ofSum :: "'e + 'a \<Rightarrow> ('e \<Rightarrow> run_error) \<Rightarrow> ('db, 'a) rt" where
  "ofSum r f = (case r of Inl e \<Rightarrow> fail (f e) | Inr x \<Rightarrow> ret x)"

text \<open>
  Step rules: the result of each step on a world, for symbolic execution of the programs below.
\<close>

named_theorems rt_simps

lemma bnd_apply [rt_simps]:
  "bnd m f w = (case m w of (Ok x, w') \<Rightarrow> f x w' | (Err e, w') \<Rightarrow> (Err e, w') | (Panic s, w') \<Rightarrow> (Panic s, w'))"
  by (simp add: bnd_def)

lemmas step_defs [rt_simps] = newUUID_def timeNow_def outside_def failIf_def ofSum_def

section \<open>What a program may change\<close>

text \<open>
  \<open>keeps f p\<close>: the program leaves the part of the world that \<open>f\<close> shows as it is, however it ends.
\<close>

definition keeps :: "('s \<Rightarrow> 'v) \<Rightarrow> ('s, 'e, 'a) prog \<Rightarrow> bool" where
  "keeps f p \<longleftrightarrow> (\<forall>w. f (snd (p w)) = f w)"

lemma keepsI: "(\<And>w. f (snd (p w)) = f w) \<Longrightarrow> keeps f p"
  by (simp add: keeps_def)

lemma keepsD: "keeps f p \<Longrightarrow> p w = (r, w') \<Longrightarrow> f w' = f w"
  by (metis keeps_def snd_conv)

named_theorems keeps_intros

lemma keeps_ret [keeps_intros]: "keeps f (ret x)"
  by (simp add: keeps_def)

lemma keeps_Pair [keeps_intros]: "keeps f (Pair r)"
  by (simp add: keeps_def)

lemma keeps_fail [keeps_intros]: "keeps f (fail e)"
  by (simp add: keeps_def)

lemma keeps_bnd [keeps_intros]: "keeps f m \<Longrightarrow> (\<And>x. keeps f (k x)) \<Longrightarrow> keeps f (bnd m k)"
  by (simp add: keeps_def bnd_def split: prod.split outcome.split) (metis snd_conv)

lemma keeps_if [keeps_intros]: "keeps f p \<Longrightarrow> keeps f q \<Longrightarrow> keeps f (if b then p else q)"
  by simp

lemma keeps_option [keeps_intros]: "keeps f p \<Longrightarrow> (\<And>x. keeps f (q x)) \<Longrightarrow> keeps f (case v of None \<Rightarrow> p | Some x \<Rightarrow> q x)"
  by (cases v) simp_all

lemma keeps_sum [keeps_intros]: "(\<And>e. keeps f (p e)) \<Longrightarrow> (\<And>x. keeps f (q x)) \<Longrightarrow> keeps f (case v of Inl e \<Rightarrow> p e | Inr x \<Rightarrow> q x)"
  by (cases v) simp_all

lemma keeps_ofSum [keeps_intros]: "keeps f (ofSum r e)"
  by (auto simp: ofSum_def intro: keeps_intros)

lemma keeps_failIf [keeps_intros]: "keeps f (failIf r e)"
  by (auto simp: failIf_def intro: keeps_intros)

lemma keeps_logged [keeps_intros]: "keeps f p \<Longrightarrow> keeps f (logged p)"
  by (auto simp: keeps_def logged_def split: prod.split outcome.split) (metis snd_conv)+

text \<open>The parts of the world that each step leaves alone.\<close>

lemma keeps_steps [keeps_intros]:
  "keeps wd_db (newUUID env)" "keeps wd_queue (newUUID env)" "keeps wd_topic (newUUID env)" "keeps wd_events (newUUID env)"
  "keeps wd_db (timeNow env)" "keeps wd_queue (timeNow env)" "keeps wd_topic (timeNow env)" "keeps wd_events (timeNow env)"
  "keeps wd_uuids (timeNow env)"
  "keeps wd_db (outside g)" "keeps wd_queue (outside g)" "keeps wd_topic (outside g)" "keeps wd_events (outside g)"
  "keeps wd_uuids (outside g)"
  by (simp_all add: keeps_def newUUID_def timeNow_def outside_def)

lemma keeps_metric [keeps_intros]:
  "keeps wd_db (metric m)" "keeps wd_queue (metric m)" "keeps wd_topic (metric m)" "keeps wd_events (metric m)"
  "keeps wd_uuids (metric m)" "keeps wd_ticks (metric m)" "keeps wd_calls (metric m)"
  by (simp_all add: keeps_def metric_def split: prod.split outcome.split)

lemma keeps_dalRun [keeps_intros]:
  "keeps wd_queue (dalRun p)" "keeps wd_topic (dalRun p)" "keeps wd_events (dalRun p)" "keeps wd_uuids (dalRun p)"
  by (simp_all add: keeps_def dalRun_def split: prod.split outcome.split)

lemma keeps_dalRead [keeps_intros]: "keeps f (dalRead g)"
  by (simp add: keeps_def dalRead_def split: sum.split)

lemma keeps_dal_ops [keeps_intros]:
  "keeps wd_queue (insertInstance env i)" "keeps wd_topic (insertInstance env i)" "keeps wd_events (insertInstance env i)"
  "keeps wd_queue (insertTaskInstance env t)" "keeps wd_topic (insertTaskInstance env t)" "keeps wd_events (insertTaskInstance env t)"
  "keeps wd_queue (updateInstance env i)" "keeps wd_topic (updateInstance env i)" "keeps wd_events (updateInstance env i)"
  "keeps wd_queue (updateTaskInstance env t)" "keeps wd_topic (updateTaskInstance env t)" "keeps wd_events (updateTaskInstance env t)"
  unfolding insertInstance_def insertTaskInstance_def updateInstance_def updateTaskInstance_def
  by (intro keeps_intros)+

end
