(* ===== verification/Protocol.thy ===== *)
theory Protocol
  imports Runtime
begin

text \<open>
  \<open>internal/protocol\<close>: publishing an event through a named protocol. Only \<open>meshmessage\<close> registers
  itself; a name that is not registered gives a nil interface, on which the call panics.
\<close>

datatype message = MeshMessage

definition messageBuilder :: "(string \<times> message) list" where
  "messageBuilder = [(''meshmessage'', MeshMessage)]"

definition Builder :: "string \<Rightarrow> message option" where
  "Builder protocol = map_of messageBuilder protocol"

definition deliver :: "simpleMessage \<Rightarrow> ('db, unit) rt" where
  "deliver m w = (Ok (), w\<lparr>wd_events := wd_events w @ [m]\<rparr>)"

definition MeshMessage_Publish :: "'db env \<Rightarrow> string \<Rightarrow> string \<Rightarrow> (string \<times> string) list \<Rightarrow> ('db, unit) rt" where
  "MeshMessage_Publish env topic content properties =
     (let cfg = ev_config env in
      bnd (outside (\<lambda>n. ev_meshNew env n cfg)) (\<lambda>err.
      bnd (failIf err MeshClientFailed) (\<lambda>_.
      bnd (newUUID env) (\<lambda>uniqueId.
      bnd (newUUID env) (\<lambda>seqNum.
      let message = \<lparr>sm_ProducerGroup = EventMesh_ProducerGroup cfg, sm_Topic = topic, sm_Content = content,
             sm_Ttl = ev_gstr env (VInt (EventMesh_TTL cfg)), sm_UniqueId = uniqueId, sm_SeqNum = seqNum,
             sm_Properties = properties\<rparr> in
      bnd (outside (\<lambda>n. ev_meshPublish env n message)) (\<lambda>r.
      bnd (ofSum r MeshPublishFailed) (\<lambda>(code, msg).
      if code \<noteq> ''0'' then fail (MeshRejected code msg) else deliver message)))))))"

definition Publish :: "'db env \<Rightarrow> message option \<Rightarrow> string \<Rightarrow> string \<Rightarrow> (string \<times> string) list \<Rightarrow> ('db, unit) rt" where
  "Publish env m topic content properties =
     (case m of
        None \<Rightarrow> (\<lambda>w. (Panic ''nil pointer dereference'', w))
      | Some MeshMessage \<Rightarrow> MeshMessage_Publish env topic content properties)"

lemma keeps_panic [keeps_intros]: "keeps f (\<lambda>w. (Panic s, w))"
  by (simp add: keeps_def)

lemma keeps_deliver [keeps_intros]:
  "keeps wd_db (deliver m)" "keeps wd_queue (deliver m)" "keeps wd_topic (deliver m)" "keeps wd_uuids (deliver m)"
  by (simp_all add: keeps_def deliver_def)

lemma keeps_prod [keeps_intros]: "(\<And>a b. keeps f (p a b)) \<Longrightarrow> keeps f (case v of (a, b) \<Rightarrow> p a b)"
  by (cases v) simp

lemma keeps_Publish [keeps_intros]:
  "keeps wd_db (Publish env m topic content props)" "keeps wd_queue (Publish env m topic content props)"
  "keeps wd_topic (Publish env m topic content props)"
  by (cases m; cases "the m"; simp add: Publish_def MeshMessage_Publish_def Let_def; intro keeps_intros)+

text \<open>An event counts as published only when EventMesh answered with code 0, and then exactly once.\<close>

lemma Publish_effect:
  assumes "Publish env m topic content props w = (r, w')"
  shows "(r = Ok () \<and> (\<exists>msg. wd_events w' = wd_events w @ [msg] \<and> sm_Topic msg = topic \<and>
             sm_Content msg = content \<and> sm_Properties msg = props))
    \<or> (r \<noteq> Ok () \<and> wd_events w' = wd_events w)"
  using assms
  by (auto simp: Publish_def MeshMessage_Publish_def Let_def rt_simps deliver_def fail_def
      split: option.splits message.splits sum.splits if_splits)

end
