(* ===== verification/JsonStruct.thy ===== *)
theory JsonStruct
  imports Json Model
begin

text \<open>
  JSON of Go structures, as \<open>encoding/json\<close> writes and reads it: an object whose members are the
  tagged fields in the order of the structure; on reading, a member sets the field its name
  matches (letter case does not matter), a null leaves it alone, an unknown member is skipped and a
  value of the wrong kind is an error.
\<close>

section \<open>Writing\<close>

definition json_obj :: "(string \<times> string) list \<Rightarrow> string" where
  "json_obj fs = ''{'' @ join '','' (map (\<lambda>(k, v). json_quote k @ '':'' @ v) fs) @ ''}''"

definition json_list :: "string list \<Rightarrow> string" where
  "json_list vs = ''['' @ join '','' vs @ '']''"

definition json_bool :: "bool \<Rightarrow> string" where
  "json_bool b = (if b then ''true'' else ''false'')"

section \<open>Reading\<close>

text \<open>Numbers are kept as their texts until the kind of the field is known.\<close>

definition literal :: "string \<Rightarrow> gval option" where
  "literal t = Some (VFloat t None)"

fun digits_val :: "nat \<Rightarrow> string \<Rightarrow> nat option" where
  "digits_val acc [] = Some acc"
| "digits_val acc (c # t) = (if is_digit c then digits_val (acc * 10 + (of_char c - 48)) t else None)"

text \<open>\<open>strconv.ParseInt(s, 10, 64)\<close> on the text of a JSON number.\<close>

definition parseInt64 :: "string \<Rightarrow> int option" where
  "parseInt64 s =
     (let (neg, ds) = (case s of c # t \<Rightarrow> if c = CHR ''-'' then (True, t) else (False, s) | [] \<Rightarrow> (False, s)) in
      case (if ds = [] then None else digits_val 0 ds) of
        None \<Rightarrow> None
      | Some n \<Rightarrow>
          (let i = (if neg then - int n else int n) in
           if - (2 ^ 63) \<le> i \<and> i < 2 ^ 63 then Some i else None))"

text \<open>Names are compared after folding: ASCII letters, the Kelvin sign and the long s.\<close>

fun fold_name :: "string \<Rightarrow> string" where
  "fold_name [] = []"
| "fold_name (c # s) =
     (if c = CHR 0xE2 \<and> take 2 s = [CHR 0x84, CHR 0xAA] then CHR ''k'' # fold_name (drop 2 s)
      else if c = CHR 0xC5 \<and> take 1 s = [CHR 0xBF] then CHR ''s'' # fold_name (drop 1 s)
      else lower_char c # fold_name s)"

type_synonym 's field = "gval \<Rightarrow> 's \<Rightarrow> 's option"

definition dStr :: "(string \<Rightarrow> 's \<Rightarrow> 's) \<Rightarrow> 's field" where
  "dStr assign v s = (case v of VNil \<Rightarrow> Some s | VStr x \<Rightarrow> Some (assign x s) | _ \<Rightarrow> None)"

definition dInt :: "(int \<Rightarrow> 's \<Rightarrow> 's) \<Rightarrow> 's field" where
  "dInt assign v s = (case v of VNil \<Rightarrow> Some s | VFloat t _ \<Rightarrow> map_option (\<lambda>i. assign i s) (parseInt64 t) | _ \<Rightarrow> None)"

definition dBool :: "(bool \<Rightarrow> 's \<Rightarrow> 's) \<Rightarrow> 's field" where
  "dBool assign v s = (case v of VNil \<Rightarrow> Some s | VBool b \<Rightarrow> Some (assign b s) | _ \<Rightarrow> None)"

text \<open>A type with its own reader of strings, such as \<open>time.Time\<close>.\<close>

definition dText :: "(string \<Rightarrow> 'a option) \<Rightarrow> ('a \<Rightarrow> 's \<Rightarrow> 's) \<Rightarrow> 's field" where
  "dText parse assign v s = (case v of VNil \<Rightarrow> Some s | VStr x \<Rightarrow> map_option (\<lambda>a. assign a s) (parse x) | _ \<Rightarrow> None)"

fun dMembers :: "(string \<times> 's field) list \<Rightarrow> (string \<times> gval) list \<Rightarrow> 's \<Rightarrow> 's option" where
  "dMembers fs [] s = Some s"
| "dMembers fs ((k, v) # es) s =
     (case map_of fs (fold_name k) of
        None \<Rightarrow> dMembers fs es s
      | Some d \<Rightarrow> (case d v s of None \<Rightarrow> None | Some s' \<Rightarrow> dMembers fs es s'))"

definition dObj :: "(string \<times> 's field) list \<Rightarrow> 's field" where
  "dObj fs v s = (case v of VNil \<Rightarrow> Some s | VMap es \<Rightarrow> dMembers fs es s | _ \<Rightarrow> None)"

text \<open>A nested structure, a pointer to one (null is nil), and a slice of them.\<close>

definition dSub :: "'a field \<Rightarrow> ('s \<Rightarrow> 'a) \<Rightarrow> ('a \<Rightarrow> 's \<Rightarrow> 's) \<Rightarrow> 's field" where
  "dSub d get assign v s = map_option (\<lambda>a. assign a s) (d v (get s))"

definition dPtr :: "'a field \<Rightarrow> 'a \<Rightarrow> ('s \<Rightarrow> 'a option) \<Rightarrow> ('a option \<Rightarrow> 's \<Rightarrow> 's) \<Rightarrow> 's field" where
  "dPtr d zero get assign v s =
     (case v of
        VNil \<Rightarrow> Some (assign None s)
      | _ \<Rightarrow> map_option (\<lambda>a. assign (Some a) s) (d v (case get s of None \<Rightarrow> zero | Some a \<Rightarrow> a)))"

definition dList :: "'a field \<Rightarrow> 'a \<Rightarrow> ('a list \<Rightarrow> 's \<Rightarrow> 's) \<Rightarrow> 's field" where
  "dList d zero assign v s =
     (case v of
        VNil \<Rightarrow> Some (assign [] s)
      | VSeq xs \<Rightarrow> map_option (\<lambda>as. assign as s) (those (map (\<lambda>x. d x zero) xs))
      | _ \<Rightarrow> None)"

definition unmarshalTo :: "'s field \<Rightarrow> 's \<Rightarrow> string \<Rightarrow> 's option" where
  "unmarshalTo d zero content = (case unmarshal literal content of None \<Rightarrow> None | Some v \<Rightarrow> d v zero)"

end
