(* ===== verification/Queue.thy ===== *)
theory Queue
  imports Protocol JsonStruct
begin

text \<open>
  \<open>internal/queue\<close>: the registry of queues, the in-memory queue and the queue over EventMesh. A
  publisher hands tasks over and an observer writes each of them to the store. The contract the
  other components rely on is the locale \<open>observe_queue\<close>, which both queues satisfy.
\<close>

section \<open>The registry\<close>

fun Name :: "observeQueue \<Rightarrow> string" where
  "Name InMemoryQueue = QueueTypeInMemory"
| "Name EventMeshQueue = QueueTypeEventMesh"

definition RegisterQueue :: "observeQueue \<Rightarrow> (string \<times> observeQueue) list \<Rightarrow> (string \<times> observeQueue) list" where
  "RegisterQueue q queueFactory = AList.update (Name q) q queueFactory"

definition GetQueue :: "(string \<times> observeQueue) list \<Rightarrow> string \<Rightarrow> observeQueue option" where
  "GetQueue queueFactory name = map_of queueFactory name"

text \<open>The initialisers of the package, given the configuration they see.\<close>

definition init_eventmesh :: "config option \<Rightarrow> (string \<times> observeQueue) list \<Rightarrow> (string \<times> observeQueue) list" where
  "init_eventmesh cfg queueFactory =
     (case Get cfg of
        None \<Rightarrow> queueFactory
      | Some c \<Rightarrow> if Flow_Queue_Store c = QueueTypeEventMesh then RegisterQueue EventMeshQueue queueFactory
                  else queueFactory)"

definition init_in_memory :: "(string \<times> observeQueue) list \<Rightarrow> (string \<times> observeQueue) list" where
  "init_in_memory queueFactory = RegisterQueue InMemoryQueue queueFactory"

definition initQueues :: "config option \<Rightarrow> (string \<times> observeQueue) list" where
  "initQueues cfg = init_in_memory (init_eventmesh cfg [])"

section \<open>The in-memory queue\<close>

abbreviation (input) queueSizeOf :: "observeQueue \<Rightarrow> string" where
  "queueSizeOf q \<equiv> Name q @ ''_queue_size''"

definition send :: "mWorkflowTaskInstance option list \<Rightarrow> ('db, unit) rt" where
  "send ts w = (Ok (), w\<lparr>wd_queue := wd_queue w @ ts\<rparr>)"

definition inMemory_Publish :: "'db env \<Rightarrow> mWorkflowTaskInstance option list \<Rightarrow> ('db, unit) rt" where
  "inMemory_Publish env tasks =
     (if tasks = [] then ret ()
      else bnd (metric (Add ''task_queue'' (queueSizeOf InMemoryQueue) (int (length tasks)))) (\<lambda>_. send tasks))"

definition inMemory_handle :: "'db env \<Rightarrow> mWorkflowTaskInstance option \<Rightarrow> ('db, unit) rt" where
  "inMemory_handle env item =
     (case item of
        None \<Rightarrow> (\<lambda>w. (Panic ''nil pointer dereference'', w))
      | Some v \<Rightarrow>
          if ti_ID v \<noteq> 0 then logged (updateTaskInstance env v)
          else logged (insertTaskInstance env v))"

text \<open>One turn of the loop of \<open>Observe\<close>; nothing happens while the channel is empty.\<close>

definition inMemory_Observe :: "'db env \<Rightarrow> ('db, unit) rt" where
  "inMemory_Observe env w =
     (case wd_queue w of
        [] \<Rightarrow> (Ok (), w)
      | item # items \<Rightarrow>
          bnd (metric (Dec ''task_queue'' (queueSizeOf InMemoryQueue))) (\<lambda>_. inMemory_handle env item)
            (w\<lparr>wd_queue := items\<rparr>))"

section \<open>The queue over EventMesh\<close>

definition taskJson :: "'db env \<Rightarrow> mWorkflowTask \<Rightarrow> string" where
  "taskJson env t = json_obj
     [(''id'', show_int (t_ID t)), (''workflow_id'', json_quote (t_WorkflowID t)), (''task_id'', json_quote (t_TaskID t)),
      (''task_name'', json_quote (t_TaskName t)), (''task_type'', json_quote (t_TaskType t)),
      (''task_input_filter'', json_quote (t_TaskInputFilter t)), (''task_output_filter'', json_quote (t_TaskOutputFilter t)),
      (''task_definition'', json_quote (t_TaskDefinition t)), (''status'', show_int (t_Status t)),
      (''create_time'', json_quote (ev_timeText env (t_CreateTime t))),
      (''update_time'', json_quote (ev_timeText env (t_UpdateTime t))),
      (''workflow_instance_id'', json_quote (t_WorkflowInstanceID t))]"

definition taskInstanceJson :: "'db env \<Rightarrow> mWorkflowTaskInstance \<Rightarrow> string" where
  "taskInstanceJson env t = json_obj
     [(''id'', show_int (ti_ID t)), (''workflow_instance_id'', json_quote (ti_WorkflowInstanceID t)),
      (''workflow_id'', json_quote (ti_WorkflowID t)), (''task_id'', json_quote (ti_TaskID t)),
      (''task_instance_id'', json_quote (ti_TaskInstanceID t)), (''status'', show_int (ti_Status t)),
      (''input'', json_quote (ti_Input t)), (''retry_times'', show_int (ti_RetryTimes t)),
      (''create_time'', json_quote (ev_timeText env (ti_CreateTime t))),
      (''update_time'', json_quote (ev_timeText env (ti_UpdateTime t))),
      (''task'', case ti_Task t of None \<Rightarrow> ''null'' | Some k \<Rightarrow> taskJson env k),
      (''order'', json_quote (ti_Order t)), (''is_start'', json_bool (ti_IsStart t))]"

definition taskFields :: "'db env \<Rightarrow> (string \<times> mWorkflowTask field) list" where
  "taskFields env =
     [(''id'', dInt (\<lambda>x s. s\<lparr>t_ID := x\<rparr>)), (''workflow_id'', dStr (\<lambda>x s. s\<lparr>t_WorkflowID := x\<rparr>)),
      (''task_id'', dStr (\<lambda>x s. s\<lparr>t_TaskID := x\<rparr>)), (''task_name'', dStr (\<lambda>x s. s\<lparr>t_TaskName := x\<rparr>)),
      (''task_type'', dStr (\<lambda>x s. s\<lparr>t_TaskType := x\<rparr>)),
      (''task_input_filter'', dStr (\<lambda>x s. s\<lparr>t_TaskInputFilter := x\<rparr>)),
      (''task_output_filter'', dStr (\<lambda>x s. s\<lparr>t_TaskOutputFilter := x\<rparr>)),
      (''task_definition'', dStr (\<lambda>x s. s\<lparr>t_TaskDefinition := x\<rparr>)), (''status'', dInt (\<lambda>x s. s\<lparr>t_Status := x\<rparr>)),
      (''create_time'', dText (ev_timeParse env) (\<lambda>x s. s\<lparr>t_CreateTime := x\<rparr>)),
      (''update_time'', dText (ev_timeParse env) (\<lambda>x s. s\<lparr>t_UpdateTime := x\<rparr>)),
      (''workflow_instance_id'', dStr (\<lambda>x s. s\<lparr>t_WorkflowInstanceID := x\<rparr>))]"

definition taskInstanceFields :: "'db env \<Rightarrow> (string \<times> mWorkflowTaskInstance field) list" where
  "taskInstanceFields env =
     [(''id'', dInt (\<lambda>x s. s\<lparr>ti_ID := x\<rparr>)), (''workflow_instance_id'', dStr (\<lambda>x s. s\<lparr>ti_WorkflowInstanceID := x\<rparr>)),
      (''workflow_id'', dStr (\<lambda>x s. s\<lparr>ti_WorkflowID := x\<rparr>)), (''task_id'', dStr (\<lambda>x s. s\<lparr>ti_TaskID := x\<rparr>)),
      (''task_instance_id'', dStr (\<lambda>x s. s\<lparr>ti_TaskInstanceID := x\<rparr>)), (''status'', dInt (\<lambda>x s. s\<lparr>ti_Status := x\<rparr>)),
      (''input'', dStr (\<lambda>x s. s\<lparr>ti_Input := x\<rparr>)), (''retry_times'', dInt (\<lambda>x s. s\<lparr>ti_RetryTimes := x\<rparr>)),
      (''create_time'', dText (ev_timeParse env) (\<lambda>x s. s\<lparr>ti_CreateTime := x\<rparr>)),
      (''update_time'', dText (ev_timeParse env) (\<lambda>x s. s\<lparr>ti_UpdateTime := x\<rparr>)),
      (''task'', dPtr (dObj (taskFields env)) zeroTask ti_Task (\<lambda>x s. s\<lparr>ti_Task := x\<rparr>)),
      (''order'', dStr (\<lambda>x s. s\<lparr>ti_Order := x\<rparr>)), (''is_start'', dBool (\<lambda>x s. s\<lparr>ti_IsStart := x\<rparr>))]"

definition toEventMeshMessage :: "'db env \<Rightarrow> mWorkflowTaskInstance \<Rightarrow> ('db, simpleMessage) rt" where
  "toEventMeshMessage env task =
     bnd (newUUID env) (\<lambda>uniqueId. bnd (newUUID env) (\<lambda>seqNum.
       ret \<lparr>sm_ProducerGroup = EventMesh_ProducerGroup (ev_config env), sm_Topic = Flow_Queue_Topic (ev_config env),
            sm_Content = taskInstanceJson env task, sm_Ttl = ev_gstr env (VInt (EventMesh_TTL (ev_config env))),
            sm_UniqueId = uniqueId, sm_SeqNum = seqNum, sm_Properties = []\<rparr>))"

definition toWorkflowTask :: "'db env \<Rightarrow> simpleMessage \<Rightarrow> mWorkflowTaskInstance option" where
  "toWorkflowTask env message = unmarshalTo (dObj (taskInstanceFields env)) zeroTaskInstance (sm_Content message)"

definition post :: "simpleMessage \<Rightarrow> ('db, unit) rt" where
  "post m w = (Ok (), w\<lparr>wd_topic := wd_topic w @ [m]\<rparr>)"

text \<open>The client of the queue answers an error or a response, which is not looked at.\<close>

fun eventMesh_Publish :: "'db env \<Rightarrow> mWorkflowTaskInstance option list \<Rightarrow> ('db, unit) rt" where
  "eventMesh_Publish env [] = ret ()"
| "eventMesh_Publish env (None # tasks) = eventMesh_Publish env tasks"
| "eventMesh_Publish env (Some task # tasks) =
     bnd (toEventMeshMessage env task) (\<lambda>message.
     bnd (outside (\<lambda>n. ev_meshPublish env n message)) (\<lambda>r.
     bnd (ofSum r MeshPublishFailed) (\<lambda>_.
     bnd (post message) (\<lambda>_.
     bnd (metric (Inc ''task_queue'' (queueSizeOf EventMeshQueue))) (\<lambda>_.
     eventMesh_Publish env tasks)))))"

text \<open>The result is what the handler answers to the SDK; an error of the store is only logged.\<close>

definition eventMesh_handler :: "'db env \<Rightarrow> simpleMessage \<Rightarrow> ('db, unit) rt" where
  "eventMesh_handler env message =
     bnd (metric (Dec ''task_queue'' (queueSizeOf EventMeshQueue))) (\<lambda>_.
     case toWorkflowTask env message of
       None \<Rightarrow> fail JsonError
     | Some workflowTask \<Rightarrow>
         if ti_ID workflowTask \<noteq> 0 then logged (updateTaskInstance env workflowTask)
         else logged (insertTaskInstance env workflowTask))"

section \<open>The queue that the configuration names\<close>

definition queuePublish :: "'db env \<Rightarrow> mWorkflowTaskInstance list \<Rightarrow> ('db, unit) rt" where
  "queuePublish env tasks =
     (case GetQueue (ev_queues env) (ev_queueStore env) of
        None \<Rightarrow> (\<lambda>w. (Panic ''nil pointer dereference'', w))
      | Some InMemoryQueue \<Rightarrow> inMemory_Publish env (map Some tasks)
      | Some EventMeshQueue \<Rightarrow> eventMesh_Publish env (map Some tasks))"

section \<open>The contract of a queue\<close>

text \<open>
  What a publisher may rely on: tasks published without an error are in flight, in order and behind
  those already there; the store and the events are untouched.
\<close>

locale observe_queue =
  fixes publish :: "mWorkflowTaskInstance list \<Rightarrow> ('db, unit) rt"
    and flight :: "'db world \<Rightarrow> 'm list"
    and enc :: "mWorkflowTaskInstance \<Rightarrow> 'm"
  assumes publish_ok: "publish ts w = (Ok x, w') \<Longrightarrow> flight w' = flight w @ map enc ts"
    and publish_db: "keeps wd_db (publish ts)"
    and publish_events: "keeps wd_events (publish ts)"
begin

text \<open>Publishing in two calls is publishing at once, as far as what is in flight goes.\<close>

lemma publish_twice:
  assumes "publish ts w = (Ok x, w1)" and "publish us w1 = (Ok y, w2)"
  shows "flight w2 = flight w @ map enc (ts @ us)"
  using publish_ok [OF assms(1)] publish_ok [OF assms(2)] by simp

lemma publish_one: "publish [t] w = (Ok x, w') \<Longrightarrow> flight w' = flight w @ [enc t]"
  using publish_ok by fastforce

end

lemma keeps_send [keeps_intros]: "keeps wd_db (send ts)" "keeps wd_events (send ts)" "keeps wd_topic (send ts)" "keeps wd_uuids (send ts)"
  by (simp_all add: keeps_def send_def)

lemma keeps_post [keeps_intros]: "keeps wd_db (post m)" "keeps wd_events (post m)" "keeps wd_queue (post m)"
  by (simp_all add: keeps_def post_def)

lemma keeps_inMemory [keeps_intros]:
  "keeps wd_db (inMemory_Publish env ts)" "keeps wd_events (inMemory_Publish env ts)"
  "keeps wd_topic (inMemory_Publish env ts)" "keeps wd_uuids (inMemory_Publish env ts)"
  unfolding inMemory_Publish_def by (intro keeps_intros)+

lemma keeps_toMessage [keeps_intros]:
  "keeps wd_db (toEventMeshMessage env t)" "keeps wd_events (toEventMeshMessage env t)" "keeps wd_queue (toEventMeshMessage env t)"
  unfolding toEventMeshMessage_def by (intro keeps_intros)+

lemma keeps_eventMesh:
  "keeps wd_db (eventMesh_Publish env ts) \<and> keeps wd_events (eventMesh_Publish env ts) \<and> keeps wd_queue (eventMesh_Publish env ts)"
  by (induction env ts rule: eventMesh_Publish.induct) (auto intro!: keeps_intros)

lemma metric_cases: "metric m w = (r, w') \<Longrightarrow> (r = Ok () \<or> (\<exists>s. r = Panic s)) \<and> w' = w\<lparr>wd_metrics := wd_metrics w'\<rparr>"
  by (auto simp: metric_def split: prod.splits outcome.splits)

lemma inMemory_Publish_ok:
  assumes "inMemory_Publish env ts w = (Ok x, w')"
  shows "wd_queue w' = wd_queue w @ ts"
proof (cases "ts = []")
  case False
  with assms obtain w1 where "metric (Add ''task_queue'' (queueSizeOf InMemoryQueue) (int (length ts))) w = (Ok (), w1)"
      "send ts w1 = (Ok x, w')"
    by (auto simp: inMemory_Publish_def elim!: bnd_OkE)
  with keepsD [OF keeps_metric(2)] show ?thesis by (fastforce simp: send_def)
qed (use assms in \<open>simp add: inMemory_Publish_def\<close>)

lemma eventMesh_Publish_ok:
  "eventMesh_Publish env ts w = (Ok (), w') \<Longrightarrow>
     map sm_Content (wd_topic w') = map sm_Content (wd_topic w) @ map (taskInstanceJson env) (List.map_filter id ts)"
proof (induction env ts arbitrary: w rule: eventMesh_Publish.induct)
  case (3 env task tasks)
  from 3(2) obtain m w1 w2 w3 where
    m: "toEventMeshMessage env task w = (Ok m, w1)" "post m (w1\<lparr>wd_calls := Suc (wd_calls w1)\<rparr>) = (Ok (), w2)"
    and r: "metric (Inc ''task_queue'' (queueSizeOf EventMeshQueue)) w2 = (Ok (), w3)" "eventMesh_Publish env tasks w3 = (Ok (), w')"
    by (auto simp: ofSum_def outside_def elim!: bnd_OkE split: sum.splits)
  have w1: "wd_topic w1 = wd_topic w" "sm_Content m = taskInstanceJson env task"
    using m(1) by (auto simp: toEventMeshMessage_def rt_simps)
  from "3.IH" [OF r(2)] keepsD [OF keeps_metric(3) r(1)] w1 m(2)
  show ?case by (auto simp: post_def map_filter_simps)
qed (auto simp: map_filter_simps)

interpretation memq: observe_queue "\<lambda>ts. inMemory_Publish env (map Some ts)" wd_queue Some for env
  by unfold_locales (auto intro: keeps_intros dest: inMemory_Publish_ok)

interpretation meshq: observe_queue "\<lambda>ts. eventMesh_Publish env (map Some ts)" "\<lambda>w. map sm_Content (wd_topic w)"
  "taskInstanceJson env" for env
proof unfold_locales
  fix ts w x w'
  assume "eventMesh_Publish env (map Some ts) w = (Ok x, w')"
  then have "eventMesh_Publish env (map Some ts) w = (Ok (), w')" by simp
  moreover have "List.map_filter id (map Some ts) = ts" by (induction ts) (simp_all add: map_filter_simps)
  ultimately show "map sm_Content (wd_topic w') = map sm_Content (wd_topic w) @ map (taskInstanceJson env) ts"
    using eventMesh_Publish_ok by fastforce
qed (simp_all add: keeps_eventMesh)

end
