(* ===== verification/Flow.thy ===== *)
theory Flow
  imports Queue DalQuery
begin

text \<open>
  \<open>flow/engine.go\<close> and \<open>api/workflow.go\<close>: starting a workflow and moving it on. The first part gives
  the operations, the second what they do to the store and to the queue.
\<close>

section \<open>Operations\<close>

record workflowParam =
  p_ID :: string
  p_InstanceID :: string
  p_TaskInstanceID :: string
  p_Input :: string

record workflowEventCatalog =
  ec_OperationID :: string
  ec_Topic :: string
  ec_Schema :: string

definition newInstance :: "string \<Rightarrow> string \<Rightarrow> mWorkflowInstance" where
  "newInstance workflowID workflowInstanceID =
     zeroInstance\<lparr>i_WorkflowID := workflowID, i_WorkflowInstanceID := workflowInstanceID,
       i_WorkflowStatus := WorkflowInstanceProcessStatus\<rparr>"

text \<open>The composite literal of a task instance that is about to be published.\<close>

definition newTaskInstance :: "string \<Rightarrow> string \<Rightarrow> string \<Rightarrow> string \<Rightarrow> int \<Rightarrow> string \<Rightarrow> mWorkflowTaskInstance" where
  "newTaskInstance workflowInstanceID workflowID taskID taskInstanceID status input =
     zeroTaskInstance\<lparr>ti_WorkflowInstanceID := workflowInstanceID, ti_WorkflowID := workflowID, ti_TaskID := taskID,
       ti_TaskInstanceID := taskInstanceID, ti_Status := status, ti_Input := input\<rparr>"

definition Start :: "'db env \<Rightarrow> workflowParam \<Rightarrow> ('db, string) rt" where
  "Start env param =
     bnd (metric (Inc ''engine'' ''start_request'')) (\<lambda>_.
     bnd (dalRead (SelectStartTask (ev_store env) (zeroTask\<lparr>t_WorkflowID := p_ID param\<rparr>))) (\<lambda>r.
     case r of
       None \<Rightarrow> fail WorkflowNotExists
     | Some task \<Rightarrow>
         bnd (newUUID env) (\<lambda>workflowInstanceID.
         bnd (insertInstance env (newInstance (p_ID param) workflowInstanceID)) (\<lambda>_.
         bnd (newUUID env) (\<lambda>taskInstanceID.
         bnd (queuePublish env [(newTaskInstance workflowInstanceID (p_ID param) (t_TaskID task) taskInstanceID
                TaskInstanceWaitStatus (p_Input param))\<lparr>ti_IsStart := True\<rparr>]) (\<lambda>_.
         ret workflowInstanceID))))))"

definition transitionCondition :: "workflowParam \<Rightarrow> mWorkflowTaskInstance" where
  "transitionCondition param =
     zeroTaskInstance\<lparr>ti_WorkflowID := p_ID param, ti_WorkflowInstanceID := p_InstanceID param,
       ti_TaskInstanceID := p_TaskInstanceID param, ti_Status := TaskInstanceSleepStatus\<rparr>"

definition Transition :: "'db env \<Rightarrow> workflowParam \<Rightarrow> ('db, unit) rt" where
  "Transition env param =
     bnd (metric (Inc ''engine'' ''transition_request'')) (\<lambda>_.
     bnd (dalRead (SelectTransitionTask (ev_store env) (transitionCondition param))) (\<lambda>r.
     case r of
       None \<Rightarrow> ret ()
     | Some task \<Rightarrow> queuePublish env [task\<lparr>ti_Status := TaskInstanceWaitStatus\<rparr>]))"

definition Engine_Validate :: "string \<Rightarrow> ('db, unit) rt" where
  "Engine_Validate instanceID = ret ()"

text \<open>
  The gRPC service. \<open>conv\<close> is \<open>gconv.Struct\<close>, which copies the request into the parameter; the result is
  the instance identifier of the response.
\<close>

record executeRequest =
  rq_Id :: string
  rq_InstanceId :: string
  rq_TaskInstanceId :: string
  rq_Input :: string

datatype execute_error = ConvError string | EngineError run_error

definition Execute :: "'db env \<Rightarrow> (executeRequest \<Rightarrow> string + workflowParam) \<Rightarrow> executeRequest \<Rightarrow>
    ('db world, execute_error, string) prog" where
  "Execute env conv req w =
     (case conv req of
        Inl e \<Rightarrow> (Err (ConvError e), w)
      | Inr param \<Rightarrow>
          if rq_InstanceId req \<noteq> [] then
            (case Transition env param w of
               (Ok _, w') \<Rightarrow> (Ok [], w') | (Err e, w') \<Rightarrow> (Err (EngineError e), w') | (Panic s, w') \<Rightarrow> (Panic s, w'))
          else
            (case Start env param w of
               (Ok r, w') \<Rightarrow> (Ok r, w') | (Err e, w') \<Rightarrow> (Err (EngineError e), w') | (Panic s, w') \<Rightarrow> (Panic s, w')))"

section \<open>Effects on the store\<close>

text \<open>An environment whose queue is the in-memory one, on a store that obeys the laws.\<close>

definition memEnv :: "'db env \<Rightarrow> ('db \<Rightarrow> tables) \<Rightarrow> bool" where
  "memEnv env view \<longleftrightarrow> gorm_store (ev_store env) view \<and> GetQueue (ev_queues env) (ev_queueStore env) = Some InMemoryQueue
     \<and> sched_ok (ev_sched env)"

lemma memEnv_store: "memEnv env view \<Longrightarrow> gorm_store (ev_store env) view"
  by (simp add: memEnv_def)

lemma memEnv_queue: "memEnv env view \<Longrightarrow> queuePublish env ts = inMemory_Publish env (map Some ts)"
  by (simp add: memEnv_def queuePublish_def)

lemma keeps_queuePublish [keeps_intros]:
  "keeps wd_db (queuePublish env ts)" "keeps wd_events (queuePublish env ts)"
  by (auto simp: queuePublish_def keeps_eventMesh intro!: keeps_intros split: option.split observeQueue.split)

lemma queuePublish_ok:
  assumes "memEnv env view" and "queuePublish env ts w = (Ok x, w')"
  shows "wd_queue w' = wd_queue w @ map Some ts"
  using memq.publish_ok assms(2) unfolding memEnv_queue [OF assms(1)] by blast

lemma queuePublish_no_error:
  assumes "memEnv env view"
  shows "queuePublish env ts w \<noteq> (Err e, w')"
  unfolding memEnv_queue [OF assms] inMemory_Publish_def
  by (auto simp: rt_simps send_def metric_def split: prod.splits outcome.splits)

lemma dalRead_OkE:
  assumes "dalRead f w = (Ok x, w')"
  obtains "f (wd_db w) = Inr x" and "w' = w"
  using assms by (auto simp: dalRead_def split: sum.splits)

lemma dalRun_OkE:
  assumes "dalRun p w = (Ok x, w')"
  obtains "p (wd_db w) = (Ok x, wd_db w')"
  using assms by (auto simp: dalRun_def split: prod.splits outcome.splits)

lemma stampE:
  assumes "bnd (timeNow env) (\<lambda>now. dalRun (f now)) w = (Ok x, w')"
  obtains now where "f now (wd_db w) = (Ok x, wd_db w')"
  using assms by (auto simp: timeNow_def elim!: bnd_OkE dalRun_OkE)

context gorm_store
begin

lemmas instance_create_ok = inT.create_ok
lemmas instance_updates_ok = inT.updates_ok
lemmas taskInstance_create_ok = tiT.create_ok
lemmas taskInstance_updates_ok = tiT.updates_ok
lemmas taskInstance_first_ok = tiT.first_ok
lemmas taskInstance_first_none = tiT.first_none
lemmas relation_first_ok = rlT.first_ok

end

text \<open>What each update of the store adds or changes, seen through the tables.\<close>

lemma insertInstance_effect:
  assumes "gorm_store (ev_store env) view" and "insertInstance env r w = (Ok x, w')"
  shows "\<exists>k now. view (wd_db w') = tb_instance_update
    (\<lambda>rs. rs @ [r\<lparr>i_CreateTime := now, i_UpdateTime := now, i_ID := k\<rparr>]) (view (wd_db w))"
proof -
  from assms(2) obtain now where "InsertInstance (ev_store env) now r (wd_db w) = (Ok x, wd_db w')"
    unfolding insertInstance_def by (rule stampE)
  then have "g_create (g_instance (ev_store env)) (r\<lparr>i_CreateTime := now, i_UpdateTime := now\<rparr>) (wd_db w) = Inr (wd_db w')"
    by (simp add: InsertInstance_def stmt_Ok)
  from gorm_store.instance_create_ok [OF assms(1) this] show ?thesis by (auto simp: instanceRow_def)
qed

lemma insertTaskInstance_effect:
  assumes "gorm_store (ev_store env) view" and "insertTaskInstance env r w = (Ok x, w')"
  shows "\<exists>k now. 0 < k \<and> view (wd_db w') = tb_taskInstance_update
    (\<lambda>rs. rs @ [r\<lparr>ti_CreateTime := now, ti_UpdateTime := now, ti_Task := None, ti_Order := [], ti_IsStart := False, ti_ID := k\<rparr>])
    (view (wd_db w))"
proof -
  from assms(2) obtain now where "InsertTaskInstance (ev_store env) now r (wd_db w) = (Ok x, wd_db w')"
    unfolding insertTaskInstance_def by (rule stampE)
  then have "g_create (g_taskInstance (ev_store env)) (r\<lparr>ti_CreateTime := now, ti_UpdateTime := now\<rparr>) (wd_db w) = Inr (wd_db w')"
    by (simp add: InsertTaskInstance_def stmt_Ok)
  from gorm_store.taskInstance_create_ok [OF assms(1) this] show ?thesis by (auto simp: taskInstanceRow_def)
qed

text \<open>The row of a task instance after an update with the non-zero columns of \<open>u\<close>.\<close>

lemma updateTaskInstance_effect:
  assumes "gorm_store (ev_store env) view" and "updateTaskInstance env r w = (Ok x, w')"
  shows "\<exists>now. view (wd_db w') = tb_taskInstance_update
    (update_where (\<lambda>y. agrees 0 (ti_ID r) (ti_ID y)) (ro_over taskInstanceRow (r\<lparr>ti_UpdateTime := now\<rparr>))) (view (wd_db w))"
proof -
  from assms(2) obtain now where "UpdateTaskInstance (ev_store env) now r (wd_db w) = (Ok x, wd_db w')"
    unfolding updateTaskInstance_def by (rule stampE)
  then have "g_updates (g_taskInstance (ev_store env)) (zeroTaskInstance\<lparr>ti_ID := ti_ID r\<rparr>) (r\<lparr>ti_UpdateTime := now\<rparr>) (wd_db w)
      = Inr (wd_db w')"
    by (simp add: UpdateTaskInstance_def stmt_Ok)
  moreover have "ro_match taskInstanceRow (zeroTaskInstance\<lparr>ti_ID := ti_ID r\<rparr>) = (\<lambda>y. agrees 0 (ti_ID r) (ti_ID y))"
    by (simp add: taskInstanceRow_def zeroTaskInstance_def agrees_def)
  ultimately show ?thesis using gorm_store.taskInstance_updates_ok [OF assms(1)] by metis
qed

lemma updateInstance_effect:
  assumes "gorm_store (ev_store env) view" and "updateInstance env r w = (Ok x, w')"
  shows "\<exists>now. view (wd_db w') = tb_instance_update
    (update_where (\<lambda>y. agrees [] (i_WorkflowInstanceID r) (i_WorkflowInstanceID y)) (ro_over instanceRow (r\<lparr>i_UpdateTime := now\<rparr>)))
    (view (wd_db w))"
proof -
  from assms(2) obtain now where "UpdateInstance (ev_store env) now r (wd_db w) = (Ok x, wd_db w')"
    unfolding updateInstance_def by (rule stampE)
  then have "g_updates (g_instance (ev_store env)) (zeroInstance\<lparr>i_WorkflowInstanceID := i_WorkflowInstanceID r\<rparr>)
      (r\<lparr>i_UpdateTime := now\<rparr>) (wd_db w) = Inr (wd_db w')"
    by (simp add: UpdateInstance_def stmt_Ok)
  moreover have "ro_match instanceRow (zeroInstance\<lparr>i_WorkflowInstanceID := i_WorkflowInstanceID r\<rparr>)
      = (\<lambda>y. agrees [] (i_WorkflowInstanceID r) (i_WorkflowInstanceID y))"
    by (simp add: instanceRow_def zeroInstance_def agrees_def)
  ultimately show ?thesis using gorm_store.instance_updates_ok [OF assms(1)] by metis
qed

end
