(* ===== verification/A2A.thy ===== *)
theory A2A
  imports Runtime JsonStruct
begin

text \<open>
  \<open>internal/bridge/a2a_types.go\<close> and \<open>internal/bridge/a2a_executor.go\<close>: the messages of the A2A
  protocol, the HTTP client, and the executor that sends a task to an agent and polls for its
  result. HTTP is an outside call that answers an error or a status with a body; a nil slice and an
  empty one are not distinguished, and are written as null, as the nil slices of the sources are.
\<close>

section \<open>Messages\<close>

record A2ACapabilities =
  cp_Streaming :: bool

record A2ASkill =
  sk_ID :: string
  sk_Name :: string
  sk_Description :: string

record A2AAgentCard =
  ac_Name :: string
  ac_Description :: string
  ac_URL :: string
  ac_Version :: string
  ac_Capabilities :: A2ACapabilities
  ac_Skills :: "A2ASkill list"

record A2ATextPart =
  pt_Type :: string
  pt_Text :: string

record A2AMessage =
  ms_Role :: string
  ms_Parts :: "A2ATextPart list"

record A2ATaskRequest =
  tr_ID :: string
  tr_Message :: A2AMessage
  tr_Metadata :: "(string \<times> string) list"

record A2AArtifact =
  af_Name :: string
  af_Parts :: "A2ATextPart list"

record A2AError =
  ae_Code :: int
  ae_Message :: string

record A2ATaskResponse =
  ts_ID :: string
  ts_Status :: string
  ts_Message :: A2AMessage
  ts_Artifacts :: "A2AArtifact list"
  ts_Error :: "A2AError option"

abbreviation (input) A2ATaskStatusWorking :: string where "A2ATaskStatusWorking \<equiv> ''working''"
abbreviation (input) A2ATaskStatusCompleted :: string where "A2ATaskStatusCompleted \<equiv> ''completed''"
abbreviation (input) A2ATaskStatusFailed :: string where "A2ATaskStatusFailed \<equiv> ''failed''"

definition zeroPart :: A2ATextPart where
  "zeroPart = \<lparr>pt_Type = [], pt_Text = []\<rparr>"

definition zeroMessage :: A2AMessage where
  "zeroMessage = \<lparr>ms_Role = [], ms_Parts = []\<rparr>"

definition zeroArtifact :: A2AArtifact where
  "zeroArtifact = \<lparr>af_Name = [], af_Parts = []\<rparr>"

definition zeroError :: A2AError where
  "zeroError = \<lparr>ae_Code = 0, ae_Message = []\<rparr>"

definition zeroRequest :: A2ATaskRequest where
  "zeroRequest = \<lparr>tr_ID = [], tr_Message = zeroMessage, tr_Metadata = []\<rparr>"

definition zeroResponse :: A2ATaskResponse where
  "zeroResponse = \<lparr>ts_ID = [], ts_Status = [], ts_Message = zeroMessage, ts_Artifacts = [], ts_Error = None\<rparr>"

section \<open>Their JSON\<close>

definition partJson :: "A2ATextPart \<Rightarrow> string" where
  "partJson p = json_obj [(''type'', json_quote (pt_Type p)), (''text'', json_quote (pt_Text p))]"

definition partsJson :: "A2ATextPart list \<Rightarrow> string" where
  "partsJson ps = (if ps = [] then ''null'' else json_list (map partJson ps))"

definition messageJson :: "A2AMessage \<Rightarrow> string" where
  "messageJson m = json_obj [(''role'', json_quote (ms_Role m)), (''parts'', partsJson (ms_Parts m))]"

definition requestJson :: "A2ATaskRequest \<Rightarrow> string" where
  "requestJson r = json_obj
     ([(''id'', json_quote (tr_ID r)), (''message'', messageJson (tr_Message r))]
      @ (if tr_Metadata r = [] then []
         else [(''metadata'', json_obj (map (\<lambda>(k, v). (k, json_quote v)) (sort_key fst (tr_Metadata r))))]))"

definition artifactJson :: "A2AArtifact \<Rightarrow> string" where
  "artifactJson a = json_obj [(''name'', json_quote (af_Name a)), (''parts'', partsJson (af_Parts a))]"

definition errorJson :: "A2AError \<Rightarrow> string" where
  "errorJson e = json_obj
     ((if ae_Code e = 0 then [] else [(''code'', show_int (ae_Code e))]) @ [(''message'', json_quote (ae_Message e))])"

definition responseJson :: "A2ATaskResponse \<Rightarrow> string" where
  "responseJson r = json_obj
     ([(''id'', json_quote (ts_ID r)), (''status'', json_quote (ts_Status r)), (''message'', messageJson (ts_Message r))]
      @ (if ts_Artifacts r = [] then [] else [(''artifacts'', json_list (map artifactJson (ts_Artifacts r)))])
      @ (case ts_Error r of None \<Rightarrow> [] | Some e \<Rightarrow> [(''error'', errorJson e)]))"

definition partFields :: "(string \<times> A2ATextPart field) list" where
  "partFields = [(''type'', dStr (\<lambda>x s. s\<lparr>pt_Type := x\<rparr>)), (''text'', dStr (\<lambda>x s. s\<lparr>pt_Text := x\<rparr>))]"

definition messageFields :: "(string \<times> A2AMessage field) list" where
  "messageFields = [(''role'', dStr (\<lambda>x s. s\<lparr>ms_Role := x\<rparr>)),
     (''parts'', dList (dObj partFields) zeroPart (\<lambda>x s. s\<lparr>ms_Parts := x\<rparr>))]"

definition artifactFields :: "(string \<times> A2AArtifact field) list" where
  "artifactFields = [(''name'', dStr (\<lambda>x s. s\<lparr>af_Name := x\<rparr>)),
     (''parts'', dList (dObj partFields) zeroPart (\<lambda>x s. s\<lparr>af_Parts := x\<rparr>))]"

definition errorFields :: "(string \<times> A2AError field) list" where
  "errorFields = [(''code'', dInt (\<lambda>x s. s\<lparr>ae_Code := x\<rparr>)), (''message'', dStr (\<lambda>x s. s\<lparr>ae_Message := x\<rparr>))]"

definition responseFields :: "(string \<times> A2ATaskResponse field) list" where
  "responseFields = [(''id'', dStr (\<lambda>x s. s\<lparr>ts_ID := x\<rparr>)), (''status'', dStr (\<lambda>x s. s\<lparr>ts_Status := x\<rparr>)),
     (''message'', dSub (dObj messageFields) ts_Message (\<lambda>x s. s\<lparr>ts_Message := x\<rparr>)),
     (''artifacts'', dList (dObj artifactFields) zeroArtifact (\<lambda>x s. s\<lparr>ts_Artifacts := x\<rparr>)),
     (''error'', dPtr (dObj errorFields) zeroError ts_Error (\<lambda>x s. s\<lparr>ts_Error := x\<rparr>))]"

text \<open>The metadata of a request: an object of strings; a null member is an empty string.\<close>

fun dStrings :: "(string \<times> gval) list \<Rightarrow> (string \<times> string) list option" where
  "dStrings [] = Some []"
| "dStrings ((k, v) # es) =
     (case v of
        VStr x \<Rightarrow> map_option (Cons (k, x)) (dStrings es)
      | VNil \<Rightarrow> map_option (Cons (k, [])) (dStrings es)
      | _ \<Rightarrow> None)"

definition dMetadata :: "A2ATaskRequest field" where
  "dMetadata v s = (case v of
     VNil \<Rightarrow> Some (s\<lparr>tr_Metadata := []\<rparr>)
   | VMap es \<Rightarrow> map_option (\<lambda>m. s\<lparr>tr_Metadata := m\<rparr>) (dStrings es)
   | _ \<Rightarrow> None)"

definition requestFields :: "(string \<times> A2ATaskRequest field) list" where
  "requestFields = [(''id'', dStr (\<lambda>x s. s\<lparr>tr_ID := x\<rparr>)),
     (''message'', dSub (dObj messageFields) tr_Message (\<lambda>x s. s\<lparr>tr_Message := x\<rparr>)), (''metadata'', dMetadata)]"

section \<open>Indented JSON, for the agent card\<close>

datatype jtree = JRaw string | JObj "(string \<times> jtree) list" | JArr "jtree list"

definition newline :: "nat \<Rightarrow> string" where
  "newline n = CHR 0x0A # concat (replicate n ''  '')"

fun indented :: "nat \<Rightarrow> jtree \<Rightarrow> string" where
  "indented n (JRaw s) = s"
| "indented n (JObj fs) =
     (if fs = [] then ''{}''
      else ''{'' @ join '','' (map (\<lambda>(k, v). newline (Suc n) @ json_quote k @ '': '' @ indented (Suc n) v) fs) @ newline n @ ''}'')"
| "indented n (JArr vs) =
     (if vs = [] then ''[]''
      else ''['' @ join '','' (map (\<lambda>v. newline (Suc n) @ indented (Suc n) v) vs) @ newline n @ '']'')"

definition skillTree :: "A2ASkill \<Rightarrow> jtree" where
  "skillTree s = JObj ([(''id'', JRaw (json_quote (sk_ID s))), (''name'', JRaw (json_quote (sk_Name s)))]
     @ (if sk_Description s = [] then [] else [(''description'', JRaw (json_quote (sk_Description s)))]))"

definition cardTree :: "A2AAgentCard \<Rightarrow> jtree" where
  "cardTree c = JObj
     ([(''name'', JRaw (json_quote (ac_Name c))), (''description'', JRaw (json_quote (ac_Description c))),
       (''url'', JRaw (json_quote (ac_URL c))), (''version'', JRaw (json_quote (ac_Version c))),
       (''capabilities'', JObj (if cp_Streaming (ac_Capabilities c) then [(''streaming'', JRaw ''true'')] else []))]
      @ (if ac_Skills c = [] then [] else [(''skills'', JArr (map skillTree (ac_Skills c)))]))"

definition ToJSON :: "A2AAgentCard \<Rightarrow> string" where
  "ToJSON c = indented 0 (cardTree c)"

definition BuildAgentCard :: "string \<Rightarrow> string \<Rightarrow> string \<Rightarrow> A2AAgentCard" where
  "BuildAgentCard workflowID workflowName baseURL =
     \<lparr>ac_Name = workflowName, ac_Description = ''Workflow execution agent for '' @ workflowID, ac_URL = baseURL,
      ac_Version = ''1.0.0'', ac_Capabilities = \<lparr>cp_Streaming = False\<rparr>,
      ac_Skills = [\<lparr>sk_ID = ''execute-workflow'', sk_Name = ''Execute Workflow'',
        sk_Description = ''Execute workflow '' @ workflowID @ '' and return result''\<rparr>]\<rparr>"

section \<open>The client\<close>

record A2AClient =
  cl_BaseURL :: string

definition NewA2AClient :: "string \<Rightarrow> A2AClient" where
  "NewA2AClient baseURL = \<lparr>cl_BaseURL = baseURL\<rparr>"

definition httpResult :: "string \<Rightarrow> string + int \<times> string \<Rightarrow> a2a_error + string" where
  "httpResult path r = (case r of
     Inl e \<Rightarrow> Inl (A2AHttp e)
   | Inr (status, body) \<Rightarrow> if status \<ge> 400 then Inl (A2AStatus path status body) else Inr body)"

definition doPost :: "'db env \<Rightarrow> A2AClient \<Rightarrow> string \<Rightarrow> string \<Rightarrow> ('db, a2a_error + string) rt" where
  "doPost env c path body =
     bnd (outside (\<lambda>n. ev_post env n (cl_BaseURL c @ path) body)) (\<lambda>r. ret (httpResult path r))"

definition doGet :: "'db env \<Rightarrow> A2AClient \<Rightarrow> string \<Rightarrow> ('db, a2a_error + string) rt" where
  "doGet env c path = bnd (outside (\<lambda>n. ev_get env n (cl_BaseURL c @ path))) (\<lambda>r. ret (httpResult path r))"

definition decodeResponse :: "a2a_error + string \<Rightarrow> a2a_error + A2ATaskResponse" where
  "decodeResponse r = (case r of
     Inl e \<Rightarrow> Inl e
   | Inr body \<Rightarrow> (case unmarshalTo (dObj responseFields) zeroResponse body of None \<Rightarrow> Inl A2ADecode | Some t \<Rightarrow> Inr t))"

definition SendTask :: "'db env \<Rightarrow> A2AClient \<Rightarrow> string \<Rightarrow> (string \<times> string) list \<Rightarrow> ('db, a2a_error + A2ATaskResponse) rt" where
  "SendTask env c input metadata =
     (let req = zeroRequest\<lparr>tr_Message := \<lparr>ms_Role = ''user'', ms_Parts = [\<lparr>pt_Type = ''text'', pt_Text = input\<rparr>]\<rparr>,
                   tr_Metadata := metadata\<rparr>
      in bnd (doPost env c ''/a2a/tasks'' (requestJson req)) (\<lambda>r. ret (decodeResponse r)))"

definition GetTaskResult :: "'db env \<Rightarrow> A2AClient \<Rightarrow> string \<Rightarrow> ('db, a2a_error + A2ATaskResponse) rt" where
  "GetTaskResult env c taskID = bnd (doGet env c (''/a2a/tasks/'' @ taskID)) (\<lambda>r. ret (decodeResponse r))"

definition skillFields :: "(string \<times> A2ASkill field) list" where
  "skillFields = [(''id'', dStr (\<lambda>x s. s\<lparr>sk_ID := x\<rparr>)), (''name'', dStr (\<lambda>x s. s\<lparr>sk_Name := x\<rparr>)),
     (''description'', dStr (\<lambda>x s. s\<lparr>sk_Description := x\<rparr>))]"

definition cardFields :: "(string \<times> A2AAgentCard field) list" where
  "cardFields = [(''name'', dStr (\<lambda>x s. s\<lparr>ac_Name := x\<rparr>)), (''description'', dStr (\<lambda>x s. s\<lparr>ac_Description := x\<rparr>)),
     (''url'', dStr (\<lambda>x s. s\<lparr>ac_URL := x\<rparr>)), (''version'', dStr (\<lambda>x s. s\<lparr>ac_Version := x\<rparr>)),
     (''capabilities'', dSub (dObj [(''streaming'', dBool (\<lambda>x s. s\<lparr>cp_Streaming := x\<rparr>))]) ac_Capabilities
        (\<lambda>x s. s\<lparr>ac_Capabilities := x\<rparr>)),
     (''skills'', dList (dObj skillFields) \<lparr>sk_ID = [], sk_Name = [], sk_Description = []\<rparr> (\<lambda>x s. s\<lparr>ac_Skills := x\<rparr>))]"

definition zeroCard :: A2AAgentCard where
  "zeroCard = \<lparr>ac_Name = [], ac_Description = [], ac_URL = [], ac_Version = [], ac_Capabilities = \<lparr>cp_Streaming = False\<rparr>,
     ac_Skills = []\<rparr>"

definition GetAgentCard :: "'db env \<Rightarrow> A2AClient \<Rightarrow> ('db, a2a_error + A2AAgentCard) rt" where
  "GetAgentCard env c =
     bnd (doGet env c ''/.well-known/agent-card.json'') (\<lambda>r. ret (case r of
        Inl e \<Rightarrow> Inl e
      | Inr body \<Rightarrow> (case unmarshalTo (dObj cardFields) zeroCard body of None \<Rightarrow> Inl A2ADecode | Some ac \<Rightarrow> Inr ac)))"

section \<open>The executor\<close>

record A2AExecutor =
  ex_client :: A2AClient
  ex_maxRetry :: nat

definition NewA2AExecutor :: "string \<Rightarrow> A2AExecutor" where
  "NewA2AExecutor agentURL = \<lparr>ex_client = NewA2AClient agentURL, ex_maxRetry = 30\<rparr>"

definition extractOutput :: "A2ATaskResponse \<Rightarrow> string" where
  "extractOutput resp =
     (if ts_Artifacts resp \<noteq> [] \<and> af_Parts (hd (ts_Artifacts resp)) \<noteq> []
      then pt_Text (hd (af_Parts (hd (ts_Artifacts resp))))
      else if ms_Parts (ts_Message resp) \<noteq> [] then pt_Text (hd (ms_Parts (ts_Message resp)))
      else [])"

text \<open>\<open>n\<close> is the number of polls that are left.\<close>

fun pollLoop :: "'db env \<Rightarrow> A2AExecutor \<Rightarrow> string \<Rightarrow> nat \<Rightarrow> ('db, string) rt" where
  "pollLoop env e taskID 0 = fail (A2AFailed (A2ATimedOut taskID (ex_maxRetry e)))"
| "pollLoop env e taskID (Suc n) =
     bnd (GetTaskResult env (ex_client e) taskID) (\<lambda>r.
     case r of
       Inl _ \<Rightarrow> pollLoop env e taskID n
     | Inr resp \<Rightarrow>
         (case ts_Error resp of
            Some err \<Rightarrow> fail (A2AFailed (A2APollError (ae_Message err)))
          | None \<Rightarrow>
              if ts_Status resp = A2ATaskStatusCompleted then ret (extractOutput resp)
              else if ts_Status resp = A2ATaskStatusFailed then fail (A2AFailed (A2ATaskFailed taskID))
              else pollLoop env e taskID n))"

definition pollUntilComplete :: "'db env \<Rightarrow> A2AExecutor \<Rightarrow> string \<Rightarrow> ('db, string) rt" where
  "pollUntilComplete env e taskID = pollLoop env e taskID (ex_maxRetry e)"

definition A2A_Execute :: "'db env \<Rightarrow> A2AExecutor \<Rightarrow> string \<Rightarrow> (string \<times> string) list \<Rightarrow> ('db, string) rt" where
  "A2A_Execute env e input metadata =
     bnd (timeNow env) (\<lambda>now.
     let metadata = AList.update ''timestamp'' (ev_rfc3339 env now) (AList.update ''source'' ''eventmesh-workflow'' metadata) in
     bnd (SendTask env (ex_client e) input metadata) (\<lambda>r.
     case r of
       Inl err \<Rightarrow> fail (A2AFailed (A2ASendFailed err))
     | Inr resp \<Rightarrow>
         (case ts_Error resp of
            Some err \<Rightarrow> fail (A2AFailed (A2ATaskError (ae_Message err)))
          | None \<Rightarrow>
              if ts_Status resp = A2ATaskStatusCompleted then ret (extractOutput resp)
              else pollUntilComplete env e (ts_ID resp))))"

definition ExecuteFromAction :: "'db env \<Rightarrow> A2AExecutor \<Rightarrow> mWorkflowTaskAction \<Rightarrow> string \<Rightarrow> ('db, string) rt" where
  "ExecuteFromAction env e action input =
     A2A_Execute env e input
       [(''operation_name'', a_OperationName action), (''operation_type'', a_OperationType action),
        (''workflow_task'', a_TaskID action)]"

section \<open>Polling\<close>

lemma keeps_http [keeps_intros]:
  "keeps wd_db (doPost env c path body)" "keeps wd_queue (doPost env c path body)" "keeps wd_topic (doPost env c path body)"
  "keeps wd_events (doPost env c path body)" "keeps wd_uuids (doPost env c path body)"
  "keeps wd_db (doGet env c path)" "keeps wd_queue (doGet env c path)" "keeps wd_topic (doGet env c path)"
  "keeps wd_events (doGet env c path)" "keeps wd_uuids (doGet env c path)"
  unfolding doPost_def doGet_def by (intro keeps_intros)+

lemma keeps_GetTaskResult [keeps_intros]:
  "keeps wd_db (GetTaskResult env c i)" "keeps wd_queue (GetTaskResult env c i)" "keeps wd_topic (GetTaskResult env c i)"
  "keeps wd_events (GetTaskResult env c i)" "keeps wd_uuids (GetTaskResult env c i)"
  unfolding GetTaskResult_def by (intro keeps_intros)+

lemma keeps_pollLoop:
  "keeps wd_db (pollLoop env e i n) \<and> keeps wd_queue (pollLoop env e i n) \<and> keeps wd_topic (pollLoop env e i n) \<and>
   keeps wd_events (pollLoop env e i n) \<and> keeps wd_uuids (pollLoop env e i n)"
  by (induction n) (auto intro!: keeps_intros)

lemma keeps_SendTask [keeps_intros]:
  "keeps wd_db (SendTask env c i m)" "keeps wd_queue (SendTask env c i m)" "keeps wd_topic (SendTask env c i m)"
  "keeps wd_events (SendTask env c i m)" "keeps wd_uuids (SendTask env c i m)"
  unfolding SendTask_def Let_def by (intro keeps_intros)+

lemma keeps_ExecuteFromAction [keeps_intros]:
  "keeps wd_db (ExecuteFromAction env e a i)" "keeps wd_queue (ExecuteFromAction env e a i)"
  "keeps wd_topic (ExecuteFromAction env e a i)" "keeps wd_events (ExecuteFromAction env e a i)"
  "keeps wd_uuids (ExecuteFromAction env e a i)"
  unfolding ExecuteFromAction_def A2A_Execute_def Let_def pollUntilComplete_def
  by (intro keeps_intros; simp add: keeps_pollLoop; intro keeps_intros)+

text \<open>What one answer to a poll decides: a result, an error, or nothing yet.\<close>

definition verdict :: "string \<Rightarrow> a2a_error + A2ATaskResponse \<Rightarrow> (a2a_error + string) option" where
  "verdict taskID r = (case r of
     Inl _ \<Rightarrow> None
   | Inr resp \<Rightarrow>
       (case ts_Error resp of
          Some err \<Rightarrow> Some (Inl (A2APollError (ae_Message err)))
        | None \<Rightarrow>
            if ts_Status resp = A2ATaskStatusCompleted then Some (Inr (extractOutput resp))
            else if ts_Status resp = A2ATaskStatusFailed then Some (Inl (A2ATaskFailed taskID))
            else None))"

text \<open>The answer to the poll that is the \<open>n\<close>-th outside call.\<close>

definition pollAnswer :: "'db env \<Rightarrow> A2AExecutor \<Rightarrow> string \<Rightarrow> nat \<Rightarrow> a2a_error + A2ATaskResponse" where
  "pollAnswer env e taskID n =
     decodeResponse (httpResult (''/a2a/tasks/'' @ taskID)
       (ev_get env n (cl_BaseURL (ex_client e) @ ''/a2a/tasks/'' @ taskID)))"

fun outcomeOf :: "a2a_error + string \<Rightarrow> (run_error, string) outcome" where
  "outcomeOf (Inl e) = Err (A2AFailed e)"
| "outcomeOf (Inr s) = Ok s"

lemma GetTaskResult_step:
  "GetTaskResult env (ex_client e) taskID w =
     (Ok (pollAnswer env e taskID (wd_calls w)), w\<lparr>wd_calls := Suc (wd_calls w)\<rparr>)"
  by (simp add: GetTaskResult_def doGet_def outside_def bnd_apply pollAnswer_def)

lemma pollLoop_verdicts:
  "fst (pollLoop env e taskID n w) =
     (case first_some (\<lambda>k. verdict taskID (pollAnswer env e taskID (wd_calls w + k))) [0..<n] of
        None \<Rightarrow> Err (A2AFailed (A2ATimedOut taskID (ex_maxRetry e)))
      | Some v \<Rightarrow> outcomeOf v) \<and>
   wd_calls w \<le> wd_calls (snd (pollLoop env e taskID n w)) \<and> wd_calls (snd (pollLoop env e taskID n w)) \<le> wd_calls w + n"
proof (induction n arbitrary: w)
  case (Suc n)
  let ?w = "w\<lparr>wd_calls := Suc (wd_calls w)\<rparr>" and ?v = "\<lambda>k. verdict taskID (pollAnswer env e taskID k)"
  have sh: "first_some (\<lambda>k. ?v (wd_calls w + k)) [0..<Suc n] =
      (case ?v (wd_calls w) of None \<Rightarrow> first_some (\<lambda>k. ?v (wd_calls ?w + k)) [0..<n] | Some v \<Rightarrow> Some v)"
  proof -
    have "first_some (\<lambda>k. ?v (wd_calls w + k)) (map Suc ks) = first_some (\<lambda>k. ?v (wd_calls ?w + k)) ks" for ks
      by (induction ks) (simp_all split: option.split)
    from this [of "[0..<n]"] show ?thesis
      by (simp add: upt_conv_Cons map_Suc_upt del: upt_Suc split: option.split)
  qed
  have st: "pollLoop env e taskID (Suc n) w =
      (case ?v (wd_calls w) of None \<Rightarrow> pollLoop env e taskID n ?w | Some v \<Rightarrow> (outcomeOf v, ?w))"
    by (simp add: bnd_apply GetTaskResult_step verdict_def fail_def split: sum.split option.split)
  show ?case
  proof (cases "?v (wd_calls w)")
    case None
    with st have "pollLoop env e taskID (Suc n) w = pollLoop env e taskID n ?w" by simp
    with Suc.IH [of ?w] None show ?thesis unfolding sh by (auto split: option.split)
  next
    case (Some v)
    with st have "pollLoop env e taskID (Suc n) w = (outcomeOf v, ?w)" by simp
    with Some show ?thesis unfolding sh by simp
  qed
qed simp

text \<open>
  C27: Polling an agent ends. An executor asks for the result of a task at most 30 times; it returns
  what the first answer that decides says (the output of a completed task, or the error of a
  failed one), passes over answers that could not be had or read, and reports a time-out when none
  of the 30 decides.
\<close>

theorem polling_ends:
  "fst (pollUntilComplete env (NewA2AExecutor url) taskID w) =
     (case first_some (\<lambda>k. verdict taskID (pollAnswer env (NewA2AExecutor url) taskID (wd_calls w + k))) [0..<30] of
        None \<Rightarrow> Err (A2AFailed (A2ATimedOut taskID 30))
      | Some v \<Rightarrow> outcomeOf v) \<and>
   wd_calls (snd (pollUntilComplete env (NewA2AExecutor url) taskID w)) \<le> wd_calls w + 30"
proof -
  have m: "ex_maxRetry (NewA2AExecutor url) = 30" by (simp add: NewA2AExecutor_def)
  show ?thesis
    using pollLoop_verdicts [of env "NewA2AExecutor url" taskID 30 w] unfolding pollUntilComplete_def m by blast
qed

end
