(* ===== verification/Tasks.thy ===== *)
theory Tasks
  imports Flow A2A
begin

text \<open>
  \<open>internal/task\<close>: the tasks of a workflow. A task is built from a task instance and run: it calls an
  operation or an agent, waits for an event, chooses a branch, or is executed locally; then it puts
  the next tasks in flight or completes the workflow. The actions and relations of a task come from
  the store and are never nil pointers. \<open>Run\<close> of an operation may change the input kept in the task
  object, and the scheduler runs the same object again when it fails, so \<open>Run\<close> works on the object and
  the world together.
\<close>

section \<open>Task objects\<close>

record baseTask =
  bt_taskID :: string
  bt_taskInstanceID :: string
  bt_workflowID :: string
  bt_workflowInstanceID :: string
  bt_input :: string
  bt_taskType :: string
  bt_outputFilter :: string

record operationTask =
  ot_base :: baseTask
  ot_action :: "mWorkflowTaskAction option"
  ot_transition :: "mWorkflowTaskRelation option"

record eventTask =
  et_base :: baseTask
  et_operationTask :: operationTask
  et_action :: "mWorkflowTaskAction option"
  et_transition :: "mWorkflowTaskRelation option"

record switchTask =
  st_base :: baseTask
  st_transitions :: "mWorkflowTaskRelation list"

record localRuntimeTask =
  lt_base :: baseTask
  lt_action :: "mWorkflowTaskAction option"
  lt_transitions :: "mWorkflowTaskRelation list"
  lt_definition :: gomap

datatype taskObj =
    TOperation operationTask
  | TEvent eventTask
  | TSwitch switchTask
  | TLocal localRuntimeTask

definition isLocalRuntimeTask :: "string \<Rightarrow> bool" where
  "isLocalRuntimeTask taskType \<longleftrightarrow>
     to_lower taskType \<in> set [''set'', ''do'', ''fork'', ''for'', ''try'', ''wait'', ''raise'', ''run'', ''emit'']"

definition newBaseTask :: "mWorkflowTaskInstance \<Rightarrow> mWorkflowTask \<Rightarrow> baseTask" where
  "newBaseTask ti t = \<lparr>bt_taskID = ti_TaskID ti, bt_taskInstanceID = ti_TaskInstanceID ti,
     bt_workflowID = ti_WorkflowID ti, bt_workflowInstanceID = ti_WorkflowInstanceID ti, bt_input = ti_Input ti,
     bt_taskType = t_TaskType t, bt_outputFilter = t_TaskOutputFilter t\<rparr>"

definition headOf :: "'a list \<Rightarrow> 'a option" where
  "headOf xs = (case xs of [] \<Rightarrow> None | x # _ \<Rightarrow> Some x)"

definition NewOperationTask :: "mWorkflowTaskInstance \<Rightarrow> mWorkflowTask \<Rightarrow> operationTask" where
  "NewOperationTask ti t = \<lparr>ot_base = newBaseTask ti t, ot_action = headOf (t_Actions t), ot_transition = headOf (t_ChildTasks t)\<rparr>"

definition NewEventTask :: "mWorkflowTaskInstance \<Rightarrow> mWorkflowTask \<Rightarrow> eventTask" where
  "NewEventTask ti t = \<lparr>et_base = newBaseTask ti t, et_operationTask = NewOperationTask ti t,
     et_action = headOf (t_Actions t), et_transition = headOf (t_ChildTasks t)\<rparr>"

definition NewSwitchTask :: "mWorkflowTaskInstance \<Rightarrow> mWorkflowTask \<Rightarrow> switchTask" where
  "NewSwitchTask ti t = \<lparr>st_base = newBaseTask ti t, st_transitions = t_ChildTasks t\<rparr>"

text \<open>The error of decoding the definition is dropped: it leaves the nil map.\<close>

definition decodeDefinition :: "'db env \<Rightarrow> string \<Rightarrow> gomap" where
  "decodeDefinition env d =
     (if d = [] then None
      else (case unmarshal (ev_jnum env) d of Some (VMap m) \<Rightarrow> Some m | _ \<Rightarrow> None))"

definition NewLocalRuntimeTask :: "'db env \<Rightarrow> mWorkflowTaskInstance \<Rightarrow> mWorkflowTask \<Rightarrow> localRuntimeTask" where
  "NewLocalRuntimeTask env ti t = \<lparr>lt_base = newBaseTask ti t, lt_action = headOf (t_Actions t),
     lt_transitions = t_ChildTasks t, lt_definition = decodeDefinition env (t_TaskDefinition t)\<rparr>"

definition task_New :: "'db env \<Rightarrow> mWorkflowTaskInstance option \<Rightarrow> taskObj option" where
  "task_New env instance =
     (case instance of
        None \<Rightarrow> None
      | Some ti \<Rightarrow>
          (case ti_Task ti of
             None \<Rightarrow> None
           | Some t \<Rightarrow> Some (
               if isLocalRuntimeTask (t_TaskType t) then TLocal (NewLocalRuntimeTask env ti t)
               else if t_TaskType t = ''operation'' then TOperation (NewOperationTask ti t)
               else if t_TaskType t = ''event'' \<or> t_TaskType t = ''listen'' then TEvent (NewEventTask ti t)
               else if t_TaskType t = ''switch'' then TSwitch (NewSwitchTask ti t)
               else TOperation (NewOperationTask ti t))))"

section \<open>Going on\<close>

definition completeWorkflow :: "'db env \<Rightarrow> baseTask \<Rightarrow> ('db, unit) rt" where
  "completeWorkflow env base =
     updateInstance env (zeroInstance\<lparr>i_WorkflowInstanceID := bt_workflowInstanceID base,
       i_WorkflowStatus := WorkflowInstanceSuccessStatus\<rparr>)"

definition nextInstance :: "baseTask \<Rightarrow> mWorkflowTaskRelation \<Rightarrow> int \<Rightarrow> string \<Rightarrow> string \<Rightarrow> mWorkflowTaskInstance" where
  "nextInstance base transition status input taskInstanceID =
     newTaskInstance (bt_workflowInstanceID base) (bt_workflowID base) (r_ToTaskID transition) taskInstanceID status input"

definition publishNextOrComplete :: "'db env \<Rightarrow> baseTask \<Rightarrow> mWorkflowTaskRelation option \<Rightarrow> string \<Rightarrow> ('db, unit) rt" where
  "publishNextOrComplete env base transition input =
     (case transition of
        None \<Rightarrow> completeWorkflow env base
      | Some tr \<Rightarrow>
          if r_ToTaskID tr = TaskEndID then completeWorkflow env base
          else bnd (newUUID env) (\<lambda>taskInstanceID.
            queuePublish env [nextInstance base tr TaskInstanceWaitStatus input taskInstanceID]))"

fun nextInstances :: "'db env \<Rightarrow> baseTask \<Rightarrow> string \<Rightarrow> mWorkflowTaskRelation list \<Rightarrow> ('db, mWorkflowTaskInstance list) rt" where
  "nextInstances env base input [] = ret []"
| "nextInstances env base input (rel # rels) =
     (if r_ToTaskID rel = TaskEndID then nextInstances env base input rels
      else bnd (newUUID env) (\<lambda>taskInstanceID.
        bnd (nextInstances env base input rels) (\<lambda>instances.
          ret (nextInstance base rel TaskInstanceWaitStatus input taskInstanceID # instances))))"

definition publishNextTasks :: "'db env \<Rightarrow> baseTask \<Rightarrow> mWorkflowTaskRelation list \<Rightarrow> string \<Rightarrow> ('db, unit) rt" where
  "publishNextTasks env base relations input =
     (if relations = [] then publishNextOrComplete env base None input
      else bnd (nextInstances env base input relations) (\<lambda>instances.
        if instances = [] then publishNextOrComplete env base None input
        else queuePublish env instances))"

section \<open>Publishing an event\<close>

text \<open>\<open>net.SplitHostPort\<close>: \<open>None\<close> is the error.\<close>

definition splitHostPort :: "string \<Rightarrow> (string \<times> string) option" where
  "splitHostPort s =
     (if CHR '':'' \<notin> set s then None
      else
        let port = rev (takeWhile (\<lambda>c. c \<noteq> CHR '':'') (rev s));
            before = take (length s - length port - 1) s in
        if take 1 s = ''['' then
          (let host = takeWhile (\<lambda>c. c \<noteq> CHR '']'') (tl s) in
           if CHR '']'' \<notin> set s then None
           else if before \<noteq> ''['' @ host @ '']'' then None
           else if CHR ''['' \<in> set (tl s) \<or> CHR '']'' \<in> set port then None
           else Some (host, port))
        else if CHR '':'' \<in> set before then None
        else if CHR ''['' \<in> set s \<or> CHR '']'' \<in> set s then None
        else Some (before, port))"

text \<open>The address dialled is the result; making the connection is an outside call.\<close>

definition getGRPCConn :: "'db env \<Rightarrow> ('db, string) rt" where
  "getGRPCConn env =
     (if \<not> ev_naming env (ev_serverName env) then fail NamingNotRegistered
      else
        bnd (outside (\<lambda>n. ev_select env n (Catalog_ServerName (ev_config env)))) (\<lambda>r.
        bnd (ofSum r SelectFailed) (\<lambda>instance.
        case instance of
          None \<Rightarrow> fail CatalogNotRunning
        | Some address \<Rightarrow>
            (case splitHostPort address of
               None \<Rightarrow> fail (BadAddress address)
             | Some (host, port) \<Rightarrow>
                 let addr = host @ '':'' @ port in
                 bnd (outside (\<lambda>n. ev_dial env n addr)) (\<lambda>err.
                 bnd (failIf err DialFailed) (\<lambda>_. ret addr))))))"

definition queryPublishCatalog :: "'db env \<Rightarrow> string \<Rightarrow> ('db, workflowEventCatalog) rt" where
  "queryPublishCatalog env operationID =
     bnd (getGRPCConn env) (\<lambda>conn.
     bnd (outside (\<lambda>n. ev_operations env n conn operationID)) (\<lambda>r.
     bnd (ofSum r QueryOperationsFailed) (\<lambda>operations.
     case operations of
       [] \<Rightarrow> fail (OperationInvalid operationID)
     | operation # _ \<Rightarrow>
         if op_Type operation \<noteq> EventTypePublish then fail (OperationInvalid operationID)
         else ret \<lparr>ec_OperationID = operationID, ec_Topic = op_ChannelName operation, ec_Schema = op_Schema operation\<rparr>)))"

definition publishEvent :: "'db env \<Rightarrow> string \<Rightarrow> string \<Rightarrow> string \<Rightarrow> string \<Rightarrow> ('db, unit) rt" where
  "publishEvent env workflowInstanceID taskInstanceID operationID content =
     bnd (queryPublishCatalog env operationID) (\<lambda>eventCatalog.
       Publish env (Builder (Flow_Protocol (ev_config env))) (ec_Topic eventCatalog) content
         [(''workflowinstanceid'', workflowInstanceID), (''workflowtaskinstanceid'', taskInstanceID)])"

section \<open>Operations and events\<close>

text \<open>
  \<open>action.OperationName[:3]\<close> panics on a name of one or two bytes.
\<close>

definition isA2ATask :: "mWorkflowTaskAction option \<Rightarrow> (run_error, bool) outcome" where
  "isA2ATask action =
     (case action of
        None \<Rightarrow> Ok False
      | Some a \<Rightarrow>
          if a_OperationType a = ''a2a'' \<or> a_OperationType a = ''agent'' then Ok True
          else if a_OperationName a \<noteq> [] then
            (if length (a_OperationName a) < 3 then Panic ''slice bounds out of range''
             else Ok (take 3 (a_OperationName a) = ''a2a''))
          else Ok False)"

definition newA2AExecutorFromAction :: "mWorkflowTaskAction \<Rightarrow> A2AExecutor" where
  "newA2AExecutorFromAction action =
     NewA2AExecutor (if a_OperationName action = [] then ''http://localhost:9090'' else a_OperationName action)"

type_synonym ('db, 't, 'a) trt = "('t \<times> 'db world, run_error, 'a) prog"

definition onWorld :: "('t \<Rightarrow> ('db, 'a) rt) \<Rightarrow> ('db, 't, 'a) trt" where
  "onWorld p tw = (case tw of (t, w) \<Rightarrow> (case p t w of (r, w') \<Rightarrow> (r, t, w')))"

definition setInput :: "string \<Rightarrow> ('db, operationTask, unit) trt" where
  "setInput output tw = (case tw of (t, w) \<Rightarrow> (Ok (), t\<lparr>ot_base := (ot_base t)\<lparr>bt_input := output\<rparr>\<rparr>, w))"

definition runA2AAction :: "'db env \<Rightarrow> mWorkflowTaskAction \<Rightarrow> ('db, operationTask, unit) trt" where
  "runA2AAction env action =
     bnd (onWorld (\<lambda>t. ExecuteFromAction env (newA2AExecutorFromAction action) action (bt_input (ot_base t)))) (\<lambda>output.
       if output \<noteq> [] then setInput output else ret ())"

definition runAction :: "'db env \<Rightarrow> string \<Rightarrow> ('db, operationTask, unit) trt" where
  "runAction env nextTaskInstanceID tw =
     (case ot_action (fst tw) of
        None \<Rightarrow> (Ok (), tw)
      | Some a \<Rightarrow>
          if a_OperationName a = [] \<or> isLocalRuntimeTask (a_OperationType a) then (Ok (), tw)
          else (case isA2ATask (Some a) of
                  Panic s \<Rightarrow> (Panic s, tw)
                | Err e \<Rightarrow> (Err e, tw)
                | Ok b \<Rightarrow>
                    if b then runA2AAction env a tw
                    else onWorld (\<lambda>t. publishEvent env (bt_workflowInstanceID (ot_base t)) nextTaskInstanceID
                           (a_OperationName a) (bt_input (ot_base t))) tw))"

text \<open>The two branches of \<open>Run\<close>: the last task of a workflow, and a task with a successor.\<close>

definition runLast :: "'db env \<Rightarrow> ('db, operationTask, unit) trt" where
  "runLast env =
     bnd (onWorld (\<lambda>_. newUUID env)) (\<lambda>u.
     bnd (runAction env u) (\<lambda>_.
     onWorld (\<lambda>t. publishNextOrComplete env (ot_base t) (ot_transition t) (bt_input (ot_base t)))))"

definition runAndPark :: "'db env \<Rightarrow> mWorkflowTaskRelation \<Rightarrow> ('db, operationTask, unit) trt" where
  "runAndPark env tr =
     bnd (onWorld (\<lambda>_. newUUID env)) (\<lambda>taskInstanceID.
     bnd (onWorld (\<lambda>t. queuePublish env [nextInstance (ot_base t) tr TaskInstanceSleepStatus
            (bt_input (ot_base t)) taskInstanceID])) (\<lambda>_.
     runAction env taskInstanceID))"

definition operationTask_Run :: "'db env \<Rightarrow> ('db, operationTask, unit) trt" where
  "operationTask_Run env =
     bnd (onWorld (\<lambda>_. metric (Inc ''operation_task'' ''total''))) (\<lambda>_ tw.
       case ot_transition (fst tw) of
         None \<Rightarrow> runLast env tw
       | Some tr \<Rightarrow> if r_ToTaskID tr = TaskEndID then runLast env tw else runAndPark env tr tw)"

text \<open>The event task hands over to the operation task it holds.\<close>

definition eventTask_Run :: "'db env \<Rightarrow> ('db, eventTask, unit) trt" where
  "eventTask_Run env =
     bnd (onWorld (\<lambda>_. metric (Inc ''event_task'' ''total''))) (\<lambda>_ tw.
       case et_transition (fst tw) of
         None \<Rightarrow> (Ok (), tw)
       | Some _ \<Rightarrow>
           (case operationTask_Run env (et_operationTask (fst tw), snd tw) of
              (r, ot, w') \<Rightarrow> (r, (fst tw)\<lparr>et_operationTask := ot\<rparr>, w')))"

section \<open>Switches\<close>

definition matchCondition :: "'db env \<Rightarrow> string \<Rightarrow> string \<Rightarrow> run_error + bool" where
  "matchCondition env input condition =
     (case unmarshal (ev_jnum env) input of
        None \<Rightarrow> Inl JsonError
      | Some jqData \<Rightarrow>
          (case One (ev_jnum env) (ev_gojq env) (NewJQ []) jqData (VStr condition) of
             Inl e \<Rightarrow> Inl (QueryError e)
           | Inr res \<Rightarrow>
               (case parse_bool (ev_gstr env res) of
                  None \<Rightarrow> Inl (ParseBoolError (ev_gstr env res))
                | Some b \<Rightarrow> Inr b)))"

definition publishOrComplete :: "'db env \<Rightarrow> switchTask \<Rightarrow> mWorkflowTaskRelation \<Rightarrow> ('db, unit) rt" where
  "publishOrComplete env t transition =
     (if r_ToTaskID transition = TaskEndID then completeWorkflow env (st_base t)
      else bnd (newUUID env) (\<lambda>taskInstanceID.
        queuePublish env [nextInstance (st_base t) transition TaskInstanceWaitStatus (bt_input (st_base t)) taskInstanceID]))"

text \<open>The loop over the transitions; \<open>default\<close> is the last one without a condition so far.\<close>

fun switchLoop :: "'db env \<Rightarrow> switchTask \<Rightarrow> mWorkflowTaskRelation option \<Rightarrow> mWorkflowTaskRelation list \<Rightarrow> ('db, unit) rt" where
  "switchLoop env t defaultTransition [] =
     (case defaultTransition of
        Some tr \<Rightarrow> bnd (metric (Inc ''switch_task'' ''pass'')) (\<lambda>_. publishOrComplete env t tr)
      | None \<Rightarrow> completeWorkflow env (st_base t))"
| "switchLoop env t defaultTransition (transition # transitions) =
     (if r_Condition transition = [] then switchLoop env t (Some transition) transitions
      else (case matchCondition env (bt_input (st_base t)) (r_Condition transition) of
              Inl e \<Rightarrow> fail e
            | Inr matched \<Rightarrow>
                if \<not> matched then
                  bnd (metric (Inc ''switch_task'' ''reject'')) (\<lambda>_. switchLoop env t defaultTransition transitions)
                else bnd (metric (Inc ''switch_task'' ''pass'')) (\<lambda>_. publishOrComplete env t transition)))"

definition switchTask_Run :: "'db env \<Rightarrow> switchTask \<Rightarrow> ('db, unit) rt" where
  "switchTask_Run env t =
     bnd (metric (Inc ''switch_task'' ''total'')) (\<lambda>_.
       if st_transitions t = [] then ret () else switchLoop env t None (st_transitions t))"

end
