(* ===== verification/LocalRuntime.thy ===== *)
theory LocalRuntime
  imports Tasks
begin

text \<open>
  \<open>internal/task/local_runtime.go\<close>: the tasks that the runtime executes itself, driven by the
  definition kept with the task. Go ranges over a map in any order; the order of the association list
  is the order of the run described.
\<close>

section \<open>Durations\<close>

text \<open>
  \<open>time.ParseDuration\<close>, in nanoseconds; \<open>None\<close> is the error. A fraction of a unit is rounded down
  exactly where the library computes with \<open>float64\<close>; sleeping has no effect in the model, so only the
  error matters here.
\<close>

definition units :: "(string \<times> nat) list" where
  "units = [(''ns'', 1), (''us'', 1000), ([CHR 0xC2, CHR 0xB5, CHR ''s''], 1000), ([CHR 0xCE, CHR 0xBC, CHR ''s''], 1000),
     (''ms'', 1000000), (''s'', 1000000000), (''m'', 60000000000), (''h'', 3600000000000)]"

fun leadingInt :: "nat \<Rightarrow> string \<Rightarrow> (nat \<times> string) option" where
  "leadingInt x [] = Some (x, [])"
| "leadingInt x (c # s) =
     (if \<not> is_digit c then Some (x, c # s)
      else if x > 2 ^ 63 div 10 then None
      else let x' = x * 10 + (of_char c - 48) in
           if x' > 2 ^ 63 then None else leadingInt x' s)"

definition fraction :: "nat \<Rightarrow> string \<Rightarrow> nat" where
  "fraction unit ds = (fold (\<lambda>c x. x * 10 + (of_char c - 48)) ds 0) * unit div 10 ^ length ds"

definition isUnitEnd :: "char \<Rightarrow> bool" where
  "isUnitEnd c \<longleftrightarrow> c = CHR ''.'' \<or> is_digit c"

text \<open>One number with its unit, added to \<open>d\<close>.\<close>

definition durationPart :: "nat \<Rightarrow> string \<Rightarrow> (nat \<times> string) option" where
  "durationPart d s =
     (case s of
        [] \<Rightarrow> None
      | c # _ \<Rightarrow>
          if \<not> isUnitEnd c then None
          else (case leadingInt 0 s of
             None \<Rightarrow> None
           | Some (v, s1) \<Rightarrow>
               let pre = s1 \<noteq> s;
                   dot = take 1 s1 = ''.'';
                   ds = (if dot then takeWhile is_digit (tl s1) else []);
                   s2 = (if dot then dropWhile is_digit (tl s1) else s1);
                   u = takeWhile (\<lambda>c. \<not> isUnitEnd c) s2;
                   s3 = dropWhile (\<lambda>c. \<not> isUnitEnd c) s2
               in if \<not> pre \<and> ds = [] then None
                  else if u = [] then None
                  else (case map_of units u of
                     None \<Rightarrow> None
                   | Some unit \<Rightarrow>
                       if v > 2 ^ 63 div unit then None
                       else let v' = v * unit + (if ds = [] then 0 else fraction unit ds) in
                            if v' > 2 ^ 63 \<or> d + v' > 2 ^ 63 then None else Some (d + v', s3))))"

text \<open>\<open>n\<close> bounds the number of parts, each of which takes a byte at least.\<close>

fun durationLoop :: "nat \<Rightarrow> nat \<Rightarrow> string \<Rightarrow> nat option" where
  "durationLoop 0 d s = None"
| "durationLoop (Suc n) d s =
     (if s = [] then Some d
      else (case durationPart d s of None \<Rightarrow> None | Some (d', s') \<Rightarrow> durationLoop n d' s'))"

definition parseDuration :: "string \<Rightarrow> int option" where
  "parseDuration s =
     (let neg = (take 1 s = ''-'');
          s' = (if take 1 s = ''-'' \<or> take 1 s = ''+'' then tl s else s) in
      if s' = ''0'' then Some 0
      else if s' = [] then None
      else (case durationLoop (Suc (length s')) 0 s' of
              None \<Rightarrow> None
            | Some d \<Rightarrow> if neg then Some (- int d) else if d > 2 ^ 63 - 1 then None else Some (int d)))"

section \<open>The executors\<close>

text \<open>The value of a set expression on the JSON text of an input, as JSON text.\<close>

definition setObject :: "'db env \<Rightarrow> string \<Rightarrow> gval \<Rightarrow> run_error + string" where
  "setObject env inp setExpr =
     (case (if inp = [] then Some VNil else unmarshal (ev_jnum env) inp) of
        None \<Rightarrow> Inl JsonError
      | Some input \<Rightarrow>
          (case Object (ev_jnum env) (ev_gojq env) (NewJQ []) input setExpr of
             Inl e \<Rightarrow> Inl (QueryError e)
           | Inr m \<Rightarrow> (case json_marshal (VMap m) of None \<Rightarrow> Inl MarshalFailed | Some bytes \<Rightarrow> Inr bytes)))"

definition executeSet :: "'db env \<Rightarrow> localRuntimeTask \<Rightarrow> run_error + string" where
  "executeSet env t =
     (if \<not> mhas (lt_definition t) ''set'' then Inr (bt_input (lt_base t))
      else setObject env (bt_input (lt_base t)) (mget (lt_definition t) ''set''))"

definition executeSetWithInput :: "'db env \<Rightarrow> gomap \<Rightarrow> string \<Rightarrow> run_error + string" where
  "executeSetWithInput env d input =
     (let setExpr = asMap (mget d ''set'') in
      if mempty setExpr then Inr input else setObject env input (VMap (mentries setExpr)))"

definition executeSetFromDef :: "'db env \<Rightarrow> localRuntimeTask \<Rightarrow> gomap \<Rightarrow> run_error + string" where
  "executeSetFromDef env t d =
     (let setExpr = asMap (mget d ''set'') in
      if mempty setExpr then Inr (bt_input (lt_base t)) else setObject env (bt_input (lt_base t)) (VMap (mentries setExpr)))"

definition executeWait :: "localRuntimeTask \<Rightarrow> run_error + string" where
  "executeWait t =
     (let waitDef = asMap (mget (lt_definition t) ''wait'');
          durationText = firstNonEmpty [asString (mget waitDef ''duration''), asString (mget waitDef ''seconds''),
            asString (mget waitDef ''milliseconds'')] in
      if durationText = [] then Inr (bt_input (lt_base t))
      else (case parseDuration durationText of
              None \<Rightarrow> Inl (DurationInvalid durationText)
            | Some _ \<Rightarrow> Inr (bt_input (lt_base t))))"

definition sprintMap :: "gomap \<Rightarrow> string" where
  "sprintMap m = sprint (VMap (mentries m))"

definition executeRaise :: "localRuntimeTask \<Rightarrow> run_error" where
  "executeRaise t =
     (let raiseDef = asMap (mget (lt_definition t) ''raise'') in
      if mempty raiseDef then Raised ''workflow raise task failed''
      else let errorDef = asMap (mget raiseDef ''error'') in
        if mempty errorDef then Raised (''workflow raise task failed: '' @ sprintMap raiseDef)
        else Raised (''workflow raise task failed: type='' @ asString (mget errorDef ''type'')
               @ '' title='' @ asString (mget errorDef ''title'') @ '' status='' @ asString (mget errorDef ''status'')
               @ '' detail='' @ asString (mget errorDef ''detail'')))"

definition executeRun :: "'db env \<Rightarrow> localRuntimeTask \<Rightarrow> ('db, unit) rt" where
  "executeRun env t =
     (case lt_action t of
        None \<Rightarrow> ret ()
      | Some a \<Rightarrow>
          if a_OperationName a = [] then ret ()
          else publishEvent env (bt_workflowInstanceID (lt_base t)) (bt_taskInstanceID (lt_base t)) (a_OperationName a)
                 (bt_input (lt_base t)))"

definition executeEmit :: "'db env \<Rightarrow> localRuntimeTask \<Rightarrow> ('db, unit) rt" where
  "executeEmit env t =
     (case lt_action t of
        None \<Rightarrow> ret ()
      | Some a \<Rightarrow>
          if a_OperationName a = [] then ret ()
          else publishEvent env (bt_workflowInstanceID (lt_base t)) (bt_taskInstanceID (lt_base t)) (a_OperationName a)
                 (bt_input (lt_base t)))"

definition detectTaskType :: "gomap \<Rightarrow> string" where
  "detectTaskType d =
     (if mhas d ''call'' then ''call''
      else (case find (mhas d) [''set'', ''wait'', ''raise'', ''run'', ''emit''] of Some key \<Rightarrow> key | None \<Rightarrow> TaskTypeCall))"

text \<open>The members of the task maps of a list, in the order the two loops visit them.\<close>

definition taskEntries :: "gval list \<Rightarrow> (string \<times> gval) list" where
  "taskEntries items = concat (map (\<lambda>i. mentries (asMap i)) items)"

fun tryLoop :: "'db env \<Rightarrow> localRuntimeTask \<Rightarrow> (string \<times> gval) list \<Rightarrow> run_error + string" where
  "tryLoop env t [] = Inr (bt_input (lt_base t))"
| "tryLoop env t ((taskName, taskDef) # es) =
     (let d = asMap taskDef; taskType = detectTaskType d in
      if taskType = ''set'' then executeSetFromDef env t d
      else if taskType = ''raise'' then Inl (Raised (''try task '' @ taskName @ '' raised: '' @ sprintMap d))
      else if taskType = ''call'' then Inr (bt_input (lt_base t))
      else tryLoop env t es)"

definition executeTry :: "'db env \<Rightarrow> localRuntimeTask \<Rightarrow> run_error + string" where
  "executeTry env t = tryLoop env t (taskEntries (asSlice (mget (lt_definition t) ''try'')))"

text \<open>The body of the for loop on one item: the input is threaded through its set tasks.\<close>

fun forBody :: "'db env \<Rightarrow> string \<Rightarrow> (string \<times> gval) list \<Rightarrow> run_error + string" where
  "forBody env itemInput [] = Inr itemInput"
| "forBody env itemInput ((_, taskDef) # es) =
     (let d = asMap taskDef in
      if detectTaskType d = ''set'' then
        (case executeSetWithInput env d itemInput of Inl e \<Rightarrow> Inl e | Inr result \<Rightarrow> forBody env result es)
      else forBody env itemInput es)"

definition forItems :: "'db env \<Rightarrow> string \<Rightarrow> gval list" where
  "forItems env input =
     (let items = (if input = [] then []
                   else (case unmarshal (ev_jnum env) input of Some (VSeq arr) \<Rightarrow> arr | _ \<Rightarrow> []))
      in if items = [] then [VStr input] else items)"

definition executeFor :: "'db env \<Rightarrow> localRuntimeTask \<Rightarrow> run_error + string" where
  "executeFor env t =
     (let forDef = asMap (mget (lt_definition t) ''for''); forDo = asMap (mget forDef ''do'') in
      if mempty forDo then Inr (bt_input (lt_base t))
      else (case traverse (\<lambda>i. forBody env (case json_marshal i of None \<Rightarrow> [] | Some s \<Rightarrow> s)
                     (taskEntries (asSlice (mget forDo ''do'')))) (forItems env (bt_input (lt_base t))) of
              Inl e \<Rightarrow> Inl e
            | Inr _ \<Rightarrow> Inr (bt_input (lt_base t))))"

fun doLoop :: "'db env \<Rightarrow> localRuntimeTask \<Rightarrow> string \<Rightarrow> (string \<times> gval) list \<Rightarrow> run_error + string" where
  "doLoop env t currentInput [] = Inr currentInput"
| "doLoop env t currentInput ((_, taskDef) # es) =
     (let d = asMap taskDef; taskType = detectTaskType d in
      if taskType = ''set'' then
        (case executeSetFromDef env t d of
           Inl e \<Rightarrow> Inl e
         | Inr result \<Rightarrow> doLoop env t (if result \<noteq> [] then result else currentInput) es)
      else if taskType = ''raise'' then Inl (Raised (''do task raised: '' @ sprintMap d))
      else doLoop env t currentInput es)"

definition executeDo :: "'db env \<Rightarrow> localRuntimeTask \<Rightarrow> run_error + string" where
  "executeDo env t = doLoop env t (bt_input (lt_base t)) (taskEntries (asSlice (mget (lt_definition t) ''do'')))"

definition pureResult :: "run_error + string \<Rightarrow> ('db, string) rt" where
  "pureResult r = ofSum r (\<lambda>e. e)"

definition execute :: "'db env \<Rightarrow> localRuntimeTask \<Rightarrow> ('db, string) rt" where
  "execute env t =
     (let ty = bt_taskType (lt_base t); input = bt_input (lt_base t) in
      if ty = ''set'' then pureResult (executeSet env t)
      else if ty = ''wait'' then pureResult (executeWait t)
      else if ty = ''raise'' then fail (executeRaise t)
      else if ty = ''run'' then bnd (executeRun env t) (\<lambda>_. ret input)
      else if ty = ''fork'' then ret input
      else if ty = ''try'' then pureResult (executeTry env t)
      else if ty = ''for'' then pureResult (executeFor env t)
      else if ty = ''do'' then pureResult (executeDo env t)
      else if ty = ''emit'' then bnd (executeEmit env t) (\<lambda>_. ret input)
      else ret input)"

definition localRuntimeTask_Run :: "'db env \<Rightarrow> localRuntimeTask \<Rightarrow> ('db, unit) rt" where
  "localRuntimeTask_Run env t =
     bnd (execute env t) (\<lambda>nextInput0.
       let nextInput = FilterWorkflowTaskOutputData (ev_jnum env) (ev_gojq env) nextInput0 (bt_outputFilter (lt_base t)) in
       case lt_transitions t of
         [] \<Rightarrow> completeWorkflow env (lt_base t)
       | tr # trs \<Rightarrow>
           if r_ToTaskID tr = TaskEndID then completeWorkflow env (lt_base t)
           else if trs = [] then publishNextOrComplete env (lt_base t) (Some tr) nextInput
           else publishNextTasks env (lt_base t) (tr # trs) nextInput)"

section \<open>Running any task\<close>

text \<open>The interface \<open>Task\<close>: the method of the object's own type.\<close>

definition Run :: "'db env \<Rightarrow> ('db, taskObj, unit) trt" where
  "Run env tw =
     (case fst tw of
        TOperation t \<Rightarrow> (case operationTask_Run env (t, snd tw) of (r, t', w) \<Rightarrow> (r, TOperation t', w))
      | TEvent t \<Rightarrow> (case eventTask_Run env (t, snd tw) of (r, t', w) \<Rightarrow> (r, TEvent t', w))
      | TSwitch t \<Rightarrow> (case switchTask_Run env t (snd tw) of (r, w) \<Rightarrow> (r, TSwitch t, w))
      | TLocal t \<Rightarrow> (case localRuntimeTask_Run env t (snd tw) of (r, w) \<Rightarrow> (r, TLocal t, w)))"

end
