(* ===== verification/FlowSpec.thy ===== *)
theory FlowSpec
  imports Flow
begin

text \<open>
  What starting a workflow and moving it on do to the store and to the queue, and when they succeed.
\<close>

section \<open>A concrete environment\<close>

definition demo_metrics :: metrics where
  "demo_metrics = \<lparr>m_counters = Some [], m_histograms = Some [], m_gauges = Some [], m_port = [], m_registry = []\<rparr>"

definition demo_env :: "tables env" where
  "demo_env = \<lparr>ev_store = mem_gorm, ev_sched = (\<lambda>k. rev [0..<k]), ev_uuid = demo_uuid, ev_clock = (\<lambda>n. 100 + n),
     ev_jnum = (\<lambda>t. Some (VFloat t (Some t))), ev_gojq = (\<lambda>q. Inr (\<lambda>v. [Inr v])), ev_gstr = sprint,
     ev_timeText = show_nat, ev_timeParse = (\<lambda>_. None), ev_rfc3339 = show_nat, ev_config = zeroConfig\<lparr>Flow_Protocol := ''meshmessage''\<rparr>,
     ev_queueStore = QueueTypeInMemory, ev_serverName = ''workflow'', ev_queues = initQueues initialConfig,
     ev_naming = (\<lambda>_. True), ev_select = (\<lambda>_ _. Inr (Some ''10.0.0.1:8080'')), ev_dial = (\<lambda>_ _. None),
     ev_operations = (\<lambda>_ _ _. Inr [\<lparr>op_Type = ''publish'', op_ChannelName = ''topic'', op_Schema = []\<rparr>]),
     ev_meshNew = (\<lambda>_ _. None), ev_meshPublish = (\<lambda>_ _. Inr (''0'', [])),
     ev_post = (\<lambda>_ _ _. Inr (200, ''{}'')), ev_get = (\<lambda>_ _. Inr (200, ''{}''))\<rparr>"

definition demo_world :: "tables \<Rightarrow> tables world" where
  "demo_world t = \<lparr>wd_db = t, wd_uuids = 50, wd_ticks = 0, wd_calls = 0, wd_metrics = demo_metrics, wd_queue = [],
     wd_topic = [], wd_events = []\<rparr>"

lemma demo_memEnv: "memEnv demo_env (\<lambda>db. db)"
proof -
  have "GetQueue (ev_queues demo_env) (ev_queueStore demo_env) = Some InMemoryQueue" by code_simp
  then show ?thesis using mem.gorm_store_axioms sched_ok_rev by (simp add: memEnv_def demo_env_def)
qed

lemma demo_metrics_typed: "metrics_typed (wd_metrics (demo_world t))"
  by (simp add: demo_world_def demo_metrics_def metrics_typed_def readMap_def)

section \<open>Starting\<close>

text \<open>The start edges in force of a workflow.\<close>

definition startEdges :: "tables \<Rightarrow> string \<Rightarrow> mWorkflowTaskRelation list" where
  "startEdges t i = filter (\<lambda>r. r_FromTaskID r = TaskStartID \<and> r_WorkflowID r = i \<and> r_Status r = NormalStatus) (tb_relation t)"

text \<open>
  The world after a start: one more instance, in process, and one more task in flight, waiting, at the
  end of a start edge; the rest of the store is as it was.
\<close>

definition started :: "('db \<Rightarrow> tables) \<Rightarrow> workflowParam \<Rightarrow> string \<Rightarrow> 'db world \<Rightarrow> 'db world \<Rightarrow> bool" where
  "started view param i w w' \<longleftrightarrow>
     (\<exists>k now tid. \<exists>r\<in>set (startEdges (view (wd_db w)) (p_ID param)).
        view (wd_db w') = tb_instance_update
          (\<lambda>rs. rs @ [(newInstance (p_ID param) i)\<lparr>i_CreateTime := now, i_UpdateTime := now, i_ID := k\<rparr>]) (view (wd_db w)) \<and>
        wd_queue w' = wd_queue w @ [Some ((newTaskInstance i (p_ID param) (r_ToTaskID r) tid TaskInstanceWaitStatus
          (p_Input param))\<lparr>ti_IsStart := True\<rparr>)])"

lemma SelectStartTask_edge:
  assumes "gorm_store G view" and "i \<noteq> []" and "SelectStartTask G (zeroTask\<lparr>t_WorkflowID := i\<rparr>) db = Inr res"
  shows "case res of None \<Rightarrow> startEdges (view db) i = []
    | Some t \<Rightarrow> \<exists>r\<in>set (startEdges (view db) i). t_TaskID t = r_ToTaskID r"
proof -
  have "x \<in># lv_relation (live (view db) i) \<and> r_FromTaskID x = TaskStartID \<longleftrightarrow>
      (\<exists>r\<in>set (startEdges (view db) i). x = ro_setid relationRow 0 r)" for x
    by (auto simp: live_def in_bag startEdges_def relationRow_def)
  with gorm_store.start_rows [OF assms] show ?thesis
    by (cases res) (auto simp: startEdges_def filter_empty_conv zeroTask_def; metis relation_setid(2))+
qed

lemma Start_OkE:
  assumes "memEnv env view" and "Start env param w = (Ok i, w')"
  obtains t w1 w2 w3 where "SelectStartTask (ev_store env) (zeroTask\<lparr>t_WorkflowID := p_ID param\<rparr>) (wd_db w) = Inr (Some t)"
    and "i = ev_uuid env (wd_uuids w)" and "wd_db w1 = wd_db w" and "wd_queue w1 = wd_queue w"
    and "insertInstance env (newInstance (p_ID param) i) w1 = (Ok (), w2)"
    and "wd_db w3 = wd_db w2" and "wd_queue w3 = wd_queue w2"
    and "\<exists>tid. queuePublish env [(newTaskInstance i (p_ID param) (t_TaskID t) tid TaskInstanceWaitStatus
           (p_Input param))\<lparr>ti_IsStart := True\<rparr>] w3 = (Ok (), w')"
proof -
  from assms(2) obtain w0 r where 0: "metric (Inc ''engine'' ''start_request'') w = (Ok (), w0)"
      "SelectStartTask (ev_store env) (zeroTask\<lparr>t_WorkflowID := p_ID param\<rparr>) (wd_db w0) = Inr r"
      "(case r of None \<Rightarrow> fail WorkflowNotExists | Some task \<Rightarrow>
         bnd (newUUID env) (\<lambda>workflowInstanceID.
         bnd (insertInstance env (newInstance (p_ID param) workflowInstanceID)) (\<lambda>_.
         bnd (newUUID env) (\<lambda>taskInstanceID.
         bnd (queuePublish env [(newTaskInstance workflowInstanceID (p_ID param) (t_TaskID task) taskInstanceID
                TaskInstanceWaitStatus (p_Input param))\<lparr>ti_IsStart := True\<rparr>]) (\<lambda>_.
         ret workflowInstanceID))))) w0 = (Ok i, w')"
    unfolding Start_def by (auto elim!: bnd_OkE dalRead_OkE)
  note k = keepsD [OF keeps_metric(1) 0(1)] keepsD [OF keeps_metric(2) 0(1)] keepsD [OF keeps_metric(5) 0(1)]
  from 0(3) obtain t where t: "r = Some t" by (cases r) auto
  from 0(3) t obtain w2 w4 where 2: "i = ev_uuid env (wd_uuids w0)"
      "insertInstance env (newInstance (p_ID param) i) (w0\<lparr>wd_uuids := Suc (wd_uuids w0)\<rparr>) = (Ok (), w2)"
      "queuePublish env [(newTaskInstance i (p_ID param) (t_TaskID t) (ev_uuid env (wd_uuids w2)) TaskInstanceWaitStatus
         (p_Input param))\<lparr>ti_IsStart := True\<rparr>] (w2\<lparr>wd_uuids := Suc (wd_uuids w2)\<rparr>) = (Ok (), w')"
    by (auto simp: newUUID_def elim!: bnd_OkE)
  show thesis
    by (rule that [OF _ _ _ _ 2(2) _ _ exI, OF _ _ _ _ _ _ 2(3)]) (use 0(2) t 2(1) k in simp_all)
qed

lemma Start_started:
  assumes "memEnv env view" and "p_ID param \<noteq> []" and "Start env param w = (Ok i, w')"
  shows "i = ev_uuid env (wd_uuids w) \<and> started view param i w w'"
proof -
  from Start_OkE [OF assms(1,3)] obtain t w1 w2 w3 tid where
    s: "SelectStartTask (ev_store env) (zeroTask\<lparr>t_WorkflowID := p_ID param\<rparr>) (wd_db w) = Inr (Some t)"
    and i: "i = ev_uuid env (wd_uuids w)" and w1: "wd_db w1 = wd_db w" "wd_queue w1 = wd_queue w"
    and ins: "insertInstance env (newInstance (p_ID param) i) w1 = (Ok (), w2)"
    and w3: "wd_db w3 = wd_db w2" "wd_queue w3 = wd_queue w2"
    and pub: "queuePublish env [(newTaskInstance i (p_ID param) (t_TaskID t) tid TaskInstanceWaitStatus
           (p_Input param))\<lparr>ti_IsStart := True\<rparr>] w3 = (Ok (), w')" by metis
  from SelectStartTask_edge [OF memEnv_store [OF assms(1)] assms(2) s]
  obtain r where r: "r \<in> set (startEdges (view (wd_db w)) (p_ID param))" "t_TaskID t = r_ToTaskID r" by auto
  from insertInstance_effect [OF memEnv_store [OF assms(1)] ins] obtain k now where
    "view (wd_db w2) = tb_instance_update
       (\<lambda>rs. rs @ [(newInstance (p_ID param) i)\<lparr>i_CreateTime := now, i_UpdateTime := now, i_ID := k\<rparr>]) (view (wd_db w1))" by blast
  moreover have "wd_db w' = wd_db w3" by (rule keepsD [OF keeps_queuePublish(1) pub])
  moreover have "wd_queue w2 = wd_queue w1" by (rule keepsD [OF keeps_dal_ops(1) ins])
  ultimately have "started view param i w w'"
    unfolding started_def using r w1 w3 queuePublish_ok [OF assms(1) pub]
    by (intro exI [of _ k] exI [of _ now] exI [of _ tid] bexI [of _ r]) simp_all
  with i show ?thesis by blast
qed

text \<open>
  C5: Starting a workflow. When \<open>Start\<close> returns an instance identifier, it is the next fresh one; the store has
  exactly one more workflow instance, with that identifier and in process, and nothing else in it
  has changed; and exactly one task is put in flight, waiting, for the task at the end of a start edge
  in force of that workflow, with the caller's input.
\<close>

theorem Start_effect:
  assumes "memEnv env view" and "p_ID param \<noteq> []" and "Start env param w = (Ok i, w')"
  shows "i = ev_uuid env (wd_uuids w) \<and> started view param i w w'"
  by (rule Start_started [OF assms])

text \<open>A store with one workflow of one task, its start edge and its end edge.\<close>

definition demo_tables :: tables where
  "demo_tables = empty_tables\<lparr>
     tb_relation := [zeroRelation\<lparr>r_ID := 1, r_WorkflowID := ''w'', r_FromTaskID := TaskStartID, r_ToTaskID := ''t'', r_Status := NormalStatus\<rparr>,
       zeroRelation\<lparr>r_ID := 2, r_WorkflowID := ''w'', r_FromTaskID := ''t'', r_ToTaskID := TaskEndID, r_Status := NormalStatus\<rparr>],
     tb_task := [zeroTask\<lparr>t_ID := 1, t_WorkflowID := ''w'', t_TaskID := ''t'', t_TaskType := ''operation'', t_Status := NormalStatus\<rparr>]\<rparr>"

definition demo_param :: workflowParam where
  "demo_param = \<lparr>p_ID = ''w'', p_InstanceID = [], p_TaskInstanceID = [], p_Input = ''{}''\<rparr>"

theorem Start_effect_witness:
  "\<exists>i w'. Start demo_env demo_param (demo_world demo_tables) = (Ok i, w') \<and>
     started (\<lambda>db. db) demo_param i (demo_world demo_tables) w'"
proof -
  have "is_ok (fst (Start demo_env demo_param (demo_world demo_tables)))" by code_simp
  then obtain i w' where s: "Start demo_env demo_param (demo_world demo_tables) = (Ok i, w')"
    by (cases "Start demo_env demo_param (demo_world demo_tables)"; cases "fst (Start demo_env demo_param (demo_world demo_tables))") auto
  with Start_effect [OF demo_memEnv _ s] show ?thesis by (auto simp: demo_param_def)
qed

section \<open>When a start succeeds\<close>

text \<open>An environment whose store does not fail.\<close>

definition reliableEnv :: "'db env \<Rightarrow> ('db \<Rightarrow> tables) \<Rightarrow> bool" where
  "reliableEnv env view \<longleftrightarrow> memEnv env view \<and> gorm_reliable (ev_store env) view"

lemma metric_ok:
  assumes "metrics_typed (wd_metrics w)" and "\<And>p s p'. metrics_typed p \<Longrightarrow> m p \<noteq> (Panic s, p')"
    and "\<And>p. metrics_typed p \<Longrightarrow> metrics_typed (snd (m p))"
  obtains p where "metric m w = (Ok (), w\<lparr>wd_metrics := p\<rparr>)" and "metrics_typed p"
proof -
  obtain r p where m: "m (wd_metrics w) = (r, p)" by force
  with assms(2) [OF assms(1)] have "metric m w = (Ok (), w\<lparr>wd_metrics := p\<rparr>)"
    by (cases r) (auto simp: metric_def)
  moreover from assms(3) [OF assms(1)] m have "metrics_typed p" by simp
  ultimately show thesis by (rule that)
qed

lemma gauge_ok:
  assumes "metrics_typed (wd_metrics w)"
  obtains p where "metric (gaugeAdd name label val) w = (Ok (), w\<lparr>wd_metrics := p\<rparr>)" and "metrics_typed p"
  using metric_ok [OF assms, of "gaugeAdd name label val"] gaugeAdd_no_panic gaugeAdd_typed by blast

lemma queuePublish_total:
  assumes "memEnv env view" and "metrics_typed (wd_metrics w)"
  obtains p where "queuePublish env ts w = (Ok (), w\<lparr>wd_metrics := p, wd_queue := wd_queue w @ map Some ts\<rparr>)" and "metrics_typed p"
proof (cases "ts = []")
  case True
  with assms show thesis
    by (intro that [of "wd_metrics w"]) (simp_all add: memEnv_queue [OF assms(1)] inMemory_Publish_def)
next
  case False
  obtain p where "metric (gaugeAdd ''task_queue'' (queueSizeOf InMemoryQueue) (int (length (map Some ts)))) w = (Ok (), w\<lparr>wd_metrics := p\<rparr>)"
      "metrics_typed p" by (rule gauge_ok [OF assms(2)])
  with False show thesis
    by (intro that [of p]) (simp_all add: memEnv_queue [OF assms(1)] inMemory_Publish_def Add_def rt_simps send_def)
qed

context gorm_reliable
begin

lemmas instance_create_total = inX.create_total
lemmas instance_updates_total = inX.updates_total
lemmas taskInstance_create_total = tiX.create_total
lemmas taskInstance_updates_total = tiX.updates_total
lemmas taskInstance_first_total = tiX.first_total

end

lemma insertInstance_total:
  assumes rel: "gorm_reliable (ev_store env) view"
  shows "\<exists>db'. insertInstance env r w = (Ok (), w\<lparr>wd_ticks := Suc (wd_ticks w), wd_db := db'\<rparr>)"
proof -
  obtain db' where "g_create (g_instance (ev_store env))
      (r\<lparr>i_CreateTime := ev_clock env (wd_ticks w), i_UpdateTime := ev_clock env (wd_ticks w)\<rparr>) (wd_db w) = Inr db'"
    using gorm_reliable.instance_create_total [OF rel] by metis
  then show ?thesis
    by (intro exI [of _ db']) (simp add: insertInstance_def InsertInstance_def timeNow_def bnd_apply dalRun_def stmt_def)
qed

lemma Start_result:
  assumes "reliableEnv env view" and "metrics_typed (wd_metrics w)" and "p_ID param \<noteq> []"
  shows "if startEdges (view (wd_db w)) (p_ID param) = []
    then fst (Start env param w) = Err WorkflowNotExists \<and> wd_db (snd (Start env param w)) = wd_db w \<and>
      wd_queue (snd (Start env param w)) = wd_queue w
    else fst (Start env param w) = Ok (ev_uuid env (wd_uuids w))"
proof -
  have mem: "memEnv env view" and rel: "gorm_reliable (ev_store env) view" using assms(1) by (simp_all add: reliableEnv_def)
  obtain p where p: "metric (Inc ''engine'' ''start_request'') w = (Ok (), w\<lparr>wd_metrics := p\<rparr>)" "metrics_typed p"
    using gauge_ok [OF assms(2)] unfolding Inc_def by blast
  obtain res where res: "SelectStartTask (ev_store env) (zeroTask\<lparr>t_WorkflowID := p_ID param\<rparr>) (wd_db w) = Inr res"
    using gorm_reliable.SelectStartTask_total [OF rel] by blast
  note edge = SelectStartTask_edge [OF memEnv_store [OF mem] assms(3) res]
  show ?thesis
  proof (cases res)
    case None
    with edge res p show ?thesis by (simp add: Start_def bnd_apply dalRead_def)
  next
    case (Some t)
    define w1 where "w1 = w\<lparr>wd_metrics := p, wd_uuids := Suc (wd_uuids w)\<rparr>"
    obtain db' where ins: "insertInstance env (newInstance (p_ID param) (ev_uuid env (wd_uuids w))) w1 =
        (Ok (), w1\<lparr>wd_ticks := Suc (wd_ticks w1), wd_db := db'\<rparr>)"
      using insertInstance_total [OF rel] by blast
    define w2 where "w2 = w1\<lparr>wd_ticks := Suc (wd_ticks w1), wd_db := db', wd_uuids := Suc (wd_uuids w1)\<rparr>"
    have "metrics_typed (wd_metrics w2)" using p(2) by (simp add: w2_def w1_def)
    from queuePublish_total [OF mem this] obtain w3 where
      "queuePublish env [(newTaskInstance (ev_uuid env (wd_uuids w)) (p_ID param) (t_TaskID t) (ev_uuid env (Suc (wd_uuids w)))
         TaskInstanceWaitStatus (p_Input param))\<lparr>ti_IsStart := True\<rparr>] w2 = (Ok (), w3)" by blast
    with Some res p ins edge show ?thesis
      by (auto simp: Start_def bnd_apply dalRead_def newUUID_def w1_def w2_def)
  qed
qed



section \<open>Moving on\<close>

text \<open>
  C23: A transition only wakes a sleeping task. When \<open>Transition\<close> returns nil, the store is unchanged and
  either no sleeping instance matches and nothing is put in flight, or one matching sleeping
  instance of the store is put in flight as waiting, with every other column as stored.
\<close>

theorem Transition_wakes_sleeping:
  assumes "memEnv env view" and "Transition env param w = (Ok (), w')"
  shows "wd_db w' = wd_db w \<and>
    (if \<exists>r\<in>set (tb_taskInstance (view (wd_db w))). ro_match taskInstanceRow (transitionCondition param) r
     then \<exists>r\<in>set (tb_taskInstance (view (wd_db w))). ro_match taskInstanceRow (transitionCondition param) r \<and>
       ti_Status r = TaskInstanceSleepStatus \<and> wd_queue w' = wd_queue w @ [Some (r\<lparr>ti_Status := TaskInstanceWaitStatus\<rparr>)]
     else wd_queue w' = wd_queue w)"
proof -
  from assms(2) obtain w0 r where m: "metric (Inc ''engine'' ''transition_request'') w = (Ok (), w0)"
      and r: "SelectTransitionTask (ev_store env) (transitionCondition param) (wd_db w0) = Inr r"
      and k: "(case r of None \<Rightarrow> ret () | Some task \<Rightarrow> queuePublish env [task\<lparr>ti_Status := TaskInstanceWaitStatus\<rparr>]) w0 = (Ok (), w')"
    unfolding Transition_def by (auto elim!: bnd_OkE dalRead_OkE)
  note w0 = keepsD [OF keeps_metric(1) m] keepsD [OF keeps_metric(2) m]
  show ?thesis
  proof (cases r)
    case None
    with r have "g_first (g_taskInstance (ev_store env)) (transitionCondition param) (wd_db w0) = Inl RecordNotFound"
      by (auto simp: SelectTransitionTask_def maybe_def split: sum.splits gerr.splits)
    from gorm_store.taskInstance_first_none [OF memEnv_store [OF assms(1)] this] w0 None k show ?thesis
      by (auto simp: find_None_iff)
  next
    case (Some t)
    with r have "g_first (g_taskInstance (ev_store env)) (transitionCondition param) (wd_db w0) = Inr t"
      by (auto simp: SelectTransitionTask_def maybe_def split: sum.splits gerr.splits)
    from gorm_store.taskInstance_first_ok [OF memEnv_store [OF assms(1)] this] w0
    have t: "t \<in> set (tb_taskInstance (view (wd_db w)))" "ro_match taskInstanceRow (transitionCondition param) t"
      by (auto simp: find_Some_iff)
    from t(2) have sleep: "ti_Status t = TaskInstanceSleepStatus"
      by (simp add: taskInstanceRow_def transitionCondition_def agrees_def)
    from k Some have p: "queuePublish env [t\<lparr>ti_Status := TaskInstanceWaitStatus\<rparr>] w0 = (Ok (), w')" by simp
    with queuePublish_ok [OF assms(1) p] keepsD [OF keeps_queuePublish(1) p] t sleep w0 show ?thesis
      by (auto intro!: bexI [of _ t])
  qed
qed

definition demo_sleeping :: tables where
  "demo_sleeping = demo_tables\<lparr>tb_taskInstance := [zeroTaskInstance\<lparr>ti_ID := 4, ti_WorkflowID := ''w'',
     ti_WorkflowInstanceID := ''i'', ti_TaskID := ''t'', ti_TaskInstanceID := ''k'', ti_Status := TaskInstanceSleepStatus\<rparr>]\<rparr>"

theorem Transition_wakes_sleeping_witness:
  "\<exists>w'. Transition demo_env \<lparr>p_ID = ''w'', p_InstanceID = ''i'', p_TaskInstanceID = ''k'', p_Input = []\<rparr>
      (demo_world demo_sleeping) = (Ok (), w') \<and> wd_db w' = demo_sleeping \<and> length (wd_queue w') = 1"
proof -
  let ?p = "\<lparr>p_ID = ''w'', p_InstanceID = ''i'', p_TaskInstanceID = ''k'', p_Input = []\<rparr>"
  have "is_ok (fst (Transition demo_env ?p (demo_world demo_sleeping)))" by code_simp
  then obtain w' where s: "Transition demo_env ?p (demo_world demo_sleeping) = (Ok (), w')"
    by (cases "Transition demo_env ?p (demo_world demo_sleeping)"; cases "fst (Transition demo_env ?p (demo_world demo_sleeping))") auto
  have m: "\<exists>r\<in>set (tb_taskInstance (wd_db (demo_world demo_sleeping))). ro_match taskInstanceRow (transitionCondition ?p) r"
    by code_simp
  from Transition_wakes_sleeping [OF demo_memEnv s] m s show ?thesis by (auto simp: demo_world_def)
qed

end
