(* ===== verification/TasksSpec.thy ===== *)
theory TasksSpec
  imports LocalRuntime FlowSpec
begin

text \<open>
  What running a task may do: it puts successors of the task in flight, completes its own workflow
  instance, publishes events, and leaves the rest of the store alone.
\<close>

section \<open>A relation between the worlds before and after\<close>

text \<open>The instance rows of one workflow instance may be marked as completed; no other row changes.\<close>

definition instOk :: "string \<Rightarrow> mWorkflowInstance \<Rightarrow> mWorkflowInstance \<Rightarrow> bool" where
  "instOk i r r' \<longleftrightarrow> r' = r \<or>
     (i_WorkflowInstanceID r = i \<and>
      (\<exists>now. r' = r\<lparr>i_WorkflowStatus := WorkflowInstanceSuccessStatus, i_UpdateTime := now\<rparr>))"

definition taskRel :: "('db \<Rightarrow> tables) \<Rightarrow> mWorkflowTaskInstance set \<Rightarrow> string \<Rightarrow> 'db world \<Rightarrow> 'db world \<Rightarrow> bool" where
  "taskRel view S i w w' \<longleftrightarrow>
     (\<exists>is. view (wd_db w') = (view (wd_db w))\<lparr>tb_instance := is\<rparr> \<and> list_all2 (instOk i) (tb_instance (view (wd_db w))) is) \<and>
     (\<exists>ts. wd_queue w' = wd_queue w @ map Some ts \<and> set ts \<subseteq> S)"

lemma instOk_trans: "instOk i r s \<Longrightarrow> instOk i s t \<Longrightarrow> instOk i r t"
  by (auto simp: instOk_def)

lemma taskRel_refl: "taskRel view S i w w"
  unfolding taskRel_def
  by (intro conjI exI [of _ "tb_instance (view (wd_db w))"] exI [of _ "[]"]) (auto simp: instOk_def intro: list_all2_refl)

lemma taskRel_trans:
  assumes "taskRel view S i u v" and "taskRel view S i v w"
  shows "taskRel view S i u w"
proof -
  from assms obtain ks js ts us where
    1: "view (wd_db v) = (view (wd_db u))\<lparr>tb_instance := ks\<rparr>" "list_all2 (instOk i) (tb_instance (view (wd_db u))) ks"
       "wd_queue v = wd_queue u @ map Some ts" "set ts \<subseteq> S" and
    2: "view (wd_db w) = (view (wd_db v))\<lparr>tb_instance := js\<rparr>" "list_all2 (instOk i) (tb_instance (view (wd_db v))) js"
       "wd_queue w = wd_queue v @ map Some us" "set us \<subseteq> S"
    unfolding taskRel_def by blast
  have "list_all2 (instOk i) (tb_instance (view (wd_db u))) js"
    by (rule list_all2_trans [OF instOk_trans 1(2)]) (use 1 2 in simp_all)
  with 1 2 show ?thesis
    unfolding taskRel_def by (intro conjI exI [of _ js] exI [of _ "ts @ us"]) simp_all
qed

text \<open>Programs all of whose runs stay within the relation, whatever way they end.\<close>

definition within :: "('s \<Rightarrow> 's \<Rightarrow> bool) \<Rightarrow> ('s, 'e, 'a) prog \<Rightarrow> bool" where
  "within R p \<longleftrightarrow> (\<forall>s. R s (snd (p s)))"

named_theorems within_intros

abbreviation taskWithin :: "('db \<Rightarrow> tables) \<Rightarrow> mWorkflowTaskInstance set \<Rightarrow> string \<Rightarrow> ('db, 'a) rt \<Rightarrow> bool" where
  "taskWithin view S i \<equiv> within (taskRel view S i)"

lemma within_ret [within_intros]: "taskWithin view S i (ret x)" "taskWithin view S i (fail e)" "taskWithin view S i (\<lambda>w. (Panic s, w))"
    "taskWithin view S i (Pair r)"
  by (simp_all add: within_def taskRel_refl)

lemma within_bnd [within_intros]:
  assumes "taskWithin view S i m" and "\<And>x. taskWithin view S i (k x)"
  shows "taskWithin view S i (bnd m k)"
proof -
  have "taskRel view S i w (snd (bnd m k w))" for w
  proof -
    obtain r w1 where m: "m w = (r, w1)" by force
    with assms(1) have 1: "taskRel view S i w w1" by (metis snd_conv within_def)
    show ?thesis
    proof (cases r)
      case (Ok x)
      with assms(2) have "taskRel view S i w1 (snd (k x w1))" by (simp add: within_def)
      with taskRel_trans [OF 1] Ok m show ?thesis by (simp add: bnd_def)
    qed (use 1 m in \<open>simp_all add: bnd_def\<close>)
  qed
  then show ?thesis by (simp add: within_def)
qed

lemma within_if [within_intros]: "within R p \<Longrightarrow> within R q \<Longrightarrow> within R (if b then p else q)"
  by simp

lemma within_option [within_intros]: "within R p \<Longrightarrow> (\<And>x. within R (q x)) \<Longrightarrow> within R (case v of None \<Rightarrow> p | Some x \<Rightarrow> q x)"
  by (cases v) simp_all

lemma within_sum [within_intros]: "(\<And>e. within R (p e)) \<Longrightarrow> (\<And>x. within R (q x)) \<Longrightarrow> within R (case v of Inl e \<Rightarrow> p e | Inr x \<Rightarrow> q x)"
  by (cases v) simp_all

lemma within_list [within_intros]: "within R p \<Longrightarrow> (\<And>x xs. within R (q x xs)) \<Longrightarrow> within R (case v of [] \<Rightarrow> p | x # xs \<Rightarrow> q x xs)"
  by (cases v) simp_all

lemma within_prod [within_intros]: "(\<And>a b. within R (p a b)) \<Longrightarrow> within R (case v of (a, b) \<Rightarrow> p a b)"
  by (cases v) simp

lemma keeps_within:
  assumes "keeps wd_db p" and "keeps wd_queue p"
  shows "taskWithin view S i p"
  unfolding within_def taskRel_def
proof (rule allI)
  fix w
  have "wd_db (snd (p w)) = wd_db w" "wd_queue (snd (p w)) = wd_queue w" using assms by (simp_all add: keeps_def)
  then show "(\<exists>is. view (wd_db (snd (p w))) = (view (wd_db w))\<lparr>tb_instance := is\<rparr> \<and>
      list_all2 (instOk i) (tb_instance (view (wd_db w))) is) \<and>
    (\<exists>ts. wd_queue (snd (p w)) = wd_queue w @ map Some ts \<and> set ts \<subseteq> S)"
    by (intro conjI exI [of _ "tb_instance (view (wd_db w))"] exI [of _ "[]"]) (auto simp: instOk_def intro: list_all2_refl)
qed

lemma within_steps [within_intros]:
  "taskWithin view S i (newUUID env)" "taskWithin view S i (timeNow env)" "taskWithin view S i (outside g)"
  "taskWithin view S i (metric m)" "taskWithin view S i (ofSum s e)" "taskWithin view S i (failIf o1 e2)"
  "taskWithin view S i (dalRead h)" "taskWithin view S i (Publish env msg topic content props)"
  "taskWithin view S i (ExecuteFromAction env ex act inp)"
  by (rule keeps_within; rule keeps_intros)+

lemma within_queuePublish:
  assumes "memEnv env view" and "set ts \<subseteq> S"
  shows "taskWithin view S i (queuePublish env ts)"
  unfolding within_def taskRel_def
proof (rule allI)
  fix w
  obtain r w' where p: "queuePublish env ts w = (r, w')" by force
  have db: "wd_db w' = wd_db w" by (rule keepsD [OF keeps_queuePublish(1) p])
  have "wd_queue w' = wd_queue w @ map Some (if r = Ok () then ts else [])"
  proof (cases "r = Ok ()")
    case False
    with p show ?thesis unfolding memEnv_queue [OF assms(1)] inMemory_Publish_def
      by (auto simp: bnd_apply send_def metric_def split: prod.splits outcome.splits if_splits)
  qed (use queuePublish_ok [OF assms(1)] p in simp)
  with db p assms(2) show "(\<exists>is. view (wd_db (snd (queuePublish env ts w))) = (view (wd_db w))\<lparr>tb_instance := is\<rparr> \<and>
      list_all2 (instOk i) (tb_instance (view (wd_db w))) is) \<and>
    (\<exists>us. wd_queue (snd (queuePublish env ts w)) = wd_queue w @ map Some us \<and> set us \<subseteq> S)"
    by (intro conjI exI [of _ "tb_instance (view (wd_db w))"] exI [of _ "if r = Ok () then ts else []"])
      (auto simp: instOk_def intro: list_all2_refl)
qed

lemma within_complete:
  assumes "memEnv env view" and "bt_workflowInstanceID base = i" and "i \<noteq> []"
  shows "taskWithin view S i (completeWorkflow env base)"
  unfolding within_def
proof (rule allI)
  fix w
  let ?r = "zeroInstance\<lparr>i_WorkflowInstanceID := i, i_WorkflowStatus := WorkflowInstanceSuccessStatus\<rparr>"
  obtain r w' where p: "updateInstance env ?r w = (r, w')" by force
  have q: "wd_queue w' = wd_queue w" by (rule keepsD [OF keeps_dal_ops(7) p])
  have "taskRel view S i w w'"
  proof (cases "r = Ok ()")
    case True
    with updateInstance_effect [OF memEnv_store [OF assms(1)]] p obtain now where
      v: "view (wd_db w') = tb_instance_update (update_where (\<lambda>y. agrees [] i (i_WorkflowInstanceID y))
          (ro_over instanceRow (?r\<lparr>i_UpdateTime := now\<rparr>))) (view (wd_db w))" by fastforce
    let ?is = "update_where (\<lambda>y. agrees [] i (i_WorkflowInstanceID y)) (ro_over instanceRow (?r\<lparr>i_UpdateTime := now\<rparr>))
      (tb_instance (view (wd_db w)))"
    have step: "instOk i y (if agrees [] i (i_WorkflowInstanceID y) then ro_over instanceRow (?r\<lparr>i_UpdateTime := now\<rparr>) y else y)" for y
    proof (cases "i_WorkflowInstanceID y = i")
      case True
      have "ro_over instanceRow (?r\<lparr>i_UpdateTime := now\<rparr>) y =
          y\<lparr>i_WorkflowStatus := WorkflowInstanceSuccessStatus, i_UpdateTime := if now = 0 then i_UpdateTime y else now\<rparr>"
        using True assms(3) by (simp add: pick_def instanceRow_def zeroInstance_def)
      then have "\<exists>n. ro_over instanceRow (?r\<lparr>i_UpdateTime := now\<rparr>) y = y\<lparr>i_WorkflowStatus := WorkflowInstanceSuccessStatus, i_UpdateTime := n\<rparr>" by blast
      with True show ?thesis unfolding instOk_def by simp
    qed (use assms(3) in \<open>simp add: instOk_def agrees_def\<close>)
    have "list_all2 (instOk i) (tb_instance (view (wd_db w))) ?is"
      unfolding update_where_def by (simp only: list_all2_map2) (rule list_all2_refl, rule step)
    with v q show ?thesis
      unfolding taskRel_def by (intro conjI exI [of _ ?is] exI [of _ "[]"]) simp_all
  next
    case False
    with p have "wd_db w' = wd_db w"
      by (auto simp: updateInstance_def UpdateInstance_def bnd_apply timeNow_def dalRun_def stmt_def split: sum.splits prod.splits)
    with q show ?thesis unfolding taskRel_def
      by (intro conjI exI [of _ "tb_instance (view (wd_db w))"] exI [of _ "[]"]) (auto simp: instOk_def intro: list_all2_refl)
  qed
  with p assms(2) show "taskRel view S i w (snd (completeWorkflow env base w))" by (simp add: completeWorkflow_def)
qed

section \<open>Every task stays within\<close>

text \<open>The task instances that may follow a task: one for a relation that leaves it and does not end.\<close>

definition successors :: "mWorkflowTaskInstance \<Rightarrow> mWorkflowTask \<Rightarrow> mWorkflowTaskInstance set" where
  "successors ti t = {x. \<exists>rel\<in>set (t_ChildTasks t). \<exists>u status input.
     r_ToTaskID rel \<noteq> TaskEndID \<and> status \<in> {TaskInstanceWaitStatus, TaskInstanceSleepStatus} \<and>
     x = newTaskInstance (ti_WorkflowInstanceID ti) (ti_WorkflowID ti) (r_ToTaskID rel) u status input}"

text \<open>A task object of that task instance: its identifiers are the instance's.\<close>

definition baseOf :: "mWorkflowTaskInstance \<Rightarrow> baseTask \<Rightarrow> bool" where
  "baseOf ti b \<longleftrightarrow> bt_workflowInstanceID b = ti_WorkflowInstanceID ti \<and> bt_workflowID b = ti_WorkflowID ti"

lemma nextInstance_successor:
  "baseOf ti b \<Longrightarrow> rel \<in> set (t_ChildTasks t) \<Longrightarrow> r_ToTaskID rel \<noteq> TaskEndID \<Longrightarrow>
   status \<in> {TaskInstanceWaitStatus, TaskInstanceSleepStatus} \<Longrightarrow> nextInstance b rel status input u \<in> successors ti t"
  unfolding successors_def nextInstance_def baseOf_def
  by (rule CollectI, rule bexI [of _ rel], intro exI [of _ u] exI [of _ status] exI [of _ input] conjI) simp_all

lemma within_nextOrComplete:
  assumes "memEnv env view" and "ti_WorkflowInstanceID ti \<noteq> []" and "baseOf ti b"
    and "case tr of None \<Rightarrow> True | Some r \<Rightarrow> r \<in> set (t_ChildTasks t)"
  shows "taskWithin view (successors ti t) (ti_WorkflowInstanceID ti) (publishNextOrComplete env b tr input)"
proof -
  have c: "taskWithin view (successors ti t) (ti_WorkflowInstanceID ti) (completeWorkflow env b)"
    by (rule within_complete [OF assms(1)]) (use assms(2,3) in \<open>simp_all add: baseOf_def\<close>)
  show ?thesis
  proof (cases tr)
    case (Some r)
    with assms(4) have r: "r \<in> set (t_ChildTasks t)" by simp
    have "taskWithin view (successors ti t) (ti_WorkflowInstanceID ti) (queuePublish env [nextInstance b r TaskInstanceWaitStatus input u])"
      if "r_ToTaskID r \<noteq> TaskEndID" for u
      by (rule within_queuePublish [OF assms(1)]) (use nextInstance_successor [OF assms(3) r that] in simp)
    with c Some show ?thesis by (simp add: publishNextOrComplete_def) (auto intro!: within_intros)
  qed (use c in \<open>simp add: publishNextOrComplete_def\<close>)
qed

lemma within_nextInstances: "taskWithin view S i (nextInstances env b input rels)"
  by (induction rels) (auto intro!: within_intros)

lemma nextInstances_result:
  assumes "baseOf ti b" and "nextInstances env b input rels w = (Ok ts, w')" and "set rels \<subseteq> set (t_ChildTasks t)"
  shows "set ts \<subseteq> successors ti t"
  using assms(2,3)
proof (induction rels arbitrary: ts w)
  case (Cons rel rels)
  show ?case
  proof (cases "r_ToTaskID rel = TaskEndID")
    case False
    with Cons.prems obtain u us w1 where us: "nextInstances env b input rels w1 = (Ok us, w')"
        "ts = nextInstance b rel TaskInstanceWaitStatus input u # us"
      by (auto elim!: bnd_OkE)
    have "nextInstance b rel TaskInstanceWaitStatus input u \<in> successors ti t"
      by (rule nextInstance_successor [OF assms(1) _ False]) (use Cons.prems in simp_all)
    with Cons.IH [OF us(1)] Cons.prems us(2) show ?thesis by simp
  qed (use Cons in simp)
qed simp

lemma within_bnd_result:
  assumes "taskWithin view S i m" and "\<And>w x w'. m w = (Ok x, w') \<Longrightarrow> taskWithin view S i (k x)"
  shows "taskWithin view S i (bnd m k)"
  unfolding within_def
proof (rule allI)
  fix w
  obtain r w1 where m: "m w = (r, w1)" by force
  with assms(1) have 1: "taskRel view S i w w1" by (metis snd_conv within_def)
  show "taskRel view S i w (snd (bnd m k w))"
  proof (cases r)
    case (Ok x)
    with assms(2) m have "taskRel view S i w1 (snd (k x w1))" by (simp add: within_def)
    with taskRel_trans [OF 1] Ok m show ?thesis by (simp add: bnd_def)
  qed (use 1 m in \<open>simp_all add: bnd_def\<close>)
qed

lemma within_nextTasks:
  assumes "memEnv env view" and "ti_WorkflowInstanceID ti \<noteq> []" and "baseOf ti b" and "set rels \<subseteq> set (t_ChildTasks t)"
  shows "taskWithin view (successors ti t) (ti_WorkflowInstanceID ti) (publishNextTasks env b rels input)"
proof -
  have n: "taskWithin view (successors ti t) (ti_WorkflowInstanceID ti) (publishNextOrComplete env b None input)"
    by (rule within_nextOrComplete [OF assms(1-3)]) simp
  have "taskWithin view (successors ti t) (ti_WorkflowInstanceID ti) (if ts = [] then publishNextOrComplete env b None input else queuePublish env ts)"
    if "nextInstances env b input rels w = (Ok ts, w')" for w w' ts
    using n within_queuePublish [OF assms(1) nextInstances_result [OF assms(3) that assms(4)]] by simp
  with n show ?thesis
    unfolding publishNextTasks_def by (auto intro!: within_bnd_result within_nextInstances)
qed

lemma within_publishEvent [within_intros]: "taskWithin view S i (publishEvent env iid tid opid content)"
  unfolding publishEvent_def queryPublishCatalog_def getGRPCConn_def Let_def by (intro within_intros)

lemma within_execute: "taskWithin view S i (execute env lt)"
  unfolding execute_def Let_def pureResult_def executeRun_def executeEmit_def by (intro within_intros)

lemma within_local:
  assumes "memEnv env view" and "ti_WorkflowInstanceID ti \<noteq> []" and "baseOf ti (lt_base lt)"
    and "set (lt_transitions lt) \<subseteq> set (t_ChildTasks t)"
  shows "taskWithin view (successors ti t) (ti_WorkflowInstanceID ti) (localRuntimeTask_Run env lt)"
proof -
  have c: "taskWithin view (successors ti t) (ti_WorkflowInstanceID ti) (completeWorkflow env (lt_base lt))"
    by (rule within_complete [OF assms(1)]) (use assms(2,3) in \<open>simp_all add: baseOf_def\<close>)
  show ?thesis
    unfolding localRuntimeTask_Run_def Let_def
  proof (rule within_bnd [OF within_execute], cases "lt_transitions lt")
    case (Cons tr trs)
    with assms(4) have "tr \<in> set (t_ChildTasks t)" by auto
    with within_nextOrComplete [OF assms(1-3), where tr = "Some tr" and t = t] within_nextTasks [OF assms(1-3), where rels = "tr # trs" and t = t] c Cons assms(4)
    show "taskWithin view (successors ti t) (ti_WorkflowInstanceID ti) (case lt_transitions lt of
        [] \<Rightarrow> completeWorkflow env (lt_base lt)
      | tr # trs \<Rightarrow> if r_ToTaskID tr = TaskEndID then completeWorkflow env (lt_base lt)
          else if trs = [] then publishNextOrComplete env (lt_base lt) (Some tr) (FilterWorkflowTaskOutputData (ev_jnum env) (ev_gojq env) x (bt_outputFilter (lt_base lt)))
          else publishNextTasks env (lt_base lt) (tr # trs) (FilterWorkflowTaskOutputData (ev_jnum env) (ev_gojq env) x (bt_outputFilter (lt_base lt))))" for x
      by simp
  qed (use c in simp)
qed

lemma within_publishOrComplete:
  assumes "memEnv env view" and "ti_WorkflowInstanceID ti \<noteq> []" and "baseOf ti (st_base st)" and "tr \<in> set (t_ChildTasks t)"
  shows "taskWithin view (successors ti t) (ti_WorkflowInstanceID ti) (publishOrComplete env st tr)"
proof -
  have "publishOrComplete env st tr = publishNextOrComplete env (st_base st) (Some tr) (bt_input (st_base st))"
    by (simp add: publishOrComplete_def publishNextOrComplete_def)
  with within_nextOrComplete [OF assms(1-3), where tr = "Some tr" and t = t] assms(4) show ?thesis by simp
qed

lemma within_switchLoop:
  assumes "memEnv env view" and "ti_WorkflowInstanceID ti \<noteq> []" and "baseOf ti (st_base st)"
    and "set trs \<subseteq> set (t_ChildTasks t)" and "case d of None \<Rightarrow> True | Some r \<Rightarrow> r \<in> set (t_ChildTasks t)"
  shows "taskWithin view (successors ti t) (ti_WorkflowInstanceID ti) (switchLoop env st d trs)"
  using assms(4,5)
proof (induction trs arbitrary: d)
  case Nil
  have "taskWithin view (successors ti t) (ti_WorkflowInstanceID ti) (completeWorkflow env (st_base st))"
    by (rule within_complete [OF assms(1)]) (use assms(2,3) in \<open>simp_all add: baseOf_def\<close>)
  with Nil show ?case
    by (cases d) (auto intro!: within_intros within_publishOrComplete [OF assms(1-3)])
next
  case (Cons tr trs)
  then have "taskWithin view (successors ti t) (ti_WorkflowInstanceID ti) (publishOrComplete env st tr)"
    by (intro within_publishOrComplete [OF assms(1-3)]) simp
  with Cons show ?case by (auto intro!: within_intros)
qed

section \<open>Tasks that change their object\<close>

definition withinT :: "('t \<Rightarrow> bool) \<Rightarrow> ('db world \<Rightarrow> 'db world \<Rightarrow> bool) \<Rightarrow> ('db, 't, 'a) trt \<Rightarrow> bool" where
  "withinT J R p \<longleftrightarrow> (\<forall>x w. J x \<longrightarrow> J (fst (snd (p (x, w)))) \<and> R w (snd (snd (p (x, w)))))"

lemma withinT_onWorld:
  assumes "\<And>x. J x \<Longrightarrow> within R (p x)"
  shows "withinT J R (onWorld p)"
  using assms by (simp add: withinT_def onWorld_def within_def split: prod.split) (metis snd_conv)

lemma withinT_bnd:
  assumes "withinT J (taskRel view S i) m" and "\<And>x. withinT J (taskRel view S i) (k x)"
  shows "withinT J (taskRel view S i) (bnd m k)"
  unfolding withinT_def
proof (intro allI impI)
  fix x w
  assume J: "J x"
  obtain r y w1 where m: "m (x, w) = (r, y, w1)" by (cases "m (x, w)") auto
  with assms(1) J have 1: "J y" "taskRel view S i w w1" by (auto simp: withinT_def) (metis fst_conv snd_conv)+
  show "J (fst (snd (bnd m k (x, w)))) \<and> taskRel view S i w (snd (snd (bnd m k (x, w))))"
  proof (cases r)
    case (Ok z)
    with assms(2) [of z] 1(1) have "J (fst (snd (k z (y, w1))))" "taskRel view S i w1 (snd (snd (k z (y, w1))))"
      by (auto simp: withinT_def)
    with taskRel_trans [OF 1(2)] Ok m show ?thesis by (simp add: bnd_def)
  qed (use 1 m in \<open>simp_all add: bnd_def\<close>)
qed

lemma withinT_cases:
  assumes "\<And>x. J x \<Longrightarrow> \<exists>q. withinT J R q \<and> (\<forall>w. p (x, w) = q (x, w))"
  shows "withinT J R p"
  unfolding withinT_def
proof (intro allI impI)
  fix x w
  assume "J x"
  with assms obtain q where "withinT J R q" "p (x, w) = q (x, w)" by blast
  with \<open>J x\<close> show "J (fst (snd (p (x, w)))) \<and> R w (snd (snd (p (x, w))))" by (simp add: withinT_def)
qed

lemma withinT_stop: "withinT J (taskRel view S i) (\<lambda>tw. (r, tw))" "withinT J (taskRel view S i) (ret x)" "withinT J (taskRel view S i) (Pair r)"
  by (simp_all add: withinT_def taskRel_refl ret_def)

text \<open>An operation task of the task instance, whatever its input has become.\<close>

definition operationOf :: "mWorkflowTaskInstance \<Rightarrow> mWorkflowTask \<Rightarrow> operationTask \<Rightarrow> bool" where
  "operationOf ti t ot \<longleftrightarrow> baseOf ti (ot_base ot) \<and> ot_action ot = headOf (t_Actions t) \<and> ot_transition ot = headOf (t_ChildTasks t)"

lemma withinT_setInput: "withinT (operationOf ti t) (taskRel view S i) (setInput out)"
  by (simp add: withinT_def setInput_def operationOf_def baseOf_def taskRel_refl)

lemma withinT_runAction: "withinT (operationOf ti t) (taskRel view S i) (runAction env u)"
proof (rule withinT_cases)
  fix x :: operationTask
  assume x: "operationOf ti t x"
  let ?J = "operationOf ti t" and ?R = "taskRel view S i"
  have a2a: "withinT ?J ?R (runA2AAction env a)" for a
    unfolding runA2AAction_def
    by (rule withinT_bnd, rule withinT_onWorld, rule within_intros) (simp add: withinT_setInput withinT_stop)
  have ev: "withinT ?J ?R (onWorld (\<lambda>t. publishEvent env (bt_workflowInstanceID (ot_base t)) u (a_OperationName a) (bt_input (ot_base t))))" for a
    by (rule withinT_onWorld, rule within_intros)
  show "\<exists>q. withinT ?J ?R q \<and> (\<forall>w. runAction env u (x, w) = q (x, w))"
  proof (cases "ot_action x")
    case None
    then show ?thesis by (intro exI [of _ "\<lambda>tw. (Ok (), tw)"]) (simp add: runAction_def withinT_stop)
  next
    case (Some a)
    show ?thesis
    proof (cases "a_OperationName a = [] \<or> isLocalRuntimeTask (a_OperationType a)")
      case True
      with Some show ?thesis by (intro exI [of _ "\<lambda>tw. (Ok (), tw)"]) (simp add: runAction_def withinT_stop)
    next
      case False
      show ?thesis
      proof (cases "isA2ATask (Some a)")
        case (Ok b)
        with Some False a2a [of a] ev [of a] show ?thesis
          by (intro exI [of _ "if b then runA2AAction env a else onWorld (\<lambda>t. publishEvent env (bt_workflowInstanceID (ot_base t)) u
             (a_OperationName a) (bt_input (ot_base t)))"]) (simp add: runAction_def)
      next
        case (Err e)
        with Some False show ?thesis by (intro exI [of _ "\<lambda>tw. (Err e, tw)"]) (simp add: runAction_def withinT_stop)
      next
        case (Panic s)
        with Some False show ?thesis by (intro exI [of _ "\<lambda>tw. (Panic s, tw)"]) (simp add: runAction_def withinT_stop)
      qed
    qed
  qed
qed

lemma headOf_mem: "headOf xs = Some x \<Longrightarrow> x \<in> set xs"
  by (cases xs) (simp_all add: headOf_def)

lemma withinT_runLast:
  assumes "memEnv env view" and "ti_WorkflowInstanceID ti \<noteq> []"
  shows "withinT (operationOf ti t) (taskRel view (successors ti t) (ti_WorkflowInstanceID ti)) (runLast env)"
  unfolding runLast_def
proof (intro withinT_bnd withinT_runAction)
  show "withinT (operationOf ti t) (taskRel view (successors ti t) (ti_WorkflowInstanceID ti)) (onWorld (\<lambda>_. newUUID env))"
    by (rule withinT_onWorld, rule within_intros)
  show "withinT (operationOf ti t) (taskRel view (successors ti t) (ti_WorkflowInstanceID ti))
     (onWorld (\<lambda>t. publishNextOrComplete env (ot_base t) (ot_transition t) (bt_input (ot_base t))))"
    by (rule withinT_onWorld, rule within_nextOrComplete [OF assms])
      (auto simp: operationOf_def split: option.split dest: headOf_mem)
qed

lemma withinT_runAndPark:
  assumes "memEnv env view" and "tr \<in> set (t_ChildTasks t)" and "r_ToTaskID tr \<noteq> TaskEndID"
  shows "withinT (operationOf ti t) (taskRel view (successors ti t) (ti_WorkflowInstanceID ti)) (runAndPark env tr)"
  unfolding runAndPark_def
proof (intro withinT_bnd withinT_runAction)
  show "withinT (operationOf ti t) (taskRel view (successors ti t) (ti_WorkflowInstanceID ti)) (onWorld (\<lambda>_. newUUID env))"
    by (rule withinT_onWorld, rule within_intros)
  show "withinT (operationOf ti t) (taskRel view (successors ti t) (ti_WorkflowInstanceID ti)) (onWorld (\<lambda>t. queuePublish env
      [nextInstance (ot_base t) tr TaskInstanceSleepStatus (bt_input (ot_base t)) tid]))" for tid
    by (intro withinT_onWorld within_queuePublish [OF assms(1)])
      (use nextInstance_successor [OF _ assms(2,3)] in \<open>simp add: operationOf_def\<close>)
qed

lemma withinT_operation:
  assumes "memEnv env view" and "ti_WorkflowInstanceID ti \<noteq> []"
  shows "withinT (operationOf ti t) (taskRel view (successors ti t) (ti_WorkflowInstanceID ti)) (operationTask_Run env)"
  unfolding operationTask_Run_def
proof (rule withinT_bnd, rule withinT_onWorld, rule within_intros, rule withinT_cases)
  fix x
  assume x: "operationOf ti t x"
  let ?R = "taskRel view (successors ti t) (ti_WorkflowInstanceID ti)"
  show "\<exists>q. withinT (operationOf ti t) ?R q \<and> (\<forall>w. (case ot_transition (fst (x, w)) of None \<Rightarrow> runLast env (x, w)
     | Some tr \<Rightarrow> if r_ToTaskID tr = TaskEndID then runLast env (x, w) else runAndPark env tr (x, w)) = q (x, w))"
  proof (cases "\<exists>tr. ot_transition x = Some tr \<and> r_ToTaskID tr \<noteq> TaskEndID")
    case True
    then obtain tr where tr: "ot_transition x = Some tr" "r_ToTaskID tr \<noteq> TaskEndID" by blast
    with x headOf_mem [of "t_ChildTasks t" tr] have "tr \<in> set (t_ChildTasks t)" by (simp add: operationOf_def)
    from withinT_runAndPark [OF assms(1) this tr(2)] tr show ?thesis by (intro exI conjI) (assumption, simp)
  next
    case False
    with withinT_runLast [OF assms] show ?thesis by (intro exI conjI) (assumption, auto split: option.split)
  qed
qed

lemma within_event:
  assumes "memEnv env view" and "ti_WorkflowInstanceID ti \<noteq> []" and "operationOf ti t (et_operationTask et)"
  shows "taskRel view (successors ti t) (ti_WorkflowInstanceID ti) w (snd (snd (eventTask_Run env (et, w)))) \<and>
    operationOf ti t (et_operationTask (fst (snd (eventTask_Run env (et, w)))))"
proof -
  let ?R = "taskRel view (successors ti t) (ti_WorkflowInstanceID ti)"
  obtain r w1 where m: "metric (Inc ''event_task'' ''total'') w = (r, w1)" by force
  have 1: "?R w w1" using within_steps(4) m by (metis snd_conv within_def)
  have o: "?R w1 (snd (snd (operationTask_Run env (et_operationTask et, w1))))"
    "operationOf ti t (fst (snd (operationTask_Run env (et_operationTask et, w1))))"
    using withinT_operation [OF assms(1,2)] assms(3) by (auto simp: withinT_def)
  show ?thesis
    using m 1 o taskRel_trans [OF 1 o(1)] assms(3)
    by (cases r) (auto simp: eventTask_Run_def bnd_def onWorld_def split: option.split prod.split)
qed

text \<open>A task object built from the task instance \<open>ti\<close> with task \<open>t\<close>, at any point of its life.\<close>

fun objectOf :: "mWorkflowTaskInstance \<Rightarrow> mWorkflowTask \<Rightarrow> taskObj \<Rightarrow> bool" where
  "objectOf ti t (TOperation ot) = operationOf ti t ot"
| "objectOf ti t (TEvent et) = operationOf ti t (et_operationTask et)"
| "objectOf ti t (TSwitch st) = (baseOf ti (st_base st) \<and> st_transitions st = t_ChildTasks t)"
| "objectOf ti t (TLocal lt) = (baseOf ti (lt_base lt) \<and> lt_transitions lt = t_ChildTasks t)"

lemma task_New_object:
  assumes "task_New env (Some ti) = Some obj" and "ti_Task ti = Some t"
  shows "objectOf ti t obj"
  using assms by (auto simp: task_New_def NewOperationTask_def NewEventTask_def NewSwitchTask_def NewLocalRuntimeTask_def
      newBaseTask_def baseOf_def operationOf_def split: if_splits)

lemma Run_within:
  assumes "memEnv env view" and "ti_WorkflowInstanceID ti \<noteq> []"
  shows "withinT (objectOf ti t) (taskRel view (successors ti t) (ti_WorkflowInstanceID ti)) (Run env)"
  unfolding withinT_def
proof (intro allI impI)
  fix obj w
  assume obj: "objectOf ti t obj"
  let ?R = "taskRel view (successors ti t) (ti_WorkflowInstanceID ti)"
  show "objectOf ti t (fst (snd (Run env (obj, w)))) \<and> ?R w (snd (snd (Run env (obj, w))))"
  proof (cases obj)
    case (TOperation ot)
    with withinT_operation [OF assms, of t] obj show ?thesis by (auto simp: Run_def withinT_def split: prod.split) (metis fst_conv snd_conv)+
  next
    case (TEvent et)
    with within_event [OF assms, of t et w] obj show ?thesis by (auto simp: Run_def split: prod.split)
  next
    case (TSwitch st)
    with obj have "taskWithin view (successors ti t) (ti_WorkflowInstanceID ti) (switchTask_Run env st)"
      unfolding switchTask_Run_def by (auto intro!: within_intros within_switchLoop [OF assms])
    with TSwitch obj show ?thesis by (auto simp: Run_def within_def split: prod.split) (metis snd_conv)
  next
    case (TLocal lt)
    with obj have "taskWithin view (successors ti t) (ti_WorkflowInstanceID ti) (localRuntimeTask_Run env lt)"
      by (intro within_local [OF assms]) auto
    with TLocal obj show ?thesis by (auto simp: Run_def within_def split: prod.split) (metis snd_conv)
  qed
qed

text \<open>
  C7: What running a task may do. However a run of a task ends (nil, error or panic), all it puts in
  flight are waiting or sleeping instances of successors of the task, for the same workflow and
  workflow instance; in the store at most the rows of its own workflow instance have changed, to
  completed; tasks, relations, actions, task instances and other workflow instances are untouched.
\<close>

theorem Run_confined:
  assumes "memEnv env view" and "task_New env (Some ti) = Some obj" and "ti_Task ti = Some t"
    and "ti_WorkflowInstanceID ti \<noteq> []" and "Run env (obj, w) = (r, obj', w')"
  shows "taskRel view (successors ti t) (ti_WorkflowInstanceID ti) w w'"
  using Run_within [OF assms(1,4), of t] task_New_object [OF assms(2,3)] assms(5)
  by (auto simp: withinT_def) (metis snd_conv)

definition demo_relation :: mWorkflowTaskRelation where
  "demo_relation = zeroRelation\<lparr>r_WorkflowID := ''w'', r_FromTaskID := ''t'', r_ToTaskID := ''s'', r_Status := NormalStatus\<rparr>"

definition demo_action :: mWorkflowTaskAction where
  "demo_action = zeroAction\<lparr>a_WorkflowID := ''w'', a_TaskID := ''t'', a_OperationName := ''op-1'', a_OperationType := ''call''\<rparr>"

definition demo_task :: "string \<Rightarrow> mWorkflowTask" where
  "demo_task ty = zeroTask\<lparr>t_WorkflowID := ''w'', t_TaskID := ''t'', t_TaskType := ty, t_Actions := [demo_action],
     t_ChildTasks := [demo_relation]\<rparr>"

definition demo_ti :: "string \<Rightarrow> mWorkflowTaskInstance" where
  "demo_ti ty = zeroTaskInstance\<lparr>ti_ID := 1, ti_WorkflowInstanceID := ''i'', ti_WorkflowID := ''w'', ti_TaskID := ''t'',
     ti_Input := ''{}'', ti_Task := Some (demo_task ty)\<rparr>"

theorem Run_confined_witness:
  "\<exists>obj obj' w'. task_New demo_env (Some (demo_ti ''operation'')) = Some obj \<and>
     Run demo_env (obj, demo_world demo_tables) = (Ok (), obj', w') \<and>
     taskRel (\<lambda>db. db) (successors (demo_ti ''operation'') (demo_task ''operation'')) ''i'' (demo_world demo_tables) w'"
proof -
  let ?obj = "TOperation (NewOperationTask (demo_ti ''operation'') (demo_task ''operation''))"
  have n: "task_New demo_env (Some (demo_ti ''operation'')) = Some ?obj" by code_simp
  have t: "ti_Task (demo_ti ''operation'') = Some (demo_task ''operation'')"
    and i: "ti_WorkflowInstanceID (demo_ti ''operation'') = ''i''" by (simp_all add: demo_ti_def)
  have "is_ok (fst (Run demo_env (?obj, demo_world demo_tables)))" by code_simp
  then obtain obj' w' where r: "Run demo_env (?obj, demo_world demo_tables) = (Ok (), obj', w')"
    by (cases "Run demo_env (?obj, demo_world demo_tables)"; cases "fst (Run demo_env (?obj, demo_world demo_tables))") auto
  from Run_confined [OF demo_memEnv n t _ r] n r i show ?thesis by auto
qed

end
