(* ===== verification/TaskChoices.thy ===== *)
theory TaskChoices
  imports TasksSpec
begin

text \<open>
  What the tasks choose: the branch that a switch takes, the branches that a fork starts, the
  successor that an operation parks, what is left of a local task without its definition, and what
  the conditions of a switch amount to.
\<close>

section \<open>Conditions of a switch\<close>

text \<open>What \<open>gconv.String\<close> does to a string.\<close>

definition gstr_ok :: "(gval \<Rightarrow> string) \<Rightarrow> bool" where
  "gstr_ok f \<longleftrightarrow> (\<forall>s. f (VStr s) = s)"

lemma match_literal:
  assumes "gstr_ok (ev_gstr env)" and "\<not> sublist ''${'' (trim_space condition)"
    and "unmarshal (ev_jnum env) input = Some x"
  shows "matchCondition env input condition =
    (case parse_bool (trim_space condition) of
       None \<Rightarrow> Inl (ParseBoolError (trim_space condition))
     | Some b \<Rightarrow> Inr b)"
  using assms by (simp add: matchCondition_def One_literal gstr_ok_def split: option.split)

lemma demo_gstr: "gstr_ok (ev_gstr demo_env)"
  by (simp add: gstr_ok_def demo_env_def)

lemma demo_unmarshal: "unmarshal (ev_jnum demo_env) ''{}'' = Some (VMap [])"
  by code_simp

text \<open>
  C33: Conditions without a wrapper are not evaluated. The runtime stores the condition of a switch
  without the \<open>${ }\<close> around it and hands it to the evaluator as it is: then the text is a literal,
  the query engine is never asked, and on any JSON input the result is that of reading the
  text itself as a truth value: an error unless it is one of the words for true and false.
\<close>

theorem bare_condition_is_literal:
  assumes "gstr_ok (ev_gstr env)" and "\<not> sublist ''${'' (trim_space condition)"
    and "unmarshal (ev_jnum env) input = Some x"
  shows "matchCondition env input condition =
    (case parse_bool (trim_space condition) of
       None \<Rightarrow> Inl (ParseBoolError (trim_space condition))
     | Some b \<Rightarrow> Inr b)"
  by (rule match_literal [OF assms])

theorem bare_condition_is_literal_witness:
  "matchCondition demo_env ''{}'' '' .price > 10 '' = Inl (ParseBoolError ''.price > 10'')"
proof -
  have t: "trim_space '' .price > 10 '' = ''.price > 10''" by code_simp
  have s: "\<not> sublist ''${'' (trim_space '' .price > 10 '')" unfolding t by (simp add: sublist_Cons_right)
  have p: "parse_bool ''.price > 10'' = None" by code_simp
  show ?thesis using bare_condition_is_literal [OF demo_gstr s demo_unmarshal] unfolding t p by simp
qed

section \<open>Switches\<close>

text \<open>
  The reference: the first transition with a condition that holds, provided that no condition before
  it fails to evaluate; otherwise the last transition without a condition, if there is one.
\<close>

definition conditionResult :: "'db env \<Rightarrow> string \<Rightarrow> mWorkflowTaskRelation \<Rightarrow> (run_error + mWorkflowTaskRelation) option" where
  "conditionResult env input tr =
     (case matchCondition env input (r_Condition tr) of
        Inl e \<Rightarrow> Some (Inl e)
      | Inr b \<Rightarrow> if b then Some (Inr tr) else None)"

definition lastOf :: "'a list \<Rightarrow> 'a option" where
  "lastOf xs = (if xs = [] then None else Some (last xs))"

definition switchChoice :: "'db env \<Rightarrow> string \<Rightarrow> mWorkflowTaskRelation list \<Rightarrow> run_error + mWorkflowTaskRelation option" where
  "switchChoice env input trs =
     (case first_some (conditionResult env input) (filter (\<lambda>r. r_Condition r \<noteq> []) trs) of
        Some r \<Rightarrow> map_sum id Some r
      | None \<Rightarrow> Inr (lastOf (filter (\<lambda>r. r_Condition r = []) trs)))"

definition takeChoice :: "'db env \<Rightarrow> switchTask \<Rightarrow> run_error + mWorkflowTaskRelation option \<Rightarrow> ('db, unit) rt" where
  "takeChoice env t c =
     (case c of
        Inl e \<Rightarrow> fail e
      | Inr None \<Rightarrow> completeWorkflow env (st_base t)
      | Inr (Some tr) \<Rightarrow> publishOrComplete env t tr)"

lemma metric_Inc:
  assumes "metrics_typed (wd_metrics w)"
  obtains p where "metric (Inc name label) w = (Ok (), w\<lparr>wd_metrics := p\<rparr>)" and "metrics_typed p"
  using gauge_ok [OF assms] unfolding Inc_def by blast

text \<open>The choice without a default stands for the default that has been met before.\<close>

definition orElse :: "run_error + 'a option \<Rightarrow> 'a option \<Rightarrow> run_error + 'a option" where
  "orElse c d = (case c of Inr None \<Rightarrow> Inr d | _ \<Rightarrow> c)"

lemma orElse_None [simp]: "orElse c None = c"
  by (simp add: orElse_def split: sum.split option.split)

lemma switchChoice_Nil: "orElse (switchChoice env input []) d = Inr d"
  by (simp add: switchChoice_def lastOf_def orElse_def)

lemma switchChoice_default:
  assumes "r_Condition tr = []"
  shows "orElse (switchChoice env input (tr # trs)) d = orElse (switchChoice env input trs) (Some tr)"
proof (cases "first_some (conditionResult env input) (filter (\<lambda>r. r_Condition r \<noteq> []) trs)")
  case None
  with assms show ?thesis by (simp add: switchChoice_def lastOf_def orElse_def del: first_some_None_iff)
next
  case (Some r)
  with assms show ?thesis by (cases r) (simp_all add: switchChoice_def orElse_def)
qed

lemma switchChoice_decides:
  "r_Condition tr \<noteq> [] \<Longrightarrow> conditionResult env input tr = Some r \<Longrightarrow> orElse (switchChoice env input (tr # trs)) d = map_sum id Some r"
  by (cases r) (simp_all add: switchChoice_def orElse_def)

lemma switchChoice_reject:
  "r_Condition tr \<noteq> [] \<Longrightarrow> conditionResult env input tr = None \<Longrightarrow> switchChoice env input (tr # trs) = switchChoice env input trs"
  unfolding switchChoice_def by (simp only: filter.simps simp_thms if_True if_False first_some.simps option.case)

lemma switchLoop_choice:
  assumes "metrics_typed (wd_metrics w)"
  shows "\<exists>p. metrics_typed p \<and> switchLoop env t d trs w =
    takeChoice env t (orElse (switchChoice env (bt_input (st_base t)) trs) d) (w\<lparr>wd_metrics := p\<rparr>)"
  using assms
proof (induction trs arbitrary: d w)
  case Nil
  obtain p where "metric (Inc ''switch_task'' ''pass'') w = (Ok (), w\<lparr>wd_metrics := p\<rparr>)" "metrics_typed p"
    by (rule metric_Inc [OF Nil])
  with Nil show ?case
    by (intro exI [of _ "if d = None then wd_metrics w else p"])
      (simp add: switchChoice_Nil takeChoice_def bnd_apply split: option.split)
next
  case (Cons tr trs)
  let ?in = "bt_input (st_base t)"
  show ?case
  proof (cases "r_Condition tr = []")
    case True
    with Cons.IH [OF Cons.prems, of "Some tr"] show ?thesis by (simp add: switchChoice_default)
  next
    case cond: False
    show ?thesis
    proof (cases "matchCondition env ?in (r_Condition tr)")
      case (Inl e)
      then have "conditionResult env ?in tr = Some (Inl e)" by (simp add: conditionResult_def)
      from switchChoice_decides [OF cond this] Inl cond Cons.prems show ?thesis
        by (intro exI [of _ "wd_metrics w"]) (simp add: takeChoice_def)
    next
      case (Inr b)
      obtain p where p: "metric (Inc ''switch_task'' (if b then ''pass'' else ''reject'')) w = (Ok (), w\<lparr>wd_metrics := p\<rparr>)" "metrics_typed p"
        by (rule metric_Inc [OF Cons.prems])
      show ?thesis
      proof (cases b)
        case True
        with Inr have "conditionResult env ?in tr = Some (Inr tr)" by (simp add: conditionResult_def)
        from switchChoice_decides [OF cond this] Inr cond True p show ?thesis
          by (intro exI [of _ p]) (simp add: takeChoice_def bnd_apply)
      next
        case False
        with Inr have "conditionResult env ?in tr = None" by (simp add: conditionResult_def)
        note r = switchChoice_reject [OF cond this, of trs]
        have "metrics_typed (wd_metrics (w\<lparr>wd_metrics := p\<rparr>))" using p(2) by simp
        from Cons.IH [OF this, of d] Inr cond False p show ?thesis unfolding r by (simp add: bnd_apply)
      qed
    qed
  qed
qed

text \<open>
  C12: A switch takes the branch it should. Up to the counters, running a switch without any transition does nothing and returns
  nil, and running one with transitions is taking the reference choice: the first transition whose condition holds; an
  error when a condition before it cannot be evaluated or is no truth value; otherwise the last transition without a condition, and
  the completion of the workflow when every transition has a condition and none of them holds.
\<close>

theorem switch_takes_choice:
  assumes "metrics_typed (wd_metrics w)"
  shows "\<exists>p. metrics_typed p \<and> switchTask_Run env t w =
    (if st_transitions t = [] then (Ok (), w\<lparr>wd_metrics := p\<rparr>)
     else takeChoice env t (switchChoice env (bt_input (st_base t)) (st_transitions t)) (w\<lparr>wd_metrics := p\<rparr>))"
proof -
  obtain p where p: "metric (Inc ''switch_task'' ''total'') w = (Ok (), w\<lparr>wd_metrics := p\<rparr>)" "metrics_typed p"
    by (rule metric_Inc [OF assms])
  have "metrics_typed (wd_metrics (w\<lparr>wd_metrics := p\<rparr>))" using p(2) by simp
  from switchLoop_choice [OF this, of env t None "st_transitions t"] obtain q where "metrics_typed q"
    "switchLoop env t None (st_transitions t) (w\<lparr>wd_metrics := p\<rparr>) =
       takeChoice env t (switchChoice env (bt_input (st_base t)) (st_transitions t)) (w\<lparr>wd_metrics := q\<rparr>)"
    by auto
  with p show ?thesis
    by (intro exI [of _ "if st_transitions t = [] then p else q"]) (simp add: switchTask_Run_def bnd_apply ret_def)
qed

definition demo_switch :: switchTask where
  "demo_switch = \<lparr>st_base = newBaseTask (demo_ti ''switch'') (demo_task ''switch''),
     st_transitions = [demo_relation\<lparr>r_Condition := ''false''\<rparr>, demo_relation\<lparr>r_ToTaskID := ''d''\<rparr>, demo_relation\<lparr>r_Condition := ''true''\<rparr>]\<rparr>"

theorem switch_takes_choice_witness:
  "\<exists>p. metrics_typed p \<and> switchTask_Run demo_env demo_switch (demo_world demo_tables) =
     publishOrComplete demo_env demo_switch (demo_relation\<lparr>r_Condition := ''true''\<rparr>) (demo_world demo_tables\<lparr>wd_metrics := p\<rparr>)"
proof -
  have n: "st_transitions demo_switch \<noteq> []" by (simp add: demo_switch_def)
  have "bt_input (st_base demo_switch) = ''{}''" by (simp add: demo_switch_def newBaseTask_def demo_ti_def)
  moreover have "trim_space ''false'' = ''false''" "trim_space ''true'' = ''true''" "parse_bool ''false'' = Some False" "parse_bool ''true'' = Some True"
    by code_simp+
  ultimately have "switchChoice demo_env (bt_input (st_base demo_switch)) (st_transitions demo_switch)
      = Inr (Some (demo_relation\<lparr>r_Condition := ''true''\<rparr>))"
    using match_literal [OF demo_gstr _ demo_unmarshal, of "''false''"] match_literal [OF demo_gstr _ demo_unmarshal, of "''true''"]
    by (simp add: demo_switch_def switchChoice_def conditionResult_def demo_relation_def zeroRelation_def sublist_Cons_right)
  with switch_takes_choice [OF demo_metrics_typed, of demo_env demo_switch] n show ?thesis by (simp add: takeChoice_def)
qed

section \<open>Forks\<close>

lemma nextInstances_total:
  "\<exists>us n. nextInstances env b input rels w = (Ok (map2 (\<lambda>r u. nextInstance b r TaskInstanceWaitStatus input u)
      (filter (\<lambda>r. r_ToTaskID r \<noteq> TaskEndID) rels) (map (ev_uuid env) us)), w\<lparr>wd_uuids := n\<rparr>) \<and>
    us = [wd_uuids w..<n] \<and> n = wd_uuids w + length (filter (\<lambda>r. r_ToTaskID r \<noteq> TaskEndID) rels)"
proof (induction rels arbitrary: w)
  case Nil
  show ?case by (intro exI [of _ "[]"] exI [of _ "wd_uuids w"]) simp
next
  case (Cons rel rels)
  show ?case
  proof (cases "r_ToTaskID rel = TaskEndID")
    case True
    with Cons [of w] show ?thesis by simp
  next
    case False
    let ?w = "w\<lparr>wd_uuids := Suc (wd_uuids w)\<rparr>"
    from Cons [of ?w] obtain n where n: "nextInstances env b input rels ?w =
        (Ok (map2 (\<lambda>r u. nextInstance b r TaskInstanceWaitStatus input u)
          (filter (\<lambda>r. r_ToTaskID r \<noteq> TaskEndID) rels) (map (ev_uuid env) [Suc (wd_uuids w)..<n])), ?w\<lparr>wd_uuids := n\<rparr>)"
      "n = Suc (wd_uuids w) + length (filter (\<lambda>r. r_ToTaskID r \<noteq> TaskEndID) rels)" by auto
    then have "[wd_uuids w..<n] = wd_uuids w # [Suc (wd_uuids w)..<n]" by (simp add: upt_conv_Cons del: upt_Suc)
    with n False show ?thesis
      by (intro exI [of _ "[wd_uuids w..<n]"] exI [of _ n]) (simp add: newUUID_def bnd_apply del: upt_Suc)
  qed
qed

text \<open>
  C24: A fork starts every branch. Running a fork with at least two branches, of which the first does
  not end the workflow, returns nil and puts in flight exactly one waiting instance for each branch
  that does not end, in the order of the branches, all with the task's (filtered) input and each
  with an identifier of its own.
\<close>

theorem fork_starts_every_branch:
  assumes "memEnv env view" and "metrics_typed (wd_metrics w)" and "bt_taskType (lt_base t) = ''fork''"
    and "lt_transitions t = tr # trs" and "trs \<noteq> []" and "r_ToTaskID tr \<noteq> TaskEndID"
  shows "fst (localRuntimeTask_Run env t w) = Ok () \<and>
    wd_queue (snd (localRuntimeTask_Run env t w)) = wd_queue w @
      map2 (\<lambda>r u. Some (nextInstance (lt_base t) r TaskInstanceWaitStatus
             (FilterWorkflowTaskOutputData (ev_jnum env) (ev_gojq env) (bt_input (lt_base t)) (bt_outputFilter (lt_base t)))
             (ev_uuid env u)))
        (filter (\<lambda>r. r_ToTaskID r \<noteq> TaskEndID) (tr # trs)) [wd_uuids w..<wd_uuids w + length (tr # trs)]"
proof -
  define inp where "inp = FilterWorkflowTaskOutputData (ev_jnum env) (ev_gojq env) (bt_input (lt_base t)) (bt_outputFilter (lt_base t))"
  define live where "live = filter (\<lambda>r. r_ToTaskID r \<noteq> TaskEndID) (tr # trs)"
  define ts where "ts = map2 (\<lambda>r u. nextInstance (lt_base t) r TaskInstanceWaitStatus inp u) live
    (map (ev_uuid env) [wd_uuids w..<wd_uuids w + length live])"
  have live: "live \<noteq> []" "length live \<le> length (tr # trs)" using assms(6) by (simp_all add: live_def)
  have n: "nextInstances env (lt_base t) inp (tr # trs) w = (Ok ts, w\<lparr>wd_uuids := wd_uuids w + length live\<rparr>)"
    using nextInstances_total [of env "lt_base t" inp "tr # trs" w] unfolding ts_def live_def by (elim exE conjE) (simp only:)
  obtain p where "queuePublish env ts (w\<lparr>wd_uuids := wd_uuids w + length live\<rparr>) =
      (Ok (), w\<lparr>wd_uuids := wd_uuids w + length live, wd_metrics := p, wd_queue := wd_queue w @ map Some ts\<rparr>)"
    by (rule queuePublish_total [OF assms(1), of "w\<lparr>wd_uuids := wd_uuids w + length live\<rparr>" ts]) (use assms(2) in auto)
  moreover have "ts \<noteq> []" using live(1) by (cases live) (simp_all add: ts_def upt_conv_Cons)
  ultimately have r: "publishNextTasks env (lt_base t) (tr # trs) inp w =
      (Ok (), w\<lparr>wd_uuids := wd_uuids w + length live, wd_metrics := p, wd_queue := wd_queue w @ map Some ts\<rparr>)"
    using n by (simp add: publishNextTasks_def bnd_apply del: nextInstances.simps)
  have zip_short: "zip live [wd_uuids w..<wd_uuids w + k] = zip live [wd_uuids w..<wd_uuids w + length live]"
    if "length live \<le> k" for k
    using that by (intro nth_equalityI) auto
  have "map Some ts = map2 (\<lambda>r u. Some (nextInstance (lt_base t) r TaskInstanceWaitStatus inp (ev_uuid env u))) live
      [wd_uuids w..<wd_uuids w + length live]"
    by (simp add: ts_def zip_map2 comp_def split_def)
  with zip_short [OF live(2)] r assms(3-6) show ?thesis
    unfolding live_def [symmetric] inp_def [symmetric]
    by (simp add: localRuntimeTask_Run_def execute_def bnd_apply inp_def Let_def)
qed

definition demo_fork :: localRuntimeTask where
  "demo_fork = \<lparr>lt_base = newBaseTask (demo_ti ''fork'') (demo_task ''fork''), lt_action = None,
     lt_transitions = [demo_relation, demo_relation\<lparr>r_ToTaskID := TaskEndID\<rparr>, demo_relation\<lparr>r_ToTaskID := ''u''\<rparr>], lt_definition = None\<rparr>"

theorem fork_starts_every_branch_witness:
  "map (map_option ti_TaskID) (wd_queue (snd (localRuntimeTask_Run demo_env demo_fork (demo_world demo_tables)))) = [Some ''s'', Some ''u'']"
proof -
  have f: "bt_taskType (lt_base demo_fork) = ''fork''"
    "lt_transitions demo_fork = demo_relation # [demo_relation\<lparr>r_ToTaskID := TaskEndID\<rparr>, demo_relation\<lparr>r_ToTaskID := ''u''\<rparr>]"
    "r_ToTaskID demo_relation \<noteq> TaskEndID"
    by (simp_all add: demo_fork_def newBaseTask_def demo_task_def demo_relation_def)
  have q: "wd_queue (demo_world demo_tables) = []" "wd_uuids (demo_world demo_tables) = 50" by (simp_all add: demo_world_def)
  have u: "[50..<50 + length (demo_relation # [demo_relation\<lparr>r_ToTaskID := TaskEndID\<rparr>, demo_relation\<lparr>r_ToTaskID := ''u''\<rparr>])] = [50, 51, 52]"
    by (simp add: upt_conv_Cons)
  show ?thesis
    using fork_starts_every_branch [OF demo_memEnv demo_metrics_typed f(1,2) _ f(3), of demo_tables] unfolding q u
    by (simp add: nextInstance_def newTaskInstance_def demo_relation_def)
qed

section \<open>Operations\<close>

lemma runAction_queue: "wd_queue (snd (snd (runAction env u (x, w)))) = wd_queue w"
proof -
  let ?ti = "zeroTaskInstance\<lparr>ti_WorkflowInstanceID := bt_workflowInstanceID (ot_base x), ti_WorkflowID := bt_workflowID (ot_base x)\<rparr>"
  let ?t = "zeroTask\<lparr>t_Actions := (case ot_action x of None \<Rightarrow> [] | Some a \<Rightarrow> [a]),
     t_ChildTasks := (case ot_transition x of None \<Rightarrow> [] | Some r \<Rightarrow> [r])\<rparr>"
  have "operationOf ?ti ?t x" by (simp add: operationOf_def baseOf_def headOf_def split: option.split)
  with withinT_runAction [of ?ti ?t "\<lambda>db. undefined" "{}" "[]" env u]
  show ?thesis by (auto simp: withinT_def taskRel_def)
qed

text \<open>
  C32: An operation parks its successor. When an operation task that is not the last of its workflow
  runs to a nil error, exactly one task is put in flight: its successor, asleep, with the input of the
  operation itself. This is so for every kind of action; in particular the output of an agent is not
  what the successor receives, and the successor is not waiting, so no tick of the scheduler takes it.
\<close>

theorem operation_parks_successor:
  assumes "memEnv env view" and "ot_transition x = Some tr" and "r_ToTaskID tr \<noteq> TaskEndID"
    and "operationTask_Run env (x, w) = (Ok (), x', w')"
  shows "wd_queue w' = wd_queue w @
    [Some (nextInstance (ot_base x) tr TaskInstanceSleepStatus (bt_input (ot_base x)) (ev_uuid env (wd_uuids w)))]"
proof -
  from assms(4) obtain w1 where m: "metric (Inc ''operation_task'' ''total'') w = (Ok (), w1)"
      "runAndPark env tr (x, w1) = (Ok (), x', w')"
    using assms(2,3) by (auto simp: operationTask_Run_def onWorld_def elim!: bnd_OkE split: prod.splits)
  note k = keepsD [OF keeps_metric(2) m(1)] keepsD [OF keeps_metric(5) m(1)]
  let ?u = "ev_uuid env (wd_uuids w1)" and ?w = "w1\<lparr>wd_uuids := Suc (wd_uuids w1)\<rparr>"
  from m(2) obtain w2 where q: "queuePublish env [nextInstance (ot_base x) tr TaskInstanceSleepStatus (bt_input (ot_base x)) ?u] ?w = (Ok (), w2)"
      "runAction env ?u (x, w2) = (Ok (), x', w')"
    by (auto simp: runAndPark_def onWorld_def newUUID_def elim!: bnd_OkE split: prod.splits)
  from runAction_queue [of env ?u x w2] q(2) have "wd_queue w' = wd_queue w2" by simp
  with queuePublish_ok [OF assms(1) q(1)] k show ?thesis by simp
qed

theorem operation_parks_successor_witness:
  "\<exists>x' w'. operationTask_Run demo_env (NewOperationTask (demo_ti ''operation'') (demo_task ''operation''), demo_world demo_tables)
      = (Ok (), x', w') \<and> map (map_option ti_Status) (wd_queue w') = [Some TaskInstanceSleepStatus]"
proof -
  let ?x = "NewOperationTask (demo_ti ''operation'') (demo_task ''operation'')"
  have t: "ot_transition ?x = Some demo_relation" "r_ToTaskID demo_relation \<noteq> TaskEndID"
    by (simp_all add: NewOperationTask_def demo_task_def headOf_def demo_relation_def)
  have "is_ok (fst (operationTask_Run demo_env (?x, demo_world demo_tables)))" by code_simp
  then obtain x' w' where r: "operationTask_Run demo_env (?x, demo_world demo_tables) = (Ok (), x', w')"
    by (cases "operationTask_Run demo_env (?x, demo_world demo_tables)"; cases "fst (operationTask_Run demo_env (?x, demo_world demo_tables))") auto
  from operation_parks_successor [OF demo_memEnv t r] r show ?thesis
    by (auto simp: demo_world_def nextInstance_def newTaskInstance_def)
qed

text \<open>
  A short operation name stops the task with a panic. An operation whose name has one or two
  bytes and whose type is neither local nor an agent's panics when it runs, because the test for
  agents slices the first three bytes of the name.
\<close>

theorem short_operation_name_panics:
  assumes "memEnv env view" and "metrics_typed (wd_metrics w)" and "ot_action x = Some a"
    and "a_OperationName a \<noteq> []" and "length (a_OperationName a) < 3"
    and "a_OperationType a \<notin> {''a2a'', ''agent''}" and "\<not> isLocalRuntimeTask (a_OperationType a)"
  shows "\<exists>s tw. operationTask_Run env (x, w) = (Panic s, tw)"
proof -
  have act: "runAction env u (x, v) = (Panic ''slice bounds out of range'', x, v)" for u v
    using assms(3-7) by (simp add: runAction_def isA2ATask_def)
  obtain p where p: "metric (Inc ''operation_task'' ''total'') w = (Ok (), w\<lparr>wd_metrics := p\<rparr>)" "metrics_typed p"
    by (rule metric_Inc [OF assms(2)])
  have last: "\<exists>s tw. runLast env (x, v) = (Panic s, tw)" for v
    by (simp add: runLast_def onWorld_def newUUID_def bnd_apply act)
  have park: "\<exists>s tw. runAndPark env tr (x, v) = (Panic s, tw)" if "metrics_typed (wd_metrics v)" for tr v
  proof -
    let ?u = "ev_uuid env (wd_uuids v)"
    have "metrics_typed (wd_metrics (v\<lparr>wd_uuids := Suc (wd_uuids v)\<rparr>))" using that by simp
    then obtain v2 where "queuePublish env [nextInstance (ot_base x) tr TaskInstanceSleepStatus (bt_input (ot_base x)) ?u]
        (v\<lparr>wd_uuids := Suc (wd_uuids v)\<rparr>) = (Ok (), v2)"
      using queuePublish_total [OF assms(1)] by blast
    then show ?thesis by (simp add: runAndPark_def onWorld_def newUUID_def bnd_apply act)
  qed
  show ?thesis
    using p last park by (simp add: operationTask_Run_def onWorld_def bnd_apply split: option.split)
qed

theorem short_operation_name_panics_witness:
  "\<exists>s tw. operationTask_Run demo_env (NewOperationTask (demo_ti ''operation'')
      ((demo_task ''operation'')\<lparr>t_Actions := [demo_action\<lparr>a_OperationName := ''go''\<rparr>]\<rparr>), demo_world demo_tables) = (Panic s, tw)"
proof -
  have l: "\<not> isLocalRuntimeTask ''call''" by code_simp
  show ?thesis
    by (rule short_operation_name_panics [OF demo_memEnv demo_metrics_typed, where a = "demo_action\<lparr>a_OperationName := ''go''\<rparr>"])
      (use l in \<open>simp_all add: NewOperationTask_def headOf_def demo_action_def\<close>)
qed

section \<open>Local tasks without a definition\<close>

text \<open>The definition of a task is not a column: no stored row has one.\<close>

lemma stored_row_has_no_definition: "t_TaskDefinition (ro_cols taskRow t) = []"
  by (simp add: taskRow_def)

text \<open>
  Local tasks lose their definition. The definition of a task is not stored with it, so a local
  task built from a stored row runs without one: a set, wait, do, for or try does nothing and
  passes its input on, and a raise fails with the bare message, whatever the document says.
\<close>

theorem local_task_without_definition:
  assumes "t_TaskDefinition t = []" and "t_TaskType t \<in> {''set'', ''wait'', ''do'', ''for'', ''try'', ''raise''}"
  shows "execute env (NewLocalRuntimeTask env ti t) w =
    (if t_TaskType t = ''raise'' then (Err (Raised ''workflow raise task failed''), w) else (Ok (ti_Input ti), w))"
proof -
  have d: "lt_definition (NewLocalRuntimeTask env ti t) = None"
    and b: "bt_input (lt_base (NewLocalRuntimeTask env ti t)) = ti_Input ti"
       "bt_taskType (lt_base (NewLocalRuntimeTask env ti t)) = t_TaskType t"
    using assms(1) by (simp_all add: NewLocalRuntimeTask_def decodeDefinition_def newBaseTask_def)
  show ?thesis
    using assms(2)
    by (auto simp: execute_def Let_def b executeSet_def executeWait_def executeRaise_def executeTry_def executeFor_def
        executeDo_def d taskEntries_def pureResult_def ofSum_def mempty_def fail_def)
qed

theorem local_task_without_definition_witness:
  "execute demo_env (NewLocalRuntimeTask demo_env (demo_ti ''set'') (demo_task ''set'')) (demo_world demo_tables)
     = (Ok ''{}'', demo_world demo_tables)"
proof -
  have d: "t_TaskDefinition (demo_task ''set'') = []" "t_TaskType (demo_task ''set'') \<in> {''set'', ''wait'', ''do'', ''for'', ''try'', ''raise''}"
    by (simp_all add: demo_task_def zeroTask_def)
  show ?thesis using local_task_without_definition [OF d, of demo_env "demo_ti ''set''" "demo_world demo_tables"]
    by (simp add: demo_task_def demo_ti_def)
qed

end
