(* ===== verification/Schedule.thy ===== *)
theory Schedule
  imports LocalRuntime
begin

text \<open>
  \<open>internal/schedule\<close>: the scheduler that takes the newest waiting task instance, runs its task and
  records how it ended. One tick is one call of \<open>handle\<close>, a transaction: the updates made with the
  transaction's handle take effect together when it commits, or not at all, while everything else
  (reading, publishing, completing the workflow) goes past it to the store directly. \<open>retryDo\<close> is
  \<open>retry.Do\<close> of \<open>retry-go\<close>, \<open>obtain\<close> the answer of the lock client; both are parameters.
\<close>

section \<open>Retrying\<close>

text \<open>The documented behaviour: run until the first success, at most \<open>n\<close> times; a panic goes through.\<close>

fun attempts :: "nat \<Rightarrow> ('s, 'e, 'a) prog \<Rightarrow> ('s, 'e, 'a) prog" where
  "attempts 0 p s = p s"
| "attempts (Suc n) p s =
     (case p s of
        (Ok x, s') \<Rightarrow> (Ok x, s')
      | (Panic t, s') \<Rightarrow> (Panic t, s')
      | (Err e, s') \<Rightarrow> if n = 0 then (Err e, s') else attempts n p s')"

text \<open>A property of the state that one run keeps is kept by all the attempts.\<close>

lemma attempts_invariant:
  assumes "P s" and "\<And>s. P s \<Longrightarrow> P (snd (p s))"
  shows "P (snd (attempts n p s))"
  using assms(1)
proof (induction n arbitrary: s)
  case (Suc n)
  from assms(2) [OF Suc.prems] have "P (snd (p s))" .
  with Suc.IH [OF this] show ?case by (cases "p s"; cases "fst (p s)") auto
qed (use assms(2) in simp)

text \<open>How two outcomes agree when their errors may differ: the library wraps the errors it collects.\<close>

fun same_end :: "('e, 'a) outcome \<Rightarrow> ('e, 'a) outcome \<Rightarrow> bool" where
  "same_end (Ok x) r = (r = Ok x)"
| "same_end (Err e) r = (\<exists>e'. r = Err e')"
| "same_end (Panic s) r = (r = Panic s)"

locale retry_library =
  fixes retryDo :: "nat \<Rightarrow> ('s, 'e, 'a) prog \<Rightarrow> ('s, 'e, 'a) prog"
  assumes retry_outcome: "0 < n \<Longrightarrow> same_end (fst (attempts n p s)) (fst (retryDo n p s))"
    and retry_state: "0 < n \<Longrightarrow> snd (retryDo n p s) = snd (attempts n p s)"
begin

lemma retry_invariant:
  assumes "0 < n" and "P s" and "\<And>s. P s \<Longrightarrow> P (snd (p s))"
  shows "P (snd (retryDo n p s))"
  using attempts_invariant [of P s p n] assms retry_state by simp

end

lemma same_end_refl: "same_end r r"
  by (cases r) auto

interpretation plain: retry_library attempts
  by unfold_locales (simp_all add: same_end_refl)

section \<open>One tick\<close>

text \<open>\<open>elapsed\<close> is the time between two readings of the clock, in milliseconds.\<close>

definition sched_lock :: "'db env \<Rightarrow> (nat \<Rightarrow> lock_error option) \<Rightarrow> ('db, 'a) rt \<Rightarrow> ('db, 'a) rt" where
  "sched_lock env obtain0 h =
     bnd (timeNow env) (\<lambda>start.
     bnd (outside obtain0) (\<lambda>err.
     bnd (timeNow env) (\<lambda>stop.
     bnd (metric (RecordLatency ''scheduler'' ''db_lock_acquire_time'' (int stop - int start))) (\<lambda>_.
     case err of
       Some e \<Rightarrow> fail (DalError (LockFailed e))
     | None \<Rightarrow> h))))"

text \<open>
  A statement run with the transaction's handle: \<open>tx\<close> is what the transaction has done so far. Whether
  the statement succeeds is seen at once, its effect at the commit.
\<close>

definition inTx :: "('db, dal_error, unit) prog \<Rightarrow> ('db, dal_error, unit) prog \<Rightarrow> ('db, ('db, dal_error, unit) prog) rt" where
  "inTx tx st w =
     (let tx' = bnd tx (\<lambda>_. st) in
      case tx' (wd_db w) of
        (Ok _, _) \<Rightarrow> (Ok tx', w)
      | (Err e, _) \<Rightarrow> (Err (DalError e), w)
      | (Panic s, _) \<Rightarrow> (Panic s, w))"

definition updateInTx :: "'db env \<Rightarrow> ('db, dal_error, unit) prog \<Rightarrow> int \<Rightarrow> int \<Rightarrow> ('db, ('db, dal_error, unit) prog) rt" where
  "updateInTx env tx i status =
     bnd (timeNow env) (\<lambda>now.
       inTx tx (UpdateTaskInstance (ev_store env) now (zeroTaskInstance\<lparr>ti_ID := i, ti_Status := status\<rparr>)))"

definition fetchTask :: "'db env \<Rightarrow> ('db, dal_error, unit) prog \<Rightarrow>
    ('db, (mWorkflowTaskInstance \<times> ('db, dal_error, unit) prog) option) rt" where
  "fetchTask env tx =
     bnd (dalRead (SelectTaskInstance (ev_sched env) (ev_store env) (zeroTaskInstance\<lparr>ti_Status := TaskInstanceWaitStatus\<rparr>))) (\<lambda>res.
     case res of
       None \<Rightarrow> ret None
     | Some r \<Rightarrow> bnd (updateInTx env tx (ti_ID r) TaskInstanceProcessStatus) (\<lambda>tx'. ret (Some (r, tx'))))"

type_synonym 'db retrier = "nat \<Rightarrow> ('db, taskObj, unit) trt \<Rightarrow> ('db, taskObj, unit) trt"

text \<open>What follows the fetch: filter, build, run, record. The result is what the transaction has done.\<close>

definition runTask :: "'db env \<Rightarrow> 'db retrier \<Rightarrow> mWorkflowTaskInstance \<Rightarrow> ('db, dal_error, unit) prog \<Rightarrow>
    ('db, ('db, dal_error, unit) prog) rt" where
  "runTask env retryDo res tx w =
     (case FilterWorkflowTaskInputData (ev_jnum env) (ev_gojq env) (Some res) of
        Panic s \<Rightarrow> (Panic s, w)
      | Err e \<Rightarrow> (Ok tx, w)
      | Ok res' \<Rightarrow>
          (case task_New env res' of
             None \<Rightarrow> (Ok tx, w)
           | Some t \<Rightarrow>
               (case retryDo RetryAttempts (Run env) (t, w) of
                  (Panic s, _, w') \<Rightarrow> (Panic s, w')
                | (Err _, _, w') \<Rightarrow> updateInTx env tx (ti_ID res) TaskInstanceFailStatus w'
                | (Ok _, _, w') \<Rightarrow> updateInTx env tx (ti_ID res) TaskInstanceSuccessStatus w')))"

definition handleBody :: "'db env \<Rightarrow> (nat \<Rightarrow> lock_error option) \<Rightarrow> 'db retrier \<Rightarrow> ('db, ('db, dal_error, unit) prog) rt" where
  "handleBody env obtain0 retryDo =
     bnd (sched_lock env obtain0 (fetchTask env (ret ()))) (\<lambda>res.
     case res of
       None \<Rightarrow> ret (ret ())
     | Some (r, tx) \<Rightarrow> runTask env retryDo r tx)"

fun dalPart :: "run_error \<Rightarrow> dal_error" where
  "dalPart (DalError e) = e"
| "dalPart _ = StoreError (DBError ''unreachable'')"

text \<open>The commit; an error is logged, a panic rolls back and goes on to the ticker's goroutine.\<close>

definition commitTx :: "'db env \<Rightarrow> (run_error, ('db, dal_error, unit) prog) outcome \<Rightarrow> ('db, unit) rt" where
  "commitTx env r w =
     (case g_tx (ev_store env)
        (case r of Ok tx \<Rightarrow> tx | Err e \<Rightarrow> fail (dalPart e) | Panic s \<Rightarrow> (\<lambda>db. (Panic s, db))) (wd_db w) of
        (Ok _, db) \<Rightarrow> (Ok (), w\<lparr>wd_db := db\<rparr>)
      | (Err _, db) \<Rightarrow> (Ok (), w\<lparr>wd_db := db\<rparr>)
      | (Panic s, db) \<Rightarrow> (Panic s, w\<lparr>wd_db := db\<rparr>))"

definition handle :: "'db env \<Rightarrow> (nat \<Rightarrow> lock_error option) \<Rightarrow> 'db retrier \<Rightarrow> ('db, unit) rt" where
  "handle env obtain0 retryDo w = (case handleBody env obtain0 retryDo w of (r, w') \<Rightarrow> commitTx env r w')"

text \<open>The loop of the ticker: it ends for good when a tick panics.\<close>

fun ticks :: "'db env \<Rightarrow> (nat \<Rightarrow> lock_error option) \<Rightarrow> 'db retrier \<Rightarrow> nat \<Rightarrow> 'db world \<Rightarrow> bool \<times> 'db world" where
  "ticks env obtain0 retryDo 0 w = (True, w)"
| "ticks env obtain0 retryDo (Suc n) w =
     (case handle env obtain0 retryDo w of
        (Panic _, w') \<Rightarrow> (False, w')
      | (_, w') \<Rightarrow> ticks env obtain0 retryDo n w')"

section \<open>Schedulers\<close>

datatype scheduler = InlineScheduler

definition schedulerBuilder :: "(string \<times> scheduler) list" where
  "schedulerBuilder = [(''in-line'', InlineScheduler)]"

definition NewScheduler :: "config \<Rightarrow> string + scheduler" where
  "NewScheduler cfg =
     (case map_of schedulerBuilder (Flow_Scheduler_Type cfg) of
        None \<Rightarrow> Inl ''must config scheduler type''
      | Some s \<Rightarrow> Inr s)"

end
