(* ===== verification/ScheduleSpec.thy ===== *)
theory ScheduleSpec
  imports Schedule TasksSpec
begin

text \<open>
  What one tick of the scheduler does to the store and to the queue: it takes a newest waiting task
  instance, runs its task, and records in one transaction how the run ended.
\<close>

section \<open>Statements of the transaction\<close>

text \<open>The rows of task instances after the row of \<open>x\<close> got status \<open>s\<close>; every other column and row is kept.\<close>

definition settled :: "int \<Rightarrow> mWorkflowTaskInstance \<Rightarrow> mWorkflowTaskInstance list \<Rightarrow> mWorkflowTaskInstance list \<Rightarrow> bool" where
  "settled s x rows rows' \<longleftrightarrow>
     (\<exists>f. rows' = map (\<lambda>y. if ti_ID y = ti_ID x then y\<lparr>ti_Status := s, ti_UpdateTime := f y\<rparr> else y) rows)"

lemma settled_again:
  assumes "settled s x as bs" and "settled s' x bs cs"
  shows "settled s' x as cs"
proof -
  from assms obtain f g where
    "bs = map (\<lambda>y. if ti_ID y = ti_ID x then y\<lparr>ti_Status := s, ti_UpdateTime := f y\<rparr> else y) as"
    "cs = map (\<lambda>y. if ti_ID y = ti_ID x then y\<lparr>ti_Status := s', ti_UpdateTime := g y\<rparr> else y) bs"
    unfolding settled_def by blast
  then show ?thesis unfolding settled_def
    by (intro exI [of _ "\<lambda>y. g (y\<lparr>ti_Status := s, ti_UpdateTime := f y\<rparr>)"]) auto
qed

text \<open>A transaction body that, when it succeeds, has done just that.\<close>

definition settles :: "('db \<Rightarrow> tables) \<Rightarrow> int \<Rightarrow> mWorkflowTaskInstance \<Rightarrow> ('db, dal_error, unit) prog \<Rightarrow> bool" where
  "settles view s x tx \<longleftrightarrow> (\<forall>db db'. tx db = (Ok (), db') \<longrightarrow>
     (\<exists>rows'. view db' = (view db)\<lparr>tb_taskInstance := rows'\<rparr> \<and> settled s x (tb_taskInstance (view db)) rows'))"

lemma taskInstance_table: "tb_taskInstance_update f t = t\<lparr>tb_taskInstance := f (tb_taskInstance t)\<rparr>"
  by (cases t) simp

lemma settles_update:
  assumes "gorm_store G view" and "ti_ID x \<noteq> 0" and "s \<noteq> 0"
  shows "settles view s x (UpdateTaskInstance G now (zeroTaskInstance\<lparr>ti_ID := ti_ID x, ti_Status := s\<rparr>))"
  unfolding settles_def
proof (intro allI impI)
  fix db db'
  let ?u = "zeroTaskInstance\<lparr>ti_ID := ti_ID x, ti_Status := s, ti_UpdateTime := now\<rparr>"
  assume "UpdateTaskInstance G now (zeroTaskInstance\<lparr>ti_ID := ti_ID x, ti_Status := s\<rparr>) db = (Ok (), db')"
  then have "g_updates (g_taskInstance G) (zeroTaskInstance\<lparr>ti_ID := ti_ID x\<rparr>) ?u db = Inr db'"
    by (simp add: UpdateTaskInstance_def stmt_Ok zeroTaskInstance_def)
  from gorm_store.taskInstance_updates_ok [OF assms(1) this]
  have v: "view db' = tb_taskInstance_update
    (update_where (ro_match taskInstanceRow (zeroTaskInstance\<lparr>ti_ID := ti_ID x\<rparr>)) (ro_over taskInstanceRow ?u)) (view db)" .
  have "settled s x rows (update_where (ro_match taskInstanceRow (zeroTaskInstance\<lparr>ti_ID := ti_ID x\<rparr>)) (ro_over taskInstanceRow ?u) rows)" for rows
    unfolding settled_def using assms(2,3)
    by (intro exI [of _ "\<lambda>y. pick 0 now (ti_UpdateTime y)"])
      (auto simp: update_where_def taskInstanceRow_def zeroTaskInstance_def agrees_def pick_def)
  with v show "\<exists>rows'. view db' = (view db)\<lparr>tb_taskInstance := rows'\<rparr> \<and> settled s x (tb_taskInstance (view db)) rows'"
    using trans [OF v taskInstance_table] by blast
qed

lemma settles_again:
  assumes "settles view s x tx" and "settles view s' x st"
  shows "settles view s' x (bnd tx (\<lambda>_. st))"
  unfolding settles_def
proof (intro allI impI)
  fix db db'
  assume "bnd tx (\<lambda>_. st) db = (Ok (), db')"
  then obtain db1 where "tx db = (Ok (), db1)" "st db1 = (Ok (), db')" by (auto elim!: bnd_OkE)
  with assms obtain bs cs where
    "view db1 = (view db)\<lparr>tb_taskInstance := bs\<rparr>" "settled s x (tb_taskInstance (view db)) bs"
    "view db' = (view db1)\<lparr>tb_taskInstance := cs\<rparr>" "settled s' x (tb_taskInstance (view db1)) cs"
    unfolding settles_def by blast
  then show "\<exists>rows'. view db' = (view db)\<lparr>tb_taskInstance := rows'\<rparr> \<and> settled s' x (tb_taskInstance (view db)) rows'"
    using settled_again [of s x _ bs s' cs] by (intro exI [of _ cs]) simp
qed

lemma inTx_cases:
  "(\<exists>u. fst (inTx tx st w) = Ok u \<and> u = bnd tx (\<lambda>_. st)) \<or> (\<exists>e. fst (inTx tx st w) = Err (DalError e)) \<or>
     (\<exists>s. fst (inTx tx st w) = Panic s)" and inTx_world: "snd (inTx tx st w) = w"
  by (auto simp: inTx_def Let_def split: prod.split outcome.split)

lemma updateInTx_cases:
  assumes "gorm_store (ev_store env) view" and "ti_ID x \<noteq> 0" and "status \<noteq> 0"
    and "tx = ret () \<or> settles view s x tx"
  obtains r where "updateInTx env tx (ti_ID x) status w = (r, w\<lparr>wd_ticks := Suc (wd_ticks w)\<rparr>)"
    and "case r of Ok u \<Rightarrow> settles view status x u | Err e \<Rightarrow> True | Panic p \<Rightarrow> True"
proof -
  let ?w = "w\<lparr>wd_ticks := Suc (wd_ticks w)\<rparr>"
  let ?st = "UpdateTaskInstance (ev_store env) (ev_clock env (wd_ticks w)) (zeroTaskInstance\<lparr>ti_ID := ti_ID x, ti_Status := status\<rparr>)"
  have st: "settles view status x ?st" by (rule settles_update [OF assms(1-3)])
  have "settles view status x (bnd tx (\<lambda>_. ?st))"
    using assms(4) settles_again [OF _ st] st by auto
  then show thesis
    using inTx_cases [of tx ?st ?w] inTx_world [of tx ?st ?w]
    by (intro that [of "fst (inTx tx ?st ?w)"]) (auto simp: updateInTx_def bnd_apply timeNow_def prod_eq_iff)
qed

section \<open>Before the task runs\<close>

text \<open>Worlds with the same store and the same queue.\<close>

definition idle :: "('db \<Rightarrow> tables) \<Rightarrow> 'db world \<Rightarrow> 'db world \<Rightarrow> bool" where
  "idle view w w' \<longleftrightarrow> view (wd_db w') = view (wd_db w) \<and> wd_queue w' = wd_queue w"

lemma sched_lock_cases:
  obtains w1 where "wd_db w1 = wd_db w" and "wd_queue w1 = wd_queue w"
    and "sched_lock env obtain0 h w = h w1 \<or> (\<exists>r. sched_lock env obtain0 h w = (r, w1) \<and> \<not> is_ok r)"
proof -
  let ?w = "w\<lparr>wd_calls := Suc (wd_calls w), wd_ticks := Suc (Suc (wd_ticks w))\<rparr>"
  let ?m = "metric (RecordLatency ''scheduler'' ''db_lock_acquire_time''
     (int (ev_clock env (Suc (wd_ticks w))) - int (ev_clock env (wd_ticks w))))"
  obtain r w1 where m: "?m ?w = (r, w1)" by force
  from keepsD [OF keeps_metric(1) m] keepsD [OF keeps_metric(2) m] have k: "wd_db w1 = wd_db w" "wd_queue w1 = wd_queue w" by simp_all
  have "sched_lock env obtain0 h w = (case r of
       Ok _ \<Rightarrow> (case obtain0 (wd_calls w) of Some e \<Rightarrow> (Err (DalError (LockFailed e)), w1) | None \<Rightarrow> h w1)
     | Err e \<Rightarrow> (Err e, w1) | Panic s \<Rightarrow> (Panic s, w1))"
    using m by (cases r) (auto simp: sched_lock_def bnd_apply timeNow_def outside_def split: option.split)
  with k show thesis
    by (intro that [of w1]) (auto split: outcome.split option.split)
qed

lemma fetchTask_cases:
  assumes "gorm_store (ev_store env) view" and "\<forall>x. SelectTaskInstance (ev_sched env) (ev_store env)
      (zeroTaskInstance\<lparr>ti_Status := TaskInstanceWaitStatus\<rparr>) (wd_db w) = Inr (Some x) \<longrightarrow> ti_ID x \<noteq> 0"
  obtains (none) w1 where "wd_db w1 = wd_db w" "wd_queue w1 = wd_queue w" "fetchTask env (ret ()) w = (Ok None, w1)"
    | (fails) w1 r where "wd_db w1 = wd_db w" "wd_queue w1 = wd_queue w" "fetchTask env (ret ()) w = (r, w1)" "\<not> is_ok r"
    | (some) w1 x tx where "wd_db w1 = wd_db w" "wd_queue w1 = wd_queue w" "fetchTask env (ret ()) w = (Ok (Some (x, tx)), w1)"
        "settles view TaskInstanceProcessStatus x tx" "SelectTaskInstance (ev_sched env) (ev_store env)
          (zeroTaskInstance\<lparr>ti_Status := TaskInstanceWaitStatus\<rparr>) (wd_db w) = Inr (Some x)"
proof (cases "SelectTaskInstance (ev_sched env) (ev_store env) (zeroTaskInstance\<lparr>ti_Status := TaskInstanceWaitStatus\<rparr>) (wd_db w)")
  case (Inl e)
  then show thesis by (intro fails [of w "Err (DalError e)"]) (simp_all add: fetchTask_def bnd_apply dalRead_def)
next
  case (Inr res)
  show thesis
  proof (cases res)
    case None
    with Inr show thesis by (intro none [of w]) (simp_all add: fetchTask_def bnd_apply dalRead_def)
  next
    case (Some x)
    with Inr assms(2) have "ti_ID x \<noteq> 0" by simp
    from updateInTx_cases [OF assms(1) this, of TaskInstanceProcessStatus "ret ()" 0 w] obtain r where
      r: "updateInTx env (ret ()) (ti_ID x) TaskInstanceProcessStatus w = (r, w\<lparr>wd_ticks := Suc (wd_ticks w)\<rparr>)"
      "case r of Ok u \<Rightarrow> settles view TaskInstanceProcessStatus x u | Err e \<Rightarrow> True | Panic p \<Rightarrow> True" by auto
    show thesis
    proof (cases r)
      case (Ok u)
      with r Some Inr show thesis
        by (intro some [of "w\<lparr>wd_ticks := Suc (wd_ticks w)\<rparr>" x u]) (simp_all add: fetchTask_def bnd_apply dalRead_def)
    next
      case (Err e)
      with r Some Inr show thesis
        by (intro fails [of "w\<lparr>wd_ticks := Suc (wd_ticks w)\<rparr>" "Err e"]) (simp_all add: fetchTask_def bnd_apply dalRead_def)
    next
      case (Panic p)
      with r Some Inr show thesis
        by (intro fails [of "w\<lparr>wd_ticks := Suc (wd_ticks w)\<rparr>" "Panic p"]) (simp_all add: fetchTask_def bnd_apply dalRead_def)
    qed
  qed
qed

lemma filter_keeps_identity:
  assumes "ti_Task ti = Some t"
  shows "\<exists>d. FilterWorkflowTaskInputData jnum gojq (Some ti) = Ok (Some (ti\<lparr>ti_Input := d\<rparr>))"
  using assms by (auto simp: FilterWorkflowTaskInputData_def split: sum.split intro: exI [of _ "ti_Input ti"])

section \<open>The run and the commit\<close>

text \<open>The status a tick records, given the instance it runs and the world it runs in.\<close>

definition tickStatus :: "'db env \<Rightarrow> mWorkflowTaskInstance \<Rightarrow> 'db world \<Rightarrow> int" where
  "tickStatus env ti w =
     (case task_New env (Some ti) of
        None \<Rightarrow> TaskInstanceProcessStatus
      | Some obj \<Rightarrow> if is_ok (fst (attempts RetryAttempts (Run env) (obj, w))) then TaskInstanceSuccessStatus
          else TaskInstanceFailStatus)"

lemma retried_within:
  assumes "memEnv env view" and "retry_library retryDo" and "ti_WorkflowInstanceID ti \<noteq> []" and "ti_Task ti = Some t"
    and "task_New env (Some ti) = Some obj" and "retryDo RetryAttempts (Run env) (obj, w) = (r, obj', w')"
  shows "taskRel view (successors ti t) (ti_WorkflowInstanceID ti) w w'"
proof -
  let ?R = "taskRel view (successors ti t) (ti_WorkflowInstanceID ti)"
  let ?P = "\<lambda>s. objectOf ti t (fst s) \<and> ?R w (snd s)"
  have "?P (snd (retryDo RetryAttempts (Run env) (obj, w)))"
  proof (rule retry_library.retry_invariant [OF assms(2)])
    show "?P (obj, w)" using task_New_object [OF assms(5,4)] by (simp add: taskRel_refl)
    fix s
    assume "?P s"
    with Run_within [OF assms(1,3), of t] have "objectOf ti t (fst (snd (Run env s)))" "?R (snd s) (snd (snd (Run env s)))"
      by (cases s; simp add: withinT_def)+
    with \<open>?P s\<close> taskRel_trans show "?P (snd (Run env s))" by blast
  qed simp
  with assms(6) show ?thesis by simp
qed

lemma retried_status:
  assumes "retry_library retryDo" and "task_New env (Some ti) = Some obj" and "fst (retryDo RetryAttempts (Run env) (obj, w)) = r"
  shows "r = Ok () \<Longrightarrow> tickStatus env ti w = TaskInstanceSuccessStatus"
    and "r = Err e \<Longrightarrow> tickStatus env ti w = TaskInstanceFailStatus"
  using retry_library.retry_outcome [OF assms(1), of RetryAttempts "Run env" "(obj, w)"] assms(2,3)
  by (cases "fst (attempts RetryAttempts (Run env) (obj, w))"; simp add: tickStatus_def)+

lemma runTask_cases:
  assumes "memEnv env view" and "retry_library retryDo" and "ti_WorkflowInstanceID x \<noteq> []" and "ti_ID x \<noteq> 0"
    and "ti_Task x = Some t" and "settles view TaskInstanceProcessStatus x tx" and "runTask env retryDo x tx w = (r, w')"
  shows "\<exists>d. taskRel view (successors x t) (ti_WorkflowInstanceID x) w w' \<and>
    (case r of Ok u \<Rightarrow> settles view (tickStatus env (x\<lparr>ti_Input := d\<rparr>) w) x u | Err e \<Rightarrow> True | Panic p \<Rightarrow> True)"
proof -
  obtain d where d: "FilterWorkflowTaskInputData (ev_jnum env) (ev_gojq env) (Some x) = Ok (Some (x\<lparr>ti_Input := d\<rparr>))"
    using filter_keeps_identity [OF assms(5)] by blast
  let ?ti = "x\<lparr>ti_Input := d\<rparr>"
  have same: "successors ?ti t = successors x t" by (simp add: successors_def)
  show ?thesis
  proof (cases "task_New env (Some ?ti)")
    case None
    with d assms(6,7) show ?thesis
      by (intro exI [of _ d]) (auto simp: runTask_def tickStatus_def taskRel_refl)
  next
    case (Some obj)
    obtain q obj' w1 where q: "retryDo RetryAttempts (Run env) (obj, w) = (q, obj', w1)"
      by (cases "retryDo RetryAttempts (Run env) (obj, w)") auto
    have rel: "taskRel view (successors x t) (ti_WorkflowInstanceID x) w w1"
      using retried_within [OF assms(1,2) _ _ Some q, of t] assms(3,5) same by simp
    note st = retried_status [OF assms(2) Some, of w q] q
    have upd: "\<exists>r. updateInTx env tx (ti_ID x) s w1 = (r, w1\<lparr>wd_ticks := Suc (wd_ticks w1)\<rparr>) \<and>
        (case r of Ok u \<Rightarrow> settles view s x u | Err e \<Rightarrow> True | Panic p \<Rightarrow> True)" if "s \<noteq> 0" for s
      using updateInTx_cases [OF memEnv_store [OF assms(1)] assms(4) that, of tx TaskInstanceProcessStatus w1] assms(6) by metis
    have rel2: "taskRel view (successors x t) (ti_WorkflowInstanceID x) w (w1\<lparr>wd_ticks := n\<rparr>)" for n
      using rel by (simp add: taskRel_def)
    show ?thesis
    proof (cases q)
      case (Ok y)
      from upd [of TaskInstanceSuccessStatus] Ok d Some q st assms(7) rel2 show ?thesis
        by (intro exI [of _ d]) (auto simp: runTask_def split: outcome.splits)
    next
      case (Err e)
      from upd [of TaskInstanceFailStatus] Err d Some q st assms(7) rel2 show ?thesis
        by (intro exI [of _ d]) (auto simp: runTask_def split: outcome.splits)
    next
      case (Panic p)
      with d Some q assms(7) rel show ?thesis by (intro exI [of _ d]) (auto simp: runTask_def)
    qed
  qed
qed

text \<open>What a tick that took \<open>x\<close>, read with its task, may leave behind.\<close>

definition ticked :: "'db env \<Rightarrow> ('db \<Rightarrow> tables) \<Rightarrow> mWorkflowTaskInstance \<Rightarrow> 'db world \<Rightarrow>
    (run_error, unit) outcome \<times> 'db world \<Rightarrow> bool" where
  "ticked env view x w res \<longleftrightarrow>
     (\<exists>d w1 is rows ts. wd_db w1 = wd_db w \<and> wd_queue w1 = wd_queue w \<and>
        view (wd_db (snd res)) = (view (wd_db w))\<lparr>tb_instance := is, tb_taskInstance := rows\<rparr> \<and>
        list_all2 (instOk (ti_WorkflowInstanceID x)) (tb_instance (view (wd_db w))) is \<and>
        (rows = tb_taskInstance (view (wd_db w)) \<or>
         is_ok (fst res) \<and> settled (tickStatus env (x\<lparr>ti_Input := d\<rparr>) w1) x (tb_taskInstance (view (wd_db w))) rows) \<and>
        wd_queue (snd res) = wd_queue w @ map Some ts \<and> set ts \<subseteq> successors x (the (ti_Task x)))"

lemma commit_idle:
  assumes "gorm_store (ev_store env) view" and "\<not> is_ok r \<or> r = Ok (ret ())" and "commitTx env r w = (q, w')"
  shows "idle view w w'" and "\<not> (\<exists>e. q = Err e)"
proof -
  let ?body = "case r of Ok tx \<Rightarrow> tx | Err e \<Rightarrow> fail (dalPart e) | Panic s \<Rightarrow> (\<lambda>db. (Panic s, db))"
  have "tx_result view (wd_db w) (?body (wd_db w)) (g_tx (ev_store env) ?body (wd_db w))"
    by (rule gorm_store.tx_ok [OF assms(1)])
  with assms(2,3) show "idle view w w'"
    by (cases r) (auto simp: commitTx_def idle_def tx_result_def split: prod.splits outcome.splits)
  from assms(3) show "\<not> (\<exists>e. q = Err e)" by (auto simp: commitTx_def split: prod.splits outcome.splits)
qed

lemma commit_settles:
  assumes "gorm_store (ev_store env) view" and "case r of Ok u \<Rightarrow> settles view s x u | Err e \<Rightarrow> True | Panic p \<Rightarrow> True"
    and "commitTx env r w = (q, w')"
  shows "wd_queue w' = wd_queue w \<and> (\<exists>rows. view (wd_db w') = (view (wd_db w))\<lparr>tb_taskInstance := rows\<rparr> \<and>
    (rows = tb_taskInstance (view (wd_db w)) \<or> is_ok q \<and> settled s x (tb_taskInstance (view (wd_db w))) rows))"
proof -
  have queue: "wd_queue w' = wd_queue w"
    using assms(3) by (auto simp: commitTx_def split: prod.splits outcome.splits)
  show ?thesis
  proof (cases "view (wd_db w') = view (wd_db w)")
    case True
    with queue show ?thesis by (auto intro!: exI [of _ "tb_taskInstance (view (wd_db w))"])
  next
    case False
    then obtain u where u: "r = Ok u" using commit_idle [OF assms(1) _ assms(3)] by (cases r) (auto simp: idle_def)
    obtain db1 where "u (wd_db w) = (Ok (), db1)" "view (wd_db w') = view db1" "is_ok q"
      using gorm_store.tx_ok [OF assms(1), of "wd_db w" u] False assms(3) u
      by (auto simp: commitTx_def tx_result_def split: prod.splits outcome.splits)
    with assms(2) u queue show ?thesis by (auto simp: settles_def)
  qed
qed

text \<open>Rows of task instances as the runtime writes them.\<close>

definition rows_named :: "tables \<Rightarrow> bool" where
  "rows_named t \<longleftrightarrow> (\<forall>r\<in>set (tb_taskInstance t). ti_ID r \<noteq> 0 \<and> ti_WorkflowID r \<noteq> [] \<and> ti_TaskID r \<noteq> [] \<and>
     ti_WorkflowInstanceID r \<noteq> [])"

text \<open>The instance that a tick takes: a newest waiting one, with its stored task.\<close>

definition due :: "tables \<Rightarrow> mWorkflowTaskInstance \<Rightarrow> mWorkflowTask \<Rightarrow> bool" where
  "due t x task \<longleftrightarrow> is_newest (\<lambda>y. ti_Status y = TaskInstanceWaitStatus) (tb_taskInstance t) x \<and>
     task \<in> set (tb_task t) \<and> t_TaskID task = ti_TaskID x \<and> t_WorkflowID task = ti_WorkflowID x"

lemma selected_due:
  assumes "memEnv env view" and "rows_named (view db)"
    and "SelectTaskInstance (ev_sched env) (ev_store env) (zeroTaskInstance\<lparr>ti_Status := TaskInstanceWaitStatus\<rparr>) db = Inr (Some x')"
  obtains x t where "due (view db) x t" and "loaded (ev_store env) (view db) db x t x'"
proof -
  have "ro_match taskInstanceRow (zeroTaskInstance\<lparr>ti_Status := TaskInstanceWaitStatus\<rparr>) = (\<lambda>y. ti_Status y = TaskInstanceWaitStatus)"
    by (auto simp: taskInstanceRow_def zeroTaskInstance_def agrees_def)
  moreover have "sched_ok (ev_sched env)" using assms(1) by (simp add: memEnv_def)
  ultimately obtain x where "is_newest (\<lambda>y. ti_Status y = TaskInstanceWaitStatus) (tb_taskInstance (view db)) x"
     "ti_WorkflowID x \<noteq> [] \<longrightarrow> ti_TaskID x \<noteq> [] \<longrightarrow> (\<exists>t. t \<in> set (tb_task (view db)) \<and> t_TaskID t = ti_TaskID x \<and>
        t_WorkflowID t = ti_WorkflowID x \<and> loaded (ev_store env) (view db) db x t x')"
    using gorm_store.SelectTaskInstance_Some [OF memEnv_store [OF assms(1)] _ assms(3)] by metis
  with assms(2) show thesis by (auto simp: due_def rows_named_def is_newest_def intro: that)
qed

lemma run_ticked:
  assumes "memEnv env view" and "retry_library retryDo" and "ti_WorkflowInstanceID x \<noteq> []" and "ti_ID x \<noteq> 0"
    and "ti_Task x \<noteq> None" and "settles view TaskInstanceProcessStatus x tx"
    and "wd_db w1 = wd_db w" and "wd_queue w1 = wd_queue w"
    and "runTask env retryDo x tx w1 = (r, w2)" and "commitTx env r w2 = (q, w')"
  shows "ticked env view x w (q, w')"
proof -
  let ?t = "the (ti_Task x)" and ?i = "ti_WorkflowInstanceID x"
  have "ti_Task x = Some ?t" using assms(5) by simp
  from runTask_cases [OF assms(1-4) this assms(6,9)] obtain d where
    rel: "taskRel view (successors x ?t) ?i w1 w2" and
    r: "case r of Ok u \<Rightarrow> settles view (tickStatus env (x\<lparr>ti_Input := d\<rparr>) w1) x u | Err e \<Rightarrow> True | Panic p \<Rightarrow> True" by blast
  from rel assms(7,8) obtain js ts where js:
    "view (wd_db w2) = (view (wd_db w))\<lparr>tb_instance := js\<rparr>" "list_all2 (instOk ?i) (tb_instance (view (wd_db w))) js"
    "wd_queue w2 = wd_queue w @ map Some ts" "set ts \<subseteq> successors x ?t" unfolding taskRel_def by auto
  from commit_settles [OF memEnv_store [OF assms(1)] r assms(10)] obtain rows where
    "wd_queue w' = wd_queue w2" "view (wd_db w') = (view (wd_db w2))\<lparr>tb_taskInstance := rows\<rparr>"
    "rows = tb_taskInstance (view (wd_db w2)) \<or>
     is_ok q \<and> settled (tickStatus env (x\<lparr>ti_Input := d\<rparr>) w1) x (tb_taskInstance (view (wd_db w2))) rows" by blast
  with js assms(7,8) show ?thesis
    unfolding ticked_def by (intro exI [of _ d] exI [of _ w1] exI [of _ js] exI [of _ rows] exI [of _ ts]) auto
qed

lemma loaded_sel:
  assumes "loaded G tb db x t x'"
  shows "ti_ID x' = ti_ID x" "ti_WorkflowInstanceID x' = ti_WorkflowInstanceID x" "ti_Task x' \<noteq> None"
  using assms by (auto simp: loaded_def)

lemma handle_cases:
  assumes "memEnv env view" and "retry_library retryDo" and "rows_named (view (wd_db w))"
    and "handle env obtain0 retryDo w = (q, w')"
  shows "(\<nexists>e. q = Err e) \<and>
    (idle view w w' \<or> (\<exists>x t x'. due (view (wd_db w)) x t \<and> loaded (ev_store env) (view (wd_db w)) (wd_db w) x t x' \<and> ticked env view x' w (q, w')))"
proof -
  note G = memEnv_store [OF assms(1)]
  have stop: ?thesis
    if "handleBody env obtain0 retryDo w = (r, w1)" "wd_db w1 = wd_db w" "wd_queue w1 = wd_queue w" "\<not> is_ok r \<or> r = Ok (ret ())" for r w1
    using commit_idle [OF G that(4), of w1 q w'] that assms(4) by (auto simp: handle_def idle_def)
  obtain w1 where w1: "wd_db w1 = wd_db w" "wd_queue w1 = wd_queue w"
    and lock: "sched_lock env obtain0 (fetchTask env (ret ())) w = fetchTask env (ret ()) w1 \<or>
      (\<exists>r. sched_lock env obtain0 (fetchTask env (ret ())) w = (r, w1) \<and> \<not> is_ok r)" by (rule sched_lock_cases)
  from lock show ?thesis
  proof
    assume "\<exists>r. sched_lock env obtain0 (fetchTask env (ret ())) w = (r, w1) \<and> \<not> is_ok r"
    then obtain r where "sched_lock env obtain0 (fetchTask env (ret ())) w = (r, w1)" "\<not> is_ok r" by blast
    then show ?thesis
      by (intro stop [of "case r of Ok _ \<Rightarrow> Ok (ret ()) | Err e \<Rightarrow> Err e | Panic s \<Rightarrow> Panic s" w1])
        (cases r; simp add: handleBody_def bnd_apply w1)+
  next
    assume l: "sched_lock env obtain0 (fetchTask env (ret ())) w = fetchTask env (ret ()) w1"
    have id: "ti_ID x \<noteq> 0" if "SelectTaskInstance (ev_sched env) (ev_store env)
        (zeroTaskInstance\<lparr>ti_Status := TaskInstanceWaitStatus\<rparr>) (wd_db w1) = Inr (Some x)" for x
      by (rule selected_due [OF assms(1) _ that])
        (use assms(3) w1 in \<open>auto simp: due_def is_newest_def rows_named_def loaded_sel(1)\<close>)
    show ?thesis
    proof (rule fetchTask_cases [OF G, where w = w1])
      fix w2 assume "wd_db w2 = wd_db w1" "wd_queue w2 = wd_queue w1" "fetchTask env (ret ()) w1 = (Ok None, w2)"
      then show ?thesis by (intro stop [of "Ok (ret ())" w2]) (simp_all add: handleBody_def bnd_apply w1 l)
    next
      fix w2 r assume "wd_db w2 = wd_db w1" "wd_queue w2 = wd_queue w1" "fetchTask env (ret ()) w1 = (r, w2)" "\<not> is_ok r"
      then show ?thesis
        by (intro stop [of "case r of Ok _ \<Rightarrow> Ok (ret ()) | Err e \<Rightarrow> Err e | Panic s \<Rightarrow> Panic s" w2])
          (cases r; simp add: handleBody_def bnd_apply w1 l)+
    next
      fix w2 x' tx
      assume f: "wd_db w2 = wd_db w1" "wd_queue w2 = wd_queue w1" "fetchTask env (ret ()) w1 = (Ok (Some (x', tx)), w2)"
        "settles view TaskInstanceProcessStatus x' tx" "SelectTaskInstance (ev_sched env) (ev_store env)
          (zeroTaskInstance\<lparr>ti_Status := TaskInstanceWaitStatus\<rparr>) (wd_db w1) = Inr (Some x')"
      from selected_due [OF assms(1) _ f(5)] assms(3) w1 obtain x t where
        x: "due (view (wd_db w)) x t" "loaded (ev_store env) (view (wd_db w)) (wd_db w) x t x'" by metis
      with assms(3) loaded_sel [OF x(2)] have named: "ti_ID x' \<noteq> 0" "ti_WorkflowInstanceID x' \<noteq> []" "ti_Task x' \<noteq> None"
        by (auto simp: due_def is_newest_def rows_named_def)
      obtain r w3 where run: "runTask env retryDo x' tx w2 = (r, w3)" by force
      with assms(4) l f(3) have c: "commitTx env r w3 = (q, w')" by (simp add: handle_def handleBody_def bnd_apply)
      have "ticked env view x' w (q, w')"
        by (rule run_ticked [OF assms(1,2) named(2,1,3) f(4) _ _ run c]) (use f w1 in simp_all)
      moreover have "\<nexists>e. q = Err e" using c by (auto simp: commitTx_def split: prod.splits outcome.splits)
      ultimately show ?thesis using x by blast
    qed (use id in blast)
  qed
qed


text \<open>A waiting instance of the one task of \<open>demo_tables\<close>.\<close>

definition demo_waiting :: tables where
  "demo_waiting = demo_tables\<lparr>tb_taskInstance := [zeroTaskInstance\<lparr>ti_ID := 4, ti_WorkflowID := ''w'',
     ti_WorkflowInstanceID := ''i'', ti_TaskID := ''t'', ti_TaskInstanceID := ''k'', ti_Input := ''{}'',
     ti_Status := TaskInstanceWaitStatus\<rparr>]\<rparr>"

lemma demo_waiting_named: "rows_named (wd_db (demo_world demo_waiting))"
  by code_simp


section \<open>Progress\<close>

text \<open>
  C31: A row without its task stalls the scheduler. While no newest waiting task instance has a stored task,
  every tick leaves the store and the queue as they are, however many there are: the row stays waiting
  and the older waiting instances behind it are never run.
\<close>

theorem missing_task_stalls:
  assumes "memEnv env view" and "retry_library retryDo" and "rows_named (view (wd_db w))"
    and "\<nexists>x t. due (view (wd_db w)) x t" and "ticks env obtain0 retryDo n w = (b, w')"
  shows "idle view w w'"
  using assms(3-5)
proof (induction n arbitrary: w)
  case (Suc n)
  obtain q w1 where h: "handle env obtain0 retryDo w = (q, w1)" by force
  from handle_cases [OF assms(1,2) Suc.prems(1) h] Suc.prems(2) have i: "idle view w w1" by blast
  with Suc.IH [of w1] Suc.prems h show ?case by (auto simp: idle_def split: outcome.splits)
qed (simp add: idle_def)

theorem missing_task_stalls_witness:
  "\<exists>b w'. ticks demo_env (\<lambda>_. None) attempts 3 (demo_world (demo_waiting\<lparr>tb_task := []\<rparr>)) = (b, w') \<and>
     tb_taskInstance (wd_db w') = tb_taskInstance demo_waiting"
proof -
  let ?w = "demo_world (demo_waiting\<lparr>tb_task := []\<rparr>)"
  obtain b w' where t: "ticks demo_env (\<lambda>_. None) attempts 3 ?w = (b, w')" by force
  have "rows_named (wd_db ?w)" by code_simp
  moreover have "\<nexists>x t. due (wd_db ?w) x t" by (simp add: due_def demo_world_def)
  ultimately have "idle (\<lambda>db. db) ?w w'"
    using missing_task_stalls [OF demo_memEnv plain.retry_library_axioms _ _ t] by blast
  with t show ?thesis by (simp add: idle_def demo_world_def)
qed

text \<open>On a store that does not fail, the statements of the transaction succeed and it commits.\<close>

definition succeeds :: "('db, dal_error, unit) prog \<Rightarrow> bool" where
  "succeeds tx \<longleftrightarrow> (\<forall>db. fst (tx db) = Ok ())"

lemma updateInTx_total:
  assumes "reliableEnv env view" and "succeeds tx"
  obtains u where "updateInTx env tx i status w = (Ok u, w\<lparr>wd_ticks := Suc (wd_ticks w)\<rparr>)" and "succeeds u"
proof -
  let ?st = "UpdateTaskInstance (ev_store env) (ev_clock env (wd_ticks w)) (zeroTaskInstance\<lparr>ti_ID := i, ti_Status := status\<rparr>)"
  have rel: "gorm_reliable (ev_store env) view" using assms(1) by (simp add: reliableEnv_def)
  have "fst (?st db) = Ok ()" for db
    using gorm_reliable.taskInstance_updates_total [OF rel] by (auto simp: UpdateTaskInstance_def stmt_def split: sum.split) (metis sum.distinct(1))
  with assms(2) have ok: "succeeds (bnd tx (\<lambda>_. ?st))"
    unfolding succeeds_def by (auto simp: bnd_def split: prod.split outcome.split) (metis fst_conv outcome.distinct)+
  then have "updateInTx env tx i status w = (Ok (bnd tx (\<lambda>_. ?st)), w\<lparr>wd_ticks := Suc (wd_ticks w)\<rparr>)"
    unfolding succeeds_def
    by (auto simp: updateInTx_def inTx_def Let_def bnd_apply [of "timeNow env"] timeNow_def split: prod.split outcome.split)
      (metis fst_conv outcome.distinct)+
  with ok show thesis by (intro that)
qed

lemma commit_total:
  assumes "reliableEnv env view" and "succeeds u"
  obtains db' where "commitTx env (Ok u) w = (Ok (), w\<lparr>wd_db := db'\<rparr>)" and "view db' = view (snd (u (wd_db w)))"
proof -
  have rel: "gorm_reliable (ev_store env) view" and G: "gorm_store (ev_store env) view"
    using assms(1) by (simp_all add: reliableEnv_def memEnv_def)
  from assms(2) obtain db1 where u: "u (wd_db w) = (Ok (), db1)" unfolding succeeds_def by (metis prod.collapse)
  with gorm_reliable.tx_commits [OF rel, of u "wd_db w"] obtain db' where t: "g_tx (ev_store env) u (wd_db w) = (Ok (), db')"
    by (metis fst_conv prod.collapse)
  with gorm_store.tx_ok [OF G, of "wd_db w" u] u have "view db' = view db1" by (auto simp: tx_result_def)
  with t u show thesis by (intro that [of db']) (simp_all add: commitTx_def)
qed

lemma sched_lock_total:
  assumes "metrics_typed (wd_metrics w)" and "obtain0 (wd_calls w) = None"
  obtains w1 where "sched_lock env obtain0 h w = h w1" and "wd_db w1 = wd_db w" and "wd_queue w1 = wd_queue w"
    and "metrics_typed (wd_metrics w1)"
proof -
  let ?w = "w\<lparr>wd_calls := Suc (wd_calls w), wd_ticks := Suc (Suc (wd_ticks w))\<rparr>"
  let ?m = "RecordLatency ''scheduler'' ''db_lock_acquire_time'' (int (ev_clock env (Suc (wd_ticks w))) - int (ev_clock env (wd_ticks w)))"
  obtain p where "metric ?m ?w = (Ok (), ?w\<lparr>wd_metrics := p\<rparr>)" "metrics_typed p"
    by (rule metric_ok [of ?w ?m]) (use assms(1) RecordLatency_no_panic RecordLatency_typed in auto)
  with assms(2) show thesis
    by (intro that [of "?w\<lparr>wd_metrics := p\<rparr>"]) (simp_all add: sched_lock_def bnd_apply timeNow_def outside_def)
qed

lemma runTask_total:
  assumes "reliableEnv env view" and "retry_library retryDo" and "ti_Task x = Some t" and "succeeds tx"
    and "runTask env retryDo x tx w = (r, w')"
  shows "(\<exists>u. r = Ok u \<and> succeeds u) \<or> (\<exists>p d obj. r = Panic p \<and> task_New env (Some (x\<lparr>ti_Input := d\<rparr>)) = Some obj \<and>
    fst (attempts RetryAttempts (Run env) (obj, w)) = Panic p)"
proof -
  obtain d where d: "FilterWorkflowTaskInputData (ev_jnum env) (ev_gojq env) (Some x) = Ok (Some (x\<lparr>ti_Input := d\<rparr>))"
    using filter_keeps_identity [OF assms(3)] by blast
  show ?thesis
  proof (cases "task_New env (Some (x\<lparr>ti_Input := d\<rparr>))")
    case None
    with d assms(4,5) show ?thesis by (auto simp: runTask_def)
  next
    case (Some obj)
    obtain q obj' w1 where q: "retryDo RetryAttempts (Run env) (obj, w) = (q, obj', w1)"
      by (cases "retryDo RetryAttempts (Run env) (obj, w)") auto
    have upd: "\<exists>u. updateInTx env tx (ti_ID x) s w1 = (Ok u, w1\<lparr>wd_ticks := Suc (wd_ticks w1)\<rparr>) \<and> succeeds u" for s
      by (rule updateInTx_total [OF assms(1,4)]) blast
    have same: "same_end (fst (attempts RetryAttempts (Run env) (obj, w))) q"
      using retry_library.retry_outcome [OF assms(2), of RetryAttempts "Run env" "(obj, w)"] q by simp
    show ?thesis
    proof (cases q)
      case (Panic p)
      with same have "fst (attempts RetryAttempts (Run env) (obj, w)) = Panic p"
        by (cases "fst (attempts RetryAttempts (Run env) (obj, w))") auto
      with Panic d Some q assms(5) show ?thesis by (auto simp: runTask_def)
    next
      case (Ok y)
      with upd [of TaskInstanceSuccessStatus] d Some q assms(5) show ?thesis by (auto simp: runTask_def)
    next
      case (Err e)
      with upd [of TaskInstanceFailStatus] d Some q assms(5) show ?thesis by (auto simp: runTask_def)
    qed
  qed
qed

lemma tickStatus_cases: "tickStatus env ti w \<in> {TaskInstanceProcessStatus, TaskInstanceSuccessStatus, TaskInstanceFailStatus}"
  by (auto simp: tickStatus_def split: option.split)

lemma fetchTask_total:
  assumes "reliableEnv env view" and "ti_ID x \<noteq> 0" and "SelectTaskInstance (ev_sched env) (ev_store env)
      (zeroTaskInstance\<lparr>ti_Status := TaskInstanceWaitStatus\<rparr>) (wd_db w) = Inr (Some x)"
  obtains tx where "fetchTask env (ret ()) w = (Ok (Some (x, tx)), w\<lparr>wd_ticks := Suc (wd_ticks w)\<rparr>)"
    and "succeeds tx" and "settles view TaskInstanceProcessStatus x tx"
proof -
  have "succeeds (ret ())" by (simp add: succeeds_def)
  from updateInTx_total [OF assms(1) this, of "ti_ID x" TaskInstanceProcessStatus w] obtain tx where
    tx: "updateInTx env (ret ()) (ti_ID x) TaskInstanceProcessStatus w = (Ok tx, w\<lparr>wd_ticks := Suc (wd_ticks w)\<rparr>)" "succeeds tx" by blast
  have G: "gorm_store (ev_store env) view" using assms(1) by (simp add: reliableEnv_def memEnv_def)
  from updateInTx_cases [OF G assms(2), of TaskInstanceProcessStatus "ret ()" 0 w] tx(1)
  have "settles view TaskInstanceProcessStatus x tx" by auto
  with tx assms(3) show thesis by (intro that [of tx]) (simp_all add: fetchTask_def bnd_apply dalRead_def)
qed

text \<open>
  C9: A tick makes progress. On a store that does not fail, when the lock is granted and a waiting task
  instance is found, the tick ends and commits, and the row of that instance is no longer waiting but
  in process, succeeded or failed; the only way around it is a panic of the task itself, which the
  tick passes on.
\<close>

theorem handle_progress:
  assumes "reliableEnv env view" and "retry_library retryDo" and "metrics_typed (wd_metrics w)"
    and "rows_named (view (wd_db w))" and "obtain0 (wd_calls w) = None"
    and "SelectTaskInstance (ev_sched env) (ev_store env) (zeroTaskInstance\<lparr>ti_Status := TaskInstanceWaitStatus\<rparr>) (wd_db w) = Inr (Some x)"
    and "handle env obtain0 retryDo w = (q, w')"
  shows "(q = Ok () \<and> (\<exists>s\<in>{TaskInstanceProcessStatus, TaskInstanceSuccessStatus, TaskInstanceFailStatus}.
      settled s x (tb_taskInstance (view (wd_db w))) (tb_taskInstance (view (wd_db w'))))) \<or>
    (\<exists>p d obj w1. q = Panic p \<and> task_New env (Some (x\<lparr>ti_Input := d\<rparr>)) = Some obj \<and>
      fst (attempts RetryAttempts (Run env) (obj, w1)) = Panic p)"
proof -
  have mem: "memEnv env view" using assms(1) by (simp add: reliableEnv_def)
  note G = memEnv_store [OF mem]
  obtain x0 t0 where x0: "due (view (wd_db w)) x0 t0" "loaded (ev_store env) (view (wd_db w)) (wd_db w) x0 t0 x"
    by (rule selected_due [OF mem assms(4,6)])
  with assms(4) loaded_sel [OF x0(2)] have named: "ti_ID x \<noteq> 0" "ti_WorkflowInstanceID x \<noteq> []"
    by (auto simp: due_def is_newest_def rows_named_def)
  obtain t where t: "ti_Task x = Some t" using loaded_sel(3) [OF x0(2)] by blast
  obtain w1 where w1: "sched_lock env obtain0 (fetchTask env (ret ())) w = fetchTask env (ret ()) w1"
    "wd_db w1 = wd_db w" by (rule sched_lock_total [of w obtain0, OF assms(3,5)])
  let ?w2 = "w1\<lparr>wd_ticks := Suc (wd_ticks w1)\<rparr>"
  obtain tx where f: "fetchTask env (ret ()) w1 = (Ok (Some (x, tx)), ?w2)" "succeeds tx"
    "settles view TaskInstanceProcessStatus x tx"
    by (rule fetchTask_total [OF assms(1) named(1), of w1]) (use assms(6) w1 in simp_all)
  obtain r w3 where r: "runTask env retryDo x tx ?w2 = (r, w3)" by force
  with w1 f assms(7) have c: "commitTx env r w3 = (q, w')" by (simp add: handle_def handleBody_def bnd_apply)
  from runTask_cases [OF mem assms(2) named(2,1) t f(3) r] obtain d where
    rel: "taskRel view (successors x t) (ti_WorkflowInstanceID x) ?w2 w3" and
    s: "case r of Ok u \<Rightarrow> settles view (tickStatus env (x\<lparr>ti_Input := d\<rparr>) ?w2) x u | Err e \<Rightarrow> True | Panic p \<Rightarrow> True" by blast
  have rows: "tb_taskInstance (view (wd_db w3)) = tb_taskInstance (view (wd_db w))"
    using rel w1(2) by (auto simp: taskRel_def)
  from runTask_total [OF assms(1,2) t f(2) r] show ?thesis
  proof (elim disjE exE conjE)
    fix u assume u: "r = Ok u" "succeeds u"
    obtain db' where q: "commitTx env (Ok u) w3 = (Ok (), w3\<lparr>wd_db := db'\<rparr>)" "view db' = view (snd (u (wd_db w3)))"
      by (rule commit_total [OF assms(1) u(2)])
    have "u (wd_db w3) = (Ok (), snd (u (wd_db w3)))" using u(2) unfolding succeeds_def by (metis prod.collapse)
    with s u(1) q(2) have "settled (tickStatus env (x\<lparr>ti_Input := d\<rparr>) ?w2) x (tb_taskInstance (view (wd_db w3))) (tb_taskInstance (view db'))"
      unfolding settles_def by fastforce
    with q(1) c u(1) rows tickStatus_cases [of env "x\<lparr>ti_Input := d\<rparr>" ?w2] show ?thesis by auto
  next
    fix p d obj
    assume "r = Panic p" "task_New env (Some (x\<lparr>ti_Input := d\<rparr>)) = Some obj" "fst (attempts RetryAttempts (Run env) (obj, ?w2)) = Panic p"
    moreover from this c gorm_store.tx_ok [OF G, of "wd_db w3" "\<lambda>db. (Panic p, db)"] have "q = Panic p"
      by (auto simp: commitTx_def tx_result_def split: prod.splits outcome.splits)
    ultimately show ?thesis by blast
  qed
qed

theorem handle_progress_witness:
  "\<exists>w' x s. handle demo_env (\<lambda>_. None) attempts (demo_world demo_waiting) = (Ok (), w') \<and>
     settled s x (tb_taskInstance demo_waiting) (tb_taskInstance (wd_db w')) \<and> s \<noteq> TaskInstanceWaitStatus"
proof -
  have rel: "reliableEnv demo_env (\<lambda>db. db)"
    using demo_memEnv memr.gorm_reliable_axioms by (simp add: reliableEnv_def demo_env_def)
  let ?sel = "SelectTaskInstance (ev_sched demo_env) (ev_store demo_env) (zeroTaskInstance\<lparr>ti_Status := TaskInstanceWaitStatus\<rparr>)
    (wd_db (demo_world demo_waiting))"
  have "\<not> isl ?sel \<and> projr ?sel \<noteq> None" by code_simp
  then obtain x where x: "?sel = Inr (Some x)" by (cases ?sel) auto
  have "is_ok (fst (handle demo_env (\<lambda>_. None) attempts (demo_world demo_waiting)))" by code_simp
  then obtain w' where h: "handle demo_env (\<lambda>_. None) attempts (demo_world demo_waiting) = (Ok (), w')"
    by (cases "handle demo_env (\<lambda>_. None) attempts (demo_world demo_waiting)"; cases "fst (handle demo_env (\<lambda>_. None) attempts (demo_world demo_waiting))") auto
  have "wd_db (demo_world demo_waiting) = demo_waiting" by (simp add: demo_world_def)
  with handle_progress [OF rel plain.retry_library_axioms demo_metrics_typed demo_waiting_named _ x h]
  obtain s where "s \<in> {TaskInstanceProcessStatus, TaskInstanceSuccessStatus, TaskInstanceFailStatus}"
    "settled s x (tb_taskInstance demo_waiting) (tb_taskInstance (wd_db w'))" by auto
  with h show ?thesis by fastforce
qed

end
