(* ===== verification/Agent.thy ===== *)
theory Agent
  imports A2A Flow
begin

text \<open>
  \<open>internal/bridge/workflow_agent.go\<close>: the server side of the A2A protocol. An agent answers HTTP
  requests; a submitted task starts a workflow, and the agent remembers which workflow instance
  belongs to which task. The texts of Go's decoding errors (\<open>decodeErr\<close>) and of the errors of the
  engine (\<open>errText\<close>) are parameters; the two mutexes are not visible when one request is served at a
  time.
\<close>

section \<open>HTTP\<close>

record httpRequest =
  hq_Method :: string
  hq_Path :: string
  hq_Body :: string

record httpResponse =
  hr_Code :: int
  hr_Headers :: "(string \<times> string) list"
  hr_Body :: string

definition jsonHeaders :: "(string \<times> string) list" where
  "jsonHeaders = [(''Content-Type'', ''application/json''), (''Access-Control-Allow-Origin'', ''*'')]"

text \<open>\<open>http.Error\<close> and \<open>http.NotFound\<close>.\<close>

definition httpError :: "string \<Rightarrow> int \<Rightarrow> httpResponse" where
  "httpError text0 code = \<lparr>hr_Code = code,
     hr_Headers = [(''Content-Type'', ''text/plain; charset=utf-8''), (''X-Content-Type-Options'', ''nosniff'')],
     hr_Body = text0 @ [CHR 0x0A]\<rparr>"

definition NotFound :: httpResponse where
  "NotFound = httpError ''404 page not found'' 404"

text \<open>\<open>json.NewDecoder(r.Body).Decode\<close>: the first value of the body, whatever follows it.\<close>

definition decodeFirst :: "'s field \<Rightarrow> 's \<Rightarrow> string \<Rightarrow> 's option" where
  "decodeFirst d zero body =
     (case jvalue literal (2 * length body + 2) 0 body of None \<Rightarrow> None | Some (v, _) \<Rightarrow> d v zero)"

section \<open>The agent\<close>

record workflowAgent =
  wa_card :: A2AAgentCard
  wa_taskToWorkflow :: "(string \<times> string) list"

definition NewWorkflowAgent :: "string \<Rightarrow> string \<Rightarrow> workflowAgent" where
  "NewWorkflowAgent name baseURL = \<lparr>wa_card = BuildAgentCard name name baseURL, wa_taskToWorkflow = []\<rparr>"

definition AgentCard :: "workflowAgent \<Rightarrow> A2AAgentCard" where
  "AgentCard wa = wa_card wa"

definition writeJSON :: "int \<Rightarrow> A2ATaskResponse \<Rightarrow> httpResponse" where
  "writeJSON statusCode data0 = \<lparr>hr_Code = statusCode, hr_Headers = jsonHeaders, hr_Body = responseJson data0\<rparr>"

definition errorResponse :: "string \<Rightarrow> A2ATaskResponse" where
  "errorResponse message = zeroResponse\<lparr>ts_Error := Some \<lparr>ae_Code = 0, ae_Message = message\<rparr>\<rparr>"

definition workingResponse :: "string \<Rightarrow> string \<Rightarrow> A2ATaskResponse" where
  "workingResponse taskID text0 = zeroResponse\<lparr>ts_ID := taskID, ts_Status := A2ATaskStatusWorking,
     ts_Message := \<lparr>ms_Role = ''agent'', ms_Parts = [\<lparr>pt_Type = ''text'', pt_Text = text0\<rparr>]\<rparr>\<rparr>"

fun firstText :: "A2ATextPart list \<Rightarrow> string" where
  "firstText [] = []"
| "firstText (part # parts) = (if pt_Type part = ''text'' \<and> pt_Text part \<noteq> [] then pt_Text part else firstText parts)"

definition extractTaskInput :: "A2ATaskRequest \<Rightarrow> string" where
  "extractTaskInput req = firstText (ms_Parts (tr_Message req))"

definition extractTaskIDFromPath :: "string \<Rightarrow> string \<Rightarrow> string" where
  "extractTaskIDFromPath path pre = (if length path \<le> length pre then [] else drop (length pre) path)"

definition handleAgentCard :: "workflowAgent \<Rightarrow> httpResponse" where
  "handleAgentCard wa = \<lparr>hr_Code = 200, hr_Headers = jsonHeaders, hr_Body = ToJSON (wa_card wa)\<rparr>"

definition handleHealth :: httpResponse where
  "handleHealth = \<lparr>hr_Code = 200, hr_Headers = jsonHeaders,
     hr_Body = ''{'' @ [CHR 0x22] @ ''status'' @ [CHR 0x22] @ '':'' @ [CHR 0x22] @ ''ok'' @ [CHR 0x22] @ ''}''\<rparr>"

definition remember :: "string \<Rightarrow> string \<Rightarrow> workflowAgent \<Rightarrow> workflowAgent" where
  "remember taskID instanceID wa = wa\<lparr>wa_taskToWorkflow := AList.update taskID instanceID (wa_taskToWorkflow wa)\<rparr>"

definition startFor :: "'db env \<Rightarrow> (run_error \<Rightarrow> string) \<Rightarrow> A2ATaskRequest \<Rightarrow> workflowAgent \<times> 'db world \<Rightarrow>
    (run_error, httpResponse) outcome \<times> workflowAgent \<times> 'db world" where
  "startFor env errText req s =
     (case s of (wa, w) \<Rightarrow>
      case newUUID env w of
        (Ok instanceID, w1) \<Rightarrow>
          (case Start env \<lparr>p_ID = ac_Name (wa_card wa), p_InstanceID = [], p_TaskInstanceID = [], p_Input = extractTaskInput req\<rparr> w1 of
             (Ok wfInstanceID, w2) \<Rightarrow>
               (let wa1 = remember instanceID wfInstanceID wa;
                    a2aTaskID = (if tr_ID req \<noteq> [] then tr_ID req else instanceID);
                    wa2 = (if tr_ID req \<noteq> [] then remember a2aTaskID wfInstanceID wa1 else wa1) in
                (Ok (writeJSON 200 (workingResponse a2aTaskID (''Workflow execution started: '' @ wfInstanceID))), wa2, w2))
           | (Err e, w2) \<Rightarrow> (Ok (writeJSON 500 (errorResponse (''workflow start failed: '' @ errText e))), wa, w2)
           | (Panic p, w2) \<Rightarrow> (Panic p, wa, w2))
      | (Err e, w1) \<Rightarrow> (Err e, wa, w1)
      | (Panic p, w1) \<Rightarrow> (Panic p, wa, w1))"

definition handleSubmitTask :: "'db env \<Rightarrow> (string \<Rightarrow> string) \<Rightarrow> (run_error \<Rightarrow> string) \<Rightarrow> httpRequest \<Rightarrow> workflowAgent \<times> 'db world \<Rightarrow>
    (run_error, httpResponse) outcome \<times> workflowAgent \<times> 'db world" where
  "handleSubmitTask env decodeErr errText r s =
     (if hq_Method r \<noteq> ''POST'' then (Ok (httpError ''method not allowed'' 405), s)
      else (case decodeFirst (dObj requestFields) zeroRequest (hq_Body r) of
              None \<Rightarrow> (Ok (writeJSON 400 (errorResponse (''invalid request: '' @ decodeErr (hq_Body r)))), s)
            | Some req \<Rightarrow>
                if extractTaskInput req = [] then (Ok (writeJSON 400 (errorResponse ''task message must contain text'')), s)
                else startFor env errText req s))"

definition handleTaskStatus :: "workflowAgent \<Rightarrow> httpRequest \<Rightarrow> httpResponse" where
  "handleTaskStatus wa r =
     (let taskID = extractTaskIDFromPath (hq_Path r) ''/a2a/tasks/'' in
      if taskID = [] then NotFound
      else (case map_of (wa_taskToWorkflow wa) taskID of
              None \<Rightarrow> writeJSON 404 (errorResponse ''task not found'')
            | Some wfInstanceID \<Rightarrow> writeJSON 200 (workingResponse taskID (''Workflow instance: '' @ wfInstanceID))))"

section \<open>Routes\<close>

datatype agentRoute = RCard | RSubmit | RStatus | RHealth

definition RegisterRoutes :: "(string \<times> agentRoute) list" where
  "RegisterRoutes =
     [(''/.well-known/agent-card.json'', RCard), (''/a2a/tasks'', RSubmit), (''/a2a/tasks/'', RStatus), (''/a2a/health'', RHealth)]"

text \<open>
  \<open>http.ServeMux\<close> on a clean path (one with dots or doubled slashes it would redirect; the identifiers that clients make are
  UUIDs, whose paths are clean): the pattern that is the path, else the longest pattern that ends in a
  slash and is a prefix of it.
\<close>

definition muxMatch :: "(string \<times> 'h) list \<Rightarrow> string \<Rightarrow> 'h option" where
  "muxMatch routes path =
     (case map_of routes path of
        Some h \<Rightarrow> Some h
      | None \<Rightarrow>
          (case sort_key (\<lambda>(p, h). - int (length p)) (filter (\<lambda>(p, h). p \<noteq> [] \<and> last p = CHR ''/'' \<and> prefix p path) routes) of
             [] \<Rightarrow> None
           | (p, h) # _ \<Rightarrow> Some h))"

definition serveAgent :: "'db env \<Rightarrow> (string \<Rightarrow> string) \<Rightarrow> (run_error \<Rightarrow> string) \<Rightarrow> httpRequest \<Rightarrow> workflowAgent \<times> 'db world \<Rightarrow>
    (run_error, httpResponse) outcome \<times> workflowAgent \<times> 'db world" where
  "serveAgent env decodeErr errText r s =
     (case muxMatch RegisterRoutes (hq_Path r) of
        None \<Rightarrow> (Ok NotFound, s)
      | Some RCard \<Rightarrow> (Ok (handleAgentCard (fst s)), s)
      | Some RSubmit \<Rightarrow> handleSubmitTask env decodeErr errText r s
      | Some RStatus \<Rightarrow> (Ok (handleTaskStatus (fst s) r), s)
      | Some RHealth \<Rightarrow> (Ok handleHealth, s))"

end
