(* ===== verification/JsonTrip.thy ===== *)
theory JsonTrip
  imports JsonStruct
begin

text \<open>
  What is written as JSON is read back: strings that are well-formed UTF-8, 64-bit integers,
  Booleans, objects and arrays. \<open>reads k text v\<close> says that the reader finds the value \<open>v\<close> at the front of
  any input that starts with \<open>text\<close> and goes on with a delimiter, \<open>k\<close> being the nesting it needs. The
  rules for it follow the shape of the text, so the round trip of a structure is a matter of
  applying them field by field.
\<close>

section \<open>UTF-8\<close>

text \<open>The code point at the front, when the bytes there are well-formed.\<close>

definition rune_at :: "string \<Rightarrow> nat \<Rightarrow> nat \<Rightarrow> bool" where
  "rune_at s r n \<longleftrightarrow> s \<noteq> [] \<and> decode_rune s = (r, n) \<and> (r, n) \<noteq> (rune_error, 1)"

function valid_utf8 :: "string \<Rightarrow> bool" where
  "valid_utf8 s =
     (case s of
        [] \<Rightarrow> True
      | c # t \<Rightarrow> (let (r, n) = decode_rune s in (r, n) \<noteq> (rune_error, 1) \<and> valid_utf8 (drop n s)))"
  by pat_completeness auto
termination
proof (relation "measure length")
  fix s :: string and c t x r n
  assume "s = c # t" and "x = decode_rune s" and "(r, n) = x"
  then show "(drop n s, s) \<in> measure length"
    using decode_rune_width [of s] by (auto simp: prod_eq_iff)
qed auto

declare valid_utf8.simps [simp del]

lemma valid_utf8_Nil [simp]: "valid_utf8 []"
  by (simp add: valid_utf8.simps)

lemma valid_utf8_code [code]:
  "valid_utf8 [] = True"
  "valid_utf8 (c # t) = (let (r, n) = decode_rune (c # t) in (r, n) \<noteq> (rune_error, 1) \<and> valid_utf8 (drop n (c # t)))"
  by (simp_all add: valid_utf8.simps [of "[]"] valid_utf8.simps [of "c # t"])

lemma valid_utf8_rune: "rune_at s r n \<Longrightarrow> valid_utf8 s \<longleftrightarrow> valid_utf8 (drop n s)"
  unfolding rune_at_def by (subst valid_utf8.simps) (auto split: list.split)

lemma valid_utf8_runeE:
  assumes "valid_utf8 s" and "s \<noteq> []"
  obtains r n where "rune_at s r n" and "valid_utf8 (drop n s)"
  using assms by (subst (asm) valid_utf8.simps) (auto simp: rune_at_def split: list.splits)

lemma valid_utf8_ascii: "(of_char c :: nat) < 0x80 \<Longrightarrow> valid_utf8 (c # s) \<longleftrightarrow> valid_utf8 s"
  using valid_utf8_rune [of "c # s" "of_char c" 1] by (simp add: rune_at_def decode_rune_ascii)

lemma valid_ascii: "(\<forall>c\<in>set s. (of_char c :: nat) < 0x80) \<Longrightarrow> valid_utf8 s"
  by (induction s) (simp_all add: valid_utf8_ascii)

text \<open>The four lengths of an encoding.\<close>

lemma rune_at_cases:
  assumes "rune_at s r n"
  obtains (one) a t where "s = char_of a # t" "a < 0x80" "r = a" "n = 1"
    | (two) a b t where "s = char_of (0xC0 + a) # char_of (0x80 + b) # t" "2 \<le> a" "a < 32" "b < 64" "r = a * 64 + b" "n = 2"
    | (three) a b c t where "s = char_of (0xE0 + a) # char_of (0x80 + b) # char_of (0x80 + c) # t" "a < 16" "b < 64" "c < 64"
        "a = 0 \<longrightarrow> 32 \<le> b" "a = 13 \<longrightarrow> b < 32" "r = a * 4096 + b * 64 + c" "n = 3"
    | (four) a b c d t where "s = char_of (0xF0 + a) # char_of (0x80 + b) # char_of (0x80 + c) # char_of (0x80 + d) # t" "a < 5"
        "b < 64" "c < 64" "d < 64" "a = 0 \<longrightarrow> 16 \<le> b" "a = 4 \<longrightarrow> b < 16" "r = a * 262144 + b * 4096 + c * 64 + d" "n = 4"
proof -
  obtain x t where s: "s = x # t" using assms by (auto simp: rune_at_def neq_Nil_conv)
  let ?b = "of_char x :: nat"
  note d = assms [unfolded rune_at_def s, THEN conjunct2]
  have ch: "y = char_of (k + (of_char y - k))" if "k \<le> (of_char y :: nat)" for y k
    using that by simp
  consider "?b < 0x80" | "0x80 \<le> ?b" "?b < 0xC2" | "0xC2 \<le> ?b" "?b \<le> 0xDF" | "0xE0 \<le> ?b" "?b \<le> 0xEF"
    | "0xF0 \<le> ?b" "?b \<le> 0xF4" | "0xF4 < ?b" by linarith
  then show thesis
  proof cases
    case 1
    with d s show thesis by (intro one [of ?b t]) (auto simp: decode_rune_def Let_def)
  next
    case 3
    with d obtain y u where "t = y # u" "cont 0x80 0xBF y" "r = (?b - 0xC0) * 64 + (of_char y - 0x80)" "n = 2"
      by (auto simp: decode_rune_def Let_def split: list.splits if_splits)
    with 3 s ch [of "0xC0" x] ch [of "0x80" y] show thesis
      by (intro two [of "?b - 0xC0" "of_char y - 0x80" u]) (auto simp: cont_def)
  next
    case 4
    with d obtain y z u where "t = y # z # u" "cont (if ?b = 0xE0 then 0xA0 else 0x80) (if ?b = 0xED then 0x9F else 0xBF) y"
      "cont 0x80 0xBF z" "r = (?b - 0xE0) * 4096 + (of_char y - 0x80) * 64 + (of_char z - 0x80)" "n = 3"
      by (auto simp: decode_rune_def Let_def split: list.splits if_splits)
    with 4 s ch [of "0xE0" x] ch [of "0x80" y] ch [of "0x80" z] show thesis
      by (intro three [of "?b - 0xE0" "of_char y - 0x80" "of_char z - 0x80" u]) (auto simp: cont_def split: if_splits)
  next
    case 5
    with d obtain y z v u where "t = y # z # v # u" "cont (if ?b = 0xF0 then 0x90 else 0x80) (if ?b = 0xF4 then 0x8F else 0xBF) y"
      "cont 0x80 0xBF z" "cont 0x80 0xBF v"
      "r = (?b - 0xF0) * 262144 + (of_char y - 0x80) * 4096 + (of_char z - 0x80) * 64 + (of_char v - 0x80)" "n = 4"
      by (auto simp: decode_rune_def Let_def split: list.splits if_splits)
    with 5 s ch [of "0xF0" x] ch [of "0x80" y] ch [of "0x80" z] ch [of "0x80" v] show thesis
      by (intro four [of "?b - 0xF0" "of_char y - 0x80" "of_char z - 0x80" "of_char v - 0x80" u]) (auto simp: cont_def split: if_splits)
  qed (use d in \<open>auto simp: decode_rune_def Let_def\<close>)
qed

text \<open>A well-formed code point is written back as the bytes it was read from, whatever follows them.\<close>

lemma digit64: "y < 64 \<Longrightarrow> (x * 64 + y) div 64 = x" "y < 64 \<Longrightarrow> (x * 64 + y) mod 64 = y" for x y :: nat
  by simp_all

lemma encode_two:
  assumes "2 \<le> a" and "a < 32" and "b < 64"
  shows "encode_rune (a * 64 + b) = [char_of (0xC0 + a), char_of (0x80 + b)]"
proof -
  have "(a * 64 + b) div 64 = a" "(a * 64 + b) mod 64 = b" using assms by simp_all
  moreover have "128 \<le> a * 64 + b" "a * 64 + b < 2048" using assms by arith+
  ultimately show ?thesis by (simp add: encode_rune_def)
qed

lemma encode_three:
  assumes "a < 16" and "b < 64" and "c < 64" and "a = 0 \<longrightarrow> 32 \<le> b" and "a = 13 \<longrightarrow> b < 32"
  shows "encode_rune (a * 4096 + b * 64 + c) = [char_of (0xE0 + a), char_of (0x80 + b), char_of (0x80 + c)]"
proof -
  let ?r = "a * 4096 + b * 64 + c"
  have r: "?r = (a * 64 + b) * 64 + c" by simp
  have 1: "?r div 64 = a * 64 + b" "?r mod 64 = c" unfolding r by (rule digit64 [OF assms(3)])+
  have "?r div 4096 = ?r div 64 div 64" by (simp only: div_mult2_eq [symmetric]) simp
  then have "?r div 4096 = a" "?r div 64 mod 64 = b" "?r mod 64 = c" by (simp_all only: 1 digit64 [OF assms(2)])
  moreover have "2048 \<le> ?r" "?r < 65536" using assms by arith+
  moreover have "\<not> (0xD800 \<le> ?r \<and> ?r \<le> 0xDFFF)"
  proof -
    consider "a < 13" | "a = 13" "b < 32" | "13 < a" using assms(5) by linarith
    then show ?thesis using assms(2,3) by cases linarith+
  qed
  ultimately show ?thesis by (auto simp: encode_rune_def Let_def)
qed

lemma encode_four:
  assumes "a < 5" and "b < 64" and "c < 64" and "d < 64" and "a = 0 \<longrightarrow> 16 \<le> b" and "a = 4 \<longrightarrow> b < 16"
  shows "encode_rune (a * 262144 + b * 4096 + c * 64 + d) =
    [char_of (0xF0 + a), char_of (0x80 + b), char_of (0x80 + c), char_of (0x80 + d)]"
proof -
  let ?r = "a * 262144 + b * 4096 + c * 64 + d"
  have r: "?r = ((a * 64 + b) * 64 + c) * 64 + d" by simp
  have 1: "?r div 64 = (a * 64 + b) * 64 + c" "?r mod 64 = d" unfolding r by (rule digit64 [OF assms(4)])+
  have 2: "?r div 4096 = ?r div 64 div 64" by (simp only: div_mult2_eq [symmetric]) simp
  have 3: "?r div 262144 = ?r div 64 div 64 div 64" by (simp only: div_mult2_eq [symmetric]) simp
  have 4: "((a * 64 + b) * 64 + c) div 64 = a * 64 + b" "((a * 64 + b) * 64 + c) mod 64 = c" by (rule digit64 [OF assms(3)])+
  have "?r div 262144 = a" "?r div 4096 mod 64 = b" "?r div 64 mod 64 = c" "?r mod 64 = d"
    unfolding 2 3 1 4 by (simp_all only: digit64 [OF assms(2)])
  moreover have "65536 \<le> ?r" "?r \<le> 0x10FFFF" using assms by arith+
  ultimately show ?thesis by (auto simp: encode_rune_def Let_def)
qed

lemma encode_decode:
  assumes "rune_at s r n"
  shows "encode_rune r = take n s"
  using assms
proof (cases rule: rune_at_cases)
  case (one a t)
  then show ?thesis by (simp add: encode_rune_def)
next
  case (two a b t)
  then show ?thesis using encode_two [of a b] by (simp add: numeral_eq_Suc)
next
  case (three a b c t)
  then show ?thesis using encode_three [of a b c] by (simp only: take_Suc_Cons take0 eval_nat_numeral) simp
next
  case (four a b c d t)
  then show ?thesis using encode_four [of a b c d] by (simp only: take_Suc_Cons take0 eval_nat_numeral) simp
qed

lemma byte_char: "k < 256 \<Longrightarrow> (of_char (char_of k :: char) :: nat) = k"
  by simp

lemma decode_prefix:
  "a < 0x80 \<Longrightarrow> decode_rune (char_of a # u) = (a, 1)"
  "2 \<le> a \<Longrightarrow> a < 32 \<Longrightarrow> b < 64 \<Longrightarrow> decode_rune (char_of (0xC0 + a) # char_of (0x80 + b) # u) = (a * 64 + b, 2)"
  "a < 16 \<Longrightarrow> b < 64 \<Longrightarrow> c < 64 \<Longrightarrow> a = 0 \<longrightarrow> 32 \<le> b \<Longrightarrow> a = 13 \<longrightarrow> b < 32 \<Longrightarrow>
     decode_rune (char_of (0xE0 + a) # char_of (0x80 + b) # char_of (0x80 + c) # u) = (a * 4096 + b * 64 + c, 3)"
  "a < 5 \<Longrightarrow> b < 64 \<Longrightarrow> c < 64 \<Longrightarrow> d < 64 \<Longrightarrow> a = 0 \<longrightarrow> 16 \<le> b \<Longrightarrow> a = 4 \<longrightarrow> b < 16 \<Longrightarrow>
     decode_rune (char_of (0xF0 + a) # char_of (0x80 + b) # char_of (0x80 + c) # char_of (0x80 + d) # u)
       = (a * 262144 + b * 4096 + c * 64 + d, 4)"
  by (simp_all add: decode_rune_def Let_def cont_def byte_char del: of_char_of) auto

lemma rune_at_take:
  assumes "rune_at s r n"
  shows "rune_at (take n s @ u) r n"
  using assms
proof (cases rule: rune_at_cases)
  case (one a t)
  then show ?thesis using decode_prefix(1) [of a u] by (simp add: rune_at_def)
next
  case (two a b t)
  then show ?thesis using decode_prefix(2) [of a b u] by (simp add: rune_at_def numeral_2_eq_2)
next
  case (three a b c t)
  then show ?thesis using decode_prefix(3) [of a b c u] by (simp add: rune_at_def numeral_3_eq_3)
next
  case (four a b c d t)
  moreover have "take 4 s = take (Suc (Suc (Suc (Suc 0)))) s" by (simp add: eval_nat_numeral)
  ultimately show ?thesis using decode_prefix(4) [of a b c d u] by (simp add: rune_at_def)
qed

section \<open>Strings\<close>

lemma hex_digit_val: "k < 16 \<Longrightarrow> hex_val (hex_digit k) = Some k"
  by (auto simp: hex_val_def hex_digit_def Let_def)

lemma hex4_low:
  assumes "k < 256"
  shows "hex4 (CHR ''0'' # CHR ''0'' # hex_digit (k div 16) # hex_digit (k mod 16) # t) = Some (k, t)"
proof -
  have "hex_val (hex_digit (k div 16)) = Some (k div 16)" "hex_val (hex_digit (k mod 16)) = Some (k mod 16)"
    using assms by (simp_all add: hex_digit_val)
  moreover have "hex_val (CHR ''0'') = Some 0" by (simp add: hex_val_def)
  ultimately show ?thesis by simp
qed

lemma jstring_byte:
  assumes "(of_char c :: nat) < 0x80"
  shows "jstring (json_byte c @ t) = map_option (\<lambda>(v, r). (c # v, r)) (jstring t)"
proof -
  have e: "encode_rune (of_char c) = [c]" using assms by (simp add: encode_rune_def)
  have h: "escape (CHR ''u'' # CHR ''0'' # CHR ''0'' # hex_digit (of_char c div 16) # hex_digit (of_char c mod 16) # t) = Some ([c], t)"
    using hex4_low [of "of_char c" t] assms e by (simp add: escape_def)
  show ?thesis
    using assms h by (auto simp: json_byte_def escape_def)
qed

lemma jstring_rune:
  assumes "rune_at s r n" and "0x80 \<le> (of_char (hd s) :: nat)"
  shows "jstring (take n s @ t) = map_option (\<lambda>(v, x). (take n s @ v, x)) (jstring t)"
proof -
  obtain c u where s: "s = c # u" using assms(1) by (cases s) (auto simp: rune_at_def)
  from assms(1) have n: "0 < n" "n \<le> length s" using decode_rune_width [of s] by (auto simp: rune_at_def)
  then obtain u' where u': "take n s @ t = c # u'" using s by (cases n) auto
  from rune_at_take [OF assms(1), of t] have "decode_rune (c # u') = (r, n)" unfolding u' by (simp add: rune_at_def)
  moreover have "drop n (c # u') = t" using u' n by (metis append_eq_conv_conj length_take min.absorb2)
  moreover have "\<not> of_char c < (128 :: nat)" using assms(2) s by simp
  ultimately show ?thesis
    unfolding u' using encode_decode [OF assms(1)] by (auto simp: Let_def)
qed

lemma jstring_chars: "valid_utf8 s \<Longrightarrow> jstring (json_chars s @ CHR 0x22 # t) = Some (s, t)"
proof (induction "length s" arbitrary: s rule: less_induct)
  case less
  show ?case
  proof (cases s)
    case Nil
    then show ?thesis by (simp add: json_chars_code)
  next
    case (Cons c u)
    obtain r n where rn: "rune_at s r n" "valid_utf8 (drop n s)"
      by (rule valid_utf8_runeE [OF less.prems]) (use Cons in auto)
    have n: "0 < n" "n \<le> length s" using rn(1) decode_rune_width [of s] by (auto simp: rune_at_def)
    have IH: "jstring (json_chars (drop n s) @ CHR 0x22 # t) = Some (drop n s, t)"
      by (rule less.hyps [OF _ rn(2)]) (use n Cons in auto)
    show ?thesis
    proof (cases "(of_char c :: nat) < 0x80")
      case True
      with rn(1) Cons have "n = 1" by (simp add: rune_at_def decode_rune_ascii)
      with IH Cons True jstring_byte [OF True] show ?thesis by (simp add: json_chars_code)
    next
      case False
      have d: "decode_rune (c # u) = (r, n)" "\<not> (r = rune_error \<and> n = 1)" using rn(1) Cons by (auto simp: rune_at_def)
      show ?thesis
      proof (cases "r = 0x2028 \<or> r = 0x2029")
        case True
        have "char_of (56 :: nat) = CHR ''8''" "char_of (57 :: nat) = CHR ''9''" by code_simp+
        with True have m: "hex_digit (r mod 16) = (if r = 0x2028 then CHR ''8'' else CHR ''9'')" by (auto simp: hex_digit_def)
        have "escape (''u202'' @ hex_digit (r mod 16) # v) = Some (take n s, v)" for v
          using True encode_decode [OF rn(1)] unfolding m by (auto simp: escape_def hex_val_def)
        with d False True IH Cons show ?thesis by (auto simp: json_chars_code Let_def)
      next
        case nosep: False
        from jstring_rune [OF rn(1), of "json_chars (drop n s) @ CHR 0x22 # t"] False Cons IH
        have "jstring (take n s @ json_chars (drop n s) @ CHR 0x22 # t) = Some (s, t)" by simp
        with d False nosep Cons show ?thesis by (auto simp: json_chars_code Let_def)
      qed
    qed
  qed
qed

section \<open>Values\<close>

text \<open>What may follow a value in a text.\<close>

definition delim :: "string \<Rightarrow> bool" where
  "delim rest \<longleftrightarrow> (case rest of [] \<Rightarrow> True | c # _ \<Rightarrow> c \<in> {CHR '','', CHR ''}'', CHR '']''})"

definition reads :: "nat \<Rightarrow> string \<Rightarrow> gval \<Rightarrow> bool" where
  "reads k text v \<longleftrightarrow> (\<forall>depth rest n. depth + k \<le> maxNestingDepth \<longrightarrow> delim rest \<longrightarrow> 2 * length (text @ rest) + 1 \<le> n \<longrightarrow>
     jvalue literal n depth (text @ rest) = Some (v, rest))"

lemma readsI:
  assumes "\<And>depth rest n. depth + k \<le> maxNestingDepth \<Longrightarrow> delim rest \<Longrightarrow> 2 * length (text @ rest) \<le> n \<Longrightarrow>
     jvalue literal (Suc n) depth (text @ rest) = Some (v, rest)"
  shows "reads k text v"
  unfolding reads_def
proof (intro allI impI)
  fix depth rest n
  assume "depth + k \<le> maxNestingDepth" "delim rest" "2 * length (text @ rest) + 1 \<le> n"
  with assms show "jvalue literal n depth (text @ rest) = Some (v, rest)" by (cases n) auto
qed

lemma reads_up: "reads 0 text v \<Longrightarrow> reads k text v"
  by (auto simp: reads_def)

named_theorems reads_intros

lemma skip_ws_char: "\<not> is_ws c \<Longrightarrow> skip_ws (c # t) = c # t"
  by (simp add: skip_ws_def)

lemma skip_ws_delim: "delim rest \<Longrightarrow> skip_ws rest = rest"
  by (auto simp: skip_ws_def delim_def is_ws_def split: list.splits)

lemma reads_quote [reads_intros]: "valid_utf8 s \<Longrightarrow> reads 0 (json_quote s) (VStr s)"
  by (rule readsI) (simp add: json_quote_def skip_ws_char is_ws_def jstring_chars)

lemma reads_null [reads_intros]: "reads 0 ''null'' VNil"
  by (rule readsI) (simp add: skip_ws_char is_ws_def)

lemma reads_bool [reads_intros]: "reads 0 (json_bool b) (VBool b)"
  by (rule readsI) (simp add: json_bool_def skip_ws_char is_ws_def)

text \<open>Integers.\<close>

lemma digits_val_append: "digits_val a (xs @ ys) = (case digits_val a xs of None \<Rightarrow> None | Some b \<Rightarrow> digits_val b ys)"
  by (induction xs arbitrary: a) auto

lemma digit_char: "k < 10 \<Longrightarrow> is_digit (char_of (k + 48)) \<and> (of_char (char_of (k + 48) :: char) :: nat) = k + 48"
  by (simp add: is_digit_def)

lemma show_nat_digits: "list_all is_digit (show_nat n) \<and> show_nat n \<noteq> [] \<and> digits_val 0 (show_nat n) = Some n"
proof (induction n rule: show_nat.induct)
  case (1 n)
  show ?case
  proof (cases "n < 10")
    case True
    with digit_char [of n] show ?thesis by (simp add: show_nat.simps [of n])
  next
    case False
    with 1 digit_char [of "n mod 10"] show ?thesis by (simp add: show_nat.simps [of n] digits_val_append)
  qed
qed

lemma show_nat_head: "0 < n \<Longrightarrow> hd (show_nat n) \<noteq> CHR ''0''"
proof (induction n rule: show_nat.induct)
  case (1 n)
  show ?case
  proof (cases "n < 10")
    case True
    have "(of_char (char_of (n + 48) :: char) :: nat) = n + 48" using True digit_char by blast
    moreover have "(of_char (CHR ''0'') :: nat) = 48" by simp
    ultimately have "char_of (n + 48) \<noteq> CHR ''0''" using 1(2) by force
    with True show ?thesis by (simp add: show_nat.simps [of n])
  next
    case False
    with 1 show_nat_digits [of "n div 10"] show ?thesis by (simp add: show_nat.simps [of n])
  qed
qed

lemma parseInt64_show:
  assumes "- (2 ^ 63) \<le> i" and "i < 2 ^ 63"
  shows "parseInt64 (show_int i) = Some i"
proof -
  have "hd (show_nat (nat i)) \<noteq> CHR ''-''" using show_nat_digits [of "nat i"]
    by (cases "show_nat (nat i)") (auto simp: is_digit_def)
  then show ?thesis
    using assms show_nat_digits [of "nat i"] show_nat_digits [of "nat (- i)"]
    by (cases "show_nat (nat i)") (auto simp: parseInt64_def show_int_def Let_def)
qed

lemma digits_read:
  assumes "list_all is_digit ds" and "ds \<noteq> []" and "delim rest"
  shows "digits (ds @ rest) = Some (ds, rest)"
proof -
  have "takeWhile is_digit (ds @ rest) = ds" "dropWhile is_digit (ds @ rest) = rest"
    using assms(1,3) by (cases rest; auto simp: list_all_iff delim_def is_digit_def takeWhile_append2 dropWhile_append2)+
  with assms(2) show ?thesis by (simp add: digits_def)
qed

lemma int_part_show: "delim rest \<Longrightarrow> int_part (show_nat n @ rest) = Some (show_nat n, rest)"
proof (cases "n = 0")
  case False
  assume "delim rest"
  from digits_read [OF _ _ this, of "show_nat n"] show_nat_digits [of n] show_nat_head [of n] False show ?thesis
    by (cases "show_nat n") (auto simp: int_part_def)
next
  case True
  have "char_of (48 :: nat) = CHR ''0''" by code_simp
  with True show ?thesis by (simp add: show_nat.simps int_part_def)
qed

lemma jnumber_show:
  assumes "delim rest"
  shows "jnumber (show_int i @ rest) = Some (show_int i, rest)"
proof -
  have fe: "frac_part rest = Some ([], rest)" "exp_part rest = Some ([], rest)"
    using assms by (auto simp: frac_part_def exp_part_def delim_def split: list.splits)
  have "hd (show_nat (nat i)) \<noteq> CHR ''-''" using show_nat_digits [of "nat i"]
    by (cases "show_nat (nat i)") (auto simp: is_digit_def)
  moreover have "show_nat (nat i) \<noteq> []" using show_nat_digits by blast
  ultimately show ?thesis
    using int_part_show [OF assms, of "nat i"] int_part_show [OF assms, of "nat (- i)"] fe
    by (cases "show_nat (nat i)") (auto simp: jnumber_def show_int_def Let_def)
qed

lemma reads_int [reads_intros]: "reads 0 (show_int i) (VFloat (show_int i) None)"
proof (rule readsI)
  fix depth rest n
  assume d: "delim rest"
  obtain c t where ct: "show_int i @ rest = c # t" "c = CHR ''-'' \<or> is_digit c"
    using show_nat_digits [of "nat i"] by (cases "i < 0"; cases "show_nat (nat i)") (auto simp: show_int_def)
  have "\<not> is_ws c \<and> c \<noteq> CHR 0x22 \<and> c \<noteq> CHR ''['' \<and> c \<noteq> CHR ''{'' \<and> c \<noteq> CHR ''t'' \<and> c \<noteq> CHR ''f'' \<and> c \<noteq> CHR ''n''"
    using ct(2) by (auto simp: is_ws_def is_digit_def)
  then show "jvalue literal (Suc n) depth (show_int i @ rest) = Some (VFloat (show_int i) None, rest)"
    using jnumber_show [OF d, of i] unfolding ct(1) by (simp add: skip_ws_char literal_def)
qed

text \<open>Objects: the members in order, their names distinct.\<close>

definition member :: "nat \<Rightarrow> string \<times> string \<Rightarrow> string \<times> gval \<Rightarrow> bool" where
  "member k f e \<longleftrightarrow> fst e = fst f \<and> valid_utf8 (fst f) \<and> reads k (snd f) (snd e)"

abbreviation (input) memberText :: "string \<times> string \<Rightarrow> string" where
  "memberText f \<equiv> json_quote (fst f) @ '':'' @ snd f"

lemma jmembers_step:
  assumes "member k f e" and "delim rest" and "depth + k \<le> maxNestingDepth" and "2 * length (memberText f @ rest) + 2 \<le> n"
  shows "jmembers literal n depth (memberText f @ rest) =
    (case rest of
       [] \<Rightarrow> None
     | d # u \<Rightarrow>
         if d = CHR ''}'' then Some ([e], u)
         else if d = CHR '','' then
           map_option (\<lambda>(es, r3). (if map_of es (fst e) = None then e # es else es, r3)) (jmembers literal (n - 1) depth u)
         else None)"
proof -
  obtain m where m: "n = Suc m" using assms(4) by (cases n) auto
  have q: "memberText f @ rest = CHR 0x22 # json_chars (fst f) @ CHR 0x22 # CHR '':'' # snd f @ rest"
    by (simp add: json_quote_def)
  have key: "jstring (json_chars (fst f) @ CHR 0x22 # CHR '':'' # snd f @ rest) = Some (fst f, CHR '':'' # snd f @ rest)"
    using assms(1) by (intro jstring_chars) (simp add: member_def)
  have "2 * length (snd f @ rest) + 1 \<le> m" using assms(4) m unfolding q by simp
  with assms(1-3) have val: "jvalue literal m depth (snd f @ rest) = Some (snd e, rest)"
    by (simp add: member_def reads_def)
  obtain v where e: "e = (fst f, v)" using assms(1) by (cases e) (simp add: member_def)
  show ?thesis
    unfolding q m using key val skip_ws_delim [OF assms(2)] unfolding e
    by (cases rest) (auto simp: skip_ws_char is_ws_def)
qed

lemma jmembers_read:
  assumes "list_all2 (member k) fs es" and "fs \<noteq> []" and "distinct (map fst fs)" and "depth + k \<le> maxNestingDepth"
    and "2 * length (join '','' (map memberText fs) @ ''}'' @ rest) + 2 \<le> n"
  shows "jmembers literal n depth (join '','' (map memberText fs) @ ''}'' @ rest) = Some (es, rest)"
  using assms
proof (induction fs arbitrary: es n)
  case (Cons f fs)
  from Cons.prems(1) obtain e es' where es: "es = e # es'" "member k f e" "list_all2 (member k) fs es'"
    by (auto simp: list_all2_Cons1)
  show ?case
  proof (cases "fs = []")
    case True
    then have "join '','' (map memberText (f # fs)) @ ''}'' @ rest = memberText f @ CHR ''}'' # rest" by simp
    with jmembers_step [OF es(2) _ Cons.prems(4), of "CHR ''}'' # rest" n] Cons.prems(5) es True show ?thesis
      by (simp add: delim_def)
  next
    case False
    let ?u = "join '','' (map memberText fs) @ ''}'' @ rest"
    have t: "join '','' (map memberText (f # fs)) @ ''}'' @ rest = memberText f @ CHR '','' # ?u"
      using False by (cases fs) simp_all
    have n: "2 * length (memberText f @ CHR '','' # ?u) + 2 \<le> n" using Cons.prems(5) unfolding t .
    have "jmembers literal (n - 1) depth ?u = Some (es', rest)"
      by (rule Cons.IH [OF es(3) False]) (use Cons.prems n in simp_all)
    moreover have "map_of es' (fst e) = None"
    proof -
      have "map fst es' = map fst fs" using es(3) by (induction rule: list_all2_induct) (simp_all add: member_def)
      with Cons.prems(3) es(2) show ?thesis by (auto simp: map_of_eq_None_iff member_def simp flip: set_map)
    qed
    ultimately show ?thesis
      unfolding t using jmembers_step [OF es(2) _ Cons.prems(4) n] es(1) by (simp add: delim_def)
  qed
qed simp

lemma reads_obj:
  assumes "list_all2 (member k) fs es" and "fs \<noteq> []" and "distinct (map fst fs)"
  shows "reads (Suc k) (json_obj fs) (VMap es)"
proof (rule readsI)
  fix depth rest n
  assume d: "depth + Suc k \<le> maxNestingDepth" and n: "2 * length (json_obj fs @ rest) \<le> n"
  let ?t = "join '','' (map memberText fs) @ ''}'' @ rest"
  have o: "json_obj fs @ rest = CHR ''{'' # ?t" by (simp add: json_obj_def split_def)
  have "jmembers literal n (Suc depth) ?t = Some (es, rest)"
    by (rule jmembers_read [OF assms]) (use d n in \<open>simp_all add: o\<close>)
  moreover obtain u where "?t = CHR 0x22 # u" using assms(2) by (cases fs; cases "tl fs") (auto simp: json_quote_def)
  ultimately show "jvalue literal (Suc n) depth (json_obj fs @ rest) = Some (VMap es, rest)"
    unfolding o using d by (simp add: skip_ws_char is_ws_def)
qed

text \<open>Arrays.\<close>

lemma jelems_step:
  assumes "reads k t v" and "delim rest" and "depth + k \<le> maxNestingDepth" and "2 * length (t @ rest) + 2 \<le> n"
  shows "jelems literal n depth (t @ rest) =
    (case rest of
       [] \<Rightarrow> None
     | d # u \<Rightarrow>
         if d = CHR '']'' then Some ([v], u)
         else if d = CHR '','' then map_option (\<lambda>(vs, r'). (v # vs, r')) (jelems literal (n - 1) depth u)
         else None)"
proof -
  obtain m where m: "n = Suc m" "2 * length (t @ rest) + 1 \<le> m" using assms(4) by (cases n) auto
  with assms(1-3) have "jvalue literal m depth (t @ rest) = Some (v, rest)" by (simp add: reads_def)
  with skip_ws_delim [OF assms(2)] m(1) show ?thesis by (auto split: list.split)
qed

lemma jelems_read:
  assumes "list_all2 (reads k) ts vs" and "ts \<noteq> []" and "depth + k \<le> maxNestingDepth"
    and "2 * length (join '','' ts @ '']'' @ rest) + 2 \<le> n"
  shows "jelems literal n depth (join '','' ts @ '']'' @ rest) = Some (vs, rest)"
  using assms
proof (induction ts arbitrary: vs n)
  case (Cons t ts)
  from Cons.prems(1) obtain v vs' where vs: "vs = v # vs'" "reads k t v" "list_all2 (reads k) ts vs'"
    by (auto simp: list_all2_Cons1)
  show ?case
  proof (cases "ts = []")
    case True
    with jelems_step [OF vs(2) _ Cons.prems(3), of "CHR '']'' # rest" n] Cons.prems(4) vs show ?thesis
      by (simp add: delim_def)
  next
    case False
    let ?u = "join '','' ts @ '']'' @ rest"
    have j: "join '','' (t # ts) @ '']'' @ rest = t @ CHR '','' # ?u" using False by (cases ts) simp_all
    have n: "2 * length (t @ CHR '','' # ?u) + 2 \<le> n" using Cons.prems(4) unfolding j .
    have "jelems literal (n - 1) depth ?u = Some (vs', rest)"
      by (rule Cons.IH [OF vs(3) False]) (use Cons.prems n in simp_all)
    then show ?thesis
      unfolding j using jelems_step [OF vs(2) _ Cons.prems(3) n] vs(1) by (simp add: delim_def)
  qed
qed simp

text \<open>The first character of an element is neither a space nor a closing bracket.\<close>

lemma reads_list:
  assumes "list_all2 (reads k) ts vs" and "ts \<noteq> []" and "hd ts \<noteq> []" and "\<not> is_ws (hd (hd ts))" and "hd (hd ts) \<noteq> CHR '']''"
  shows "reads (Suc k) (json_list ts) (VSeq vs)"
proof (rule readsI)
  fix depth rest n
  assume d: "depth + Suc k \<le> maxNestingDepth" and n: "2 * length (json_list ts @ rest) \<le> n"
  let ?t = "join '','' ts @ '']'' @ rest"
  have o: "json_list ts @ rest = CHR ''['' # ?t" by (simp add: json_list_def)
  have "jelems literal n (Suc depth) ?t = Some (vs, rest)"
    by (rule jelems_read [OF assms(1,2)]) (use d n in \<open>simp_all add: o\<close>)
  moreover obtain u where "?t = hd (hd ts) # u"
    using assms(2,3) by (cases ts; cases "hd ts"; cases "tl ts") auto
  ultimately show "jvalue literal (Suc n) depth (json_list ts @ rest) = Some (VSeq vs, rest)"
    unfolding o using d assms(4,5) by (simp add: skip_ws_char is_ws_def [of "CHR ''[''"])
qed

lemma json_obj_head [simp]: "json_obj fs \<noteq> []" "hd (json_obj fs) = CHR ''{''"
  by (simp_all add: json_obj_def)

lemma unmarshalTo_reads:
  assumes "reads k text v" and "k \<le> maxNestingDepth"
  shows "unmarshalTo d zero text = d v zero"
proof -
  have "jvalue literal (2 * length text + 2) 0 (text @ []) = Some (v, [])"
    by (rule assms(1) [unfolded reads_def, rule_format]) (use assms(2) in \<open>simp_all add: delim_def\<close>)
  then show ?thesis by (simp add: unmarshalTo_def unmarshal_def skip_ws_def)
qed

section \<open>Members that come in the order of the fields\<close>

fun dAll :: "'s field list \<Rightarrow> gval list \<Rightarrow> 's \<Rightarrow> 's option" where
  "dAll [] [] s = Some s"
| "dAll (d # ds) (v # vs) s = (case d v s of None \<Rightarrow> None | Some s' \<Rightarrow> dAll ds vs s')"
| "dAll _ _ s = None"

lemma dMembers_suffix:
  assumes "distinct (map fst fs)" and "list_all (\<lambda>k. fold_name k = k) (map fst fs)" and "fs = us @ ts" and "map fst es = map fst ts"
  shows "dMembers fs es s = dAll (map snd ts) (map snd es) s"
  using assms(3,4)
proof (induction ts arbitrary: us es s)
  case (Cons t ts)
  then obtain v es' where es: "es = (fst t, v) # es'" "map fst es' = map fst ts" by (cases es) auto
  have "(fst t, snd t) \<in> set fs" using Cons.prems(1) by simp
  then have "map_of fs (fst t) = Some (snd t)" by (rule map_of_is_SomeI [OF assms(1)])
  moreover have "fold_name (fst t) = fst t" using assms(2) Cons.prems(1) by (simp add: list_all_iff)
  moreover have "dMembers fs es' s' = dAll (map snd ts) (map snd es') s'" for s'
    by (rule Cons.IH [of "us @ [t]"]) (use Cons.prems es in simp_all)
  ultimately show ?case using es by (simp split: option.split)
qed simp

lemma dMembers_in_order:
  assumes "distinct (map fst fs)" and "list_all (\<lambda>k. fold_name k = k) (map fst fs)" and "map fst es = map fst fs"
  shows "dMembers fs es s = dAll (map snd fs) (map snd es) s"
  by (rule dMembers_suffix [where us = "[]", OF assms(1,2) _ assms(3)]) simp

end
