(* ===== verification/QueueSpec.thy ===== *)
theory QueueSpec
  imports FlowSpec JsonTrip
begin

text \<open>
  The queue over EventMesh carries a task instance as JSON and loses nothing of it on the way, so it
  does with a task what the queue in memory does.
\<close>

section \<open>What a message carries\<close>

definition int64 :: "int \<Rightarrow> bool" where
  "int64 i \<longleftrightarrow> - (2 ^ 63) \<le> i \<and> i < 2 ^ 63"

definition timed :: "'db env \<Rightarrow> time \<Rightarrow> bool" where
  "timed env t \<longleftrightarrow> valid_utf8 (ev_timeText env t) \<and> ev_timeParse env (ev_timeText env t) = Some t"

definition task_carried :: "'db env \<Rightarrow> mWorkflowTask \<Rightarrow> bool" where
  "task_carried env t \<longleftrightarrow> int64 (t_ID t) \<and> int64 (t_Status t) \<and> timed env (t_CreateTime t) \<and> timed env (t_UpdateTime t) \<and>
     list_all valid_utf8 [t_WorkflowID t, t_TaskID t, t_TaskName t, t_TaskType t, t_TaskInputFilter t, t_TaskOutputFilter t,
       t_TaskDefinition t, t_WorkflowInstanceID t]"

definition carried :: "'db env \<Rightarrow> mWorkflowTaskInstance \<Rightarrow> bool" where
  "carried env t \<longleftrightarrow> int64 (ti_ID t) \<and> int64 (ti_Status t) \<and> int64 (ti_RetryTimes t) \<and>
     timed env (ti_CreateTime t) \<and> timed env (ti_UpdateTime t) \<and>
     list_all valid_utf8 [ti_WorkflowInstanceID t, ti_WorkflowID t, ti_TaskID t, ti_TaskInstanceID t, ti_Input t, ti_Order t] \<and>
     (case ti_Task t of None \<Rightarrow> True | Some k \<Rightarrow> task_carried env k)"

text \<open>The fields of a task that are tagged \<open>json:"-"\<close> are not sent.\<close>

definition sent :: "mWorkflowTaskInstance \<Rightarrow> mWorkflowTaskInstance" where
  "sent t = t\<lparr>ti_Task := map_option (\<lambda>k. k\<lparr>t_Actions := [], t_TaskIDs := [], t_ChildTasks := []\<rparr>) (ti_Task t)\<rparr>"

definition taskValues :: "'db env \<Rightarrow> mWorkflowTask \<Rightarrow> (string \<times> gval) list" where
  "taskValues env t =
     [(''id'', VFloat (show_int (t_ID t)) None), (''workflow_id'', VStr (t_WorkflowID t)), (''task_id'', VStr (t_TaskID t)),
      (''task_name'', VStr (t_TaskName t)), (''task_type'', VStr (t_TaskType t)),
      (''task_input_filter'', VStr (t_TaskInputFilter t)), (''task_output_filter'', VStr (t_TaskOutputFilter t)),
      (''task_definition'', VStr (t_TaskDefinition t)), (''status'', VFloat (show_int (t_Status t)) None),
      (''create_time'', VStr (ev_timeText env (t_CreateTime t))), (''update_time'', VStr (ev_timeText env (t_UpdateTime t))),
      (''workflow_instance_id'', VStr (t_WorkflowInstanceID t))]"

definition instanceValues :: "'db env \<Rightarrow> mWorkflowTaskInstance \<Rightarrow> (string \<times> gval) list" where
  "instanceValues env t =
     [(''id'', VFloat (show_int (ti_ID t)) None), (''workflow_instance_id'', VStr (ti_WorkflowInstanceID t)),
      (''workflow_id'', VStr (ti_WorkflowID t)), (''task_id'', VStr (ti_TaskID t)),
      (''task_instance_id'', VStr (ti_TaskInstanceID t)), (''status'', VFloat (show_int (ti_Status t)) None),
      (''input'', VStr (ti_Input t)), (''retry_times'', VFloat (show_int (ti_RetryTimes t)) None),
      (''create_time'', VStr (ev_timeText env (ti_CreateTime t))), (''update_time'', VStr (ev_timeText env (ti_UpdateTime t))),
      (''task'', case ti_Task t of None \<Rightarrow> VNil | Some k \<Rightarrow> VMap (taskValues env k)),
      (''order'', VStr (ti_Order t)), (''is_start'', VBool (ti_IsStart t))]"

lemma valid_names:
  "list_all valid_utf8 [''id'', ''workflow_id'', ''task_id'', ''task_name'', ''task_type'', ''task_input_filter'',
     ''task_output_filter'', ''task_definition'', ''status'', ''create_time'', ''update_time'', ''workflow_instance_id'',
     ''task_instance_id'', ''input'', ''retry_times'', ''task'', ''order'', ''is_start'']"
  by (simp add: valid_ascii)

lemma taskJson_reads:
  assumes "task_carried env t"
  shows "reads 1 (taskJson env t) (VMap (taskValues env t))"
proof -
  have "reads (Suc 0) (taskJson env t) (VMap (taskValues env t))"
    unfolding taskJson_def taskValues_def
    by (rule reads_obj) (use assms valid_names in \<open>auto simp: member_def task_carried_def timed_def intro: reads_intros\<close>)
  then show ?thesis by simp
qed

lemma taskInstanceJson_reads:
  assumes "carried env t"
  shows "reads 2 (taskInstanceJson env t) (VMap (instanceValues env t))"
proof -
  have task: "reads 1 (case ti_Task t of None \<Rightarrow> ''null'' | Some k \<Rightarrow> taskJson env k)
      (case ti_Task t of None \<Rightarrow> VNil | Some k \<Rightarrow> VMap (taskValues env k))"
    using assms taskJson_reads by (auto simp: carried_def intro: reads_up reads_null split: option.split)
  have "reads (Suc 1) (taskInstanceJson env t) (VMap (instanceValues env t))"
    unfolding taskInstanceJson_def instanceValues_def
    by (rule reads_obj)
      (use assms task valid_names in \<open>auto simp: member_def carried_def timed_def intro: reads_intros [THEN reads_up]\<close>)
  then show ?thesis by (simp add: numeral_2_eq_2)
qed

lemma int_field: "int64 i \<Longrightarrow> dInt f (VFloat (show_int i) None) s = Some (f i s)"
  by (simp add: dInt_def int64_def parseInt64_show)

lemma time_field: "timed env t \<Longrightarrow> dText (ev_timeParse env) f (VStr (ev_timeText env t)) s = Some (f t s)"
  by (simp add: dText_def timed_def)

lemma str_field: "dStr f (VStr x) s = Some (f x s)" and bool_field: "dBool g (VBool b) s = Some (g b s)"
  by (simp_all add: dStr_def dBool_def)

lemmas field_reads = int_field time_field str_field bool_field

lemma task_names:
  "distinct (map fst (taskFields env)) \<and> list_all (\<lambda>k. fold_name k = k) (map fst (taskFields env)) \<and>
   map fst (taskValues env t) = map fst (taskFields env)"
proof -
  have n: "map fst (taskFields env) = [''id'', ''workflow_id'', ''task_id'', ''task_name'', ''task_type'', ''task_input_filter'',
     ''task_output_filter'', ''task_definition'', ''status'', ''create_time'', ''update_time'', ''workflow_instance_id'']"
    by (simp add: taskFields_def)
  have "distinct [''id'', ''workflow_id'', ''task_id'', ''task_name'', ''task_type'', ''task_input_filter'',
     ''task_output_filter'', ''task_definition'', ''status'', ''create_time'', ''update_time'', ''workflow_instance_id'']"
    "list_all (\<lambda>k. fold_name k = k) [''id'', ''workflow_id'', ''task_id'', ''task_name'', ''task_type'', ''task_input_filter'',
     ''task_output_filter'', ''task_definition'', ''status'', ''create_time'', ''update_time'', ''workflow_instance_id'']"
    by code_simp+
  then show ?thesis unfolding n by (simp add: taskValues_def)
qed

lemma instance_names:
  "distinct (map fst (taskInstanceFields env)) \<and> list_all (\<lambda>k. fold_name k = k) (map fst (taskInstanceFields env)) \<and>
   map fst (instanceValues env t) = map fst (taskInstanceFields env)"
proof -
  have n: "map fst (taskInstanceFields env) = [''id'', ''workflow_instance_id'', ''workflow_id'', ''task_id'', ''task_instance_id'',
     ''status'', ''input'', ''retry_times'', ''create_time'', ''update_time'', ''task'', ''order'', ''is_start'']"
    by (simp add: taskInstanceFields_def)
  have "distinct [''id'', ''workflow_instance_id'', ''workflow_id'', ''task_id'', ''task_instance_id'',
     ''status'', ''input'', ''retry_times'', ''create_time'', ''update_time'', ''task'', ''order'', ''is_start'']"
    "list_all (\<lambda>k. fold_name k = k) [''id'', ''workflow_instance_id'', ''workflow_id'', ''task_id'', ''task_instance_id'',
     ''status'', ''input'', ''retry_times'', ''create_time'', ''update_time'', ''task'', ''order'', ''is_start'']"
    by code_simp+
  then show ?thesis unfolding n by (simp add: instanceValues_def)
qed

lemma task_decoded:
  assumes "task_carried env t"
  shows "dObj (taskFields env) (VMap (taskValues env t)) zeroTask = Some (t\<lparr>t_Actions := [], t_TaskIDs := [], t_ChildTasks := []\<rparr>)"
proof -
  have "dObj (taskFields env) (VMap (taskValues env t)) zeroTask = dAll (map snd (taskFields env)) (map snd (taskValues env t)) zeroTask"
    using dMembers_in_order [of "taskFields env" "taskValues env t"] task_names [of env t] by (simp add: dObj_def)
  also have "\<dots> = Some (t\<lparr>t_Actions := [], t_TaskIDs := [], t_ChildTasks := []\<rparr>)"
    using assms unfolding task_carried_def by (simp add: taskFields_def taskValues_def field_reads zeroTask_def)
  finally show ?thesis .
qed

lemma instance_decoded:
  assumes "carried env t"
  shows "dObj (taskInstanceFields env) (VMap (instanceValues env t)) zeroTaskInstance = Some (sent t)"
proof -
  have p: "dPtr (dObj (taskFields env)) zeroTask ti_Task (\<lambda>x s. s\<lparr>ti_Task := x\<rparr>)
      (case ti_Task t of None \<Rightarrow> VNil | Some k \<Rightarrow> VMap (taskValues env k)) s = Some (s\<lparr>ti_Task := ti_Task (sent t)\<rparr>)"
    if "ti_Task s = None" for s
  proof (cases "ti_Task t")
    case (Some k)
    with assms have "task_carried env k" by (simp add: carried_def)
    from task_decoded [OF this] Some that show ?thesis by (simp add: dPtr_def sent_def)
  qed (use that in \<open>simp add: dPtr_def sent_def\<close>)
  have "dAll (map snd (taskInstanceFields env)) (map snd (instanceValues env t)) zeroTaskInstance = Some (sent t)"
    using assms unfolding carried_def
    by (simp add: taskInstanceFields_def instanceValues_def field_reads zeroTaskInstance_def p) (simp add: sent_def)
  then show ?thesis
    using dMembers_in_order [of "taskInstanceFields env" "instanceValues env t"] instance_names [of env t] by (simp add: dObj_def)
qed

lemma toWorkflowTask_sent:
  assumes "carried env t" and "sm_Content m = taskInstanceJson env t"
  shows "toWorkflowTask env m = Some (sent t)"
  using unmarshalTo_reads [OF taskInstanceJson_reads [OF assms(1)], of "dObj (taskInstanceFields env)" zeroTaskInstance]
    instance_decoded [OF assms(1)] assms(2) by (simp add: toWorkflowTask_def)

section \<open>Publishing and observing\<close>

text \<open>
  C14: A task goes through EventMesh unharmed. The message a published task instance becomes (strings in
  UTF-8, integers of 64 bits, instants that their text determines) is read back as that very instance,
  less the fields of its task that are not sent; so the subscriber does with it exactly what the
  observer of the queue in memory does with the instance: update the row when it has an identifier,
  insert one otherwise.
\<close>

theorem message_round_trip:
  assumes "carried env t" and "toEventMeshMessage env t w = (Ok m, w')"
  shows "toWorkflowTask env m = Some (sent t) \<and>
    eventMesh_handler env m = bnd (metric (Dec ''task_queue'' (queueSizeOf EventMeshQueue))) (\<lambda>_. inMemory_handle env (Some (sent t)))"
proof -
  have "sm_Content m = taskInstanceJson env t" using assms(2) by (auto simp: toEventMeshMessage_def rt_simps)
  from toWorkflowTask_sent [OF assms(1) this] show ?thesis by (simp add: eventMesh_handler_def inMemory_handle_def)
qed

definition demo_instance :: mWorkflowTaskInstance where
  "demo_instance = zeroTaskInstance\<lparr>ti_WorkflowInstanceID := ''i'', ti_WorkflowID := ''w'', ti_TaskID := ''t'', ti_TaskInstanceID := ''k'',
     ti_Input := ''{}'', ti_Status := TaskInstanceWaitStatus, ti_IsStart := True\<rparr>"

theorem message_round_trip_witness:
  "\<exists>m w'. toEventMeshMessage (demo_env\<lparr>ev_timeParse := \<lambda>s. digits_val 0 s\<rparr>) demo_instance (demo_world demo_tables) = (Ok m, w') \<and>
     toWorkflowTask (demo_env\<lparr>ev_timeParse := \<lambda>s. digits_val 0 s\<rparr>) m = Some demo_instance"
proof -
  let ?env = "demo_env\<lparr>ev_timeParse := \<lambda>s. digits_val 0 s\<rparr>"
  obtain m w' where m: "toEventMeshMessage ?env demo_instance (demo_world demo_tables) = (Ok m, w')"
    by (simp add: toEventMeshMessage_def rt_simps)
  have "timed ?env 0" using show_nat_digits [of 0] by (simp add: timed_def demo_env_def show_nat.simps valid_ascii)
  then have "carried ?env demo_instance"
    by (simp add: carried_def demo_instance_def zeroTaskInstance_def int64_def valid_ascii)
  from message_round_trip [OF this m] m show ?thesis by (auto simp: sent_def demo_instance_def zeroTaskInstance_def)
qed

end
