(* ===== verification/AgentSpec.thy ===== *)
theory AgentSpec
  imports Agent QueueSpec
begin

text \<open>
  The two sides of the A2A protocol together: what the client sends the agent understands and what
  the agent answers the client understands, a submitted task starts the workflow, and a client that
  waits for the agent's answer never gets one.
\<close>

section \<open>The messages are read as they were written\<close>

definition partOk :: "A2ATextPart \<Rightarrow> bool" where
  "partOk p \<longleftrightarrow> valid_utf8 (pt_Type p) \<and> valid_utf8 (pt_Text p)"

definition messageOk :: "A2AMessage \<Rightarrow> bool" where
  "messageOk m \<longleftrightarrow> valid_utf8 (ms_Role m) \<and> list_all partOk (ms_Parts m)"

definition artifactOk :: "A2AArtifact \<Rightarrow> bool" where
  "artifactOk a \<longleftrightarrow> valid_utf8 (af_Name a) \<and> list_all partOk (af_Parts a)"

definition responseOk :: "A2ATaskResponse \<Rightarrow> bool" where
  "responseOk r \<longleftrightarrow> valid_utf8 (ts_ID r) \<and> valid_utf8 (ts_Status r) \<and> messageOk (ts_Message r) \<and>
     list_all artifactOk (ts_Artifacts r) \<and>
     (case ts_Error r of None \<Rightarrow> True | Some e \<Rightarrow> valid_utf8 (ae_Message e) \<and> int64 (ae_Code e))"

definition requestOk :: "A2ATaskRequest \<Rightarrow> bool" where
  "requestOk r \<longleftrightarrow> valid_utf8 (tr_ID r) \<and> messageOk (tr_Message r) \<and>
     list_all (\<lambda>(k, v). valid_utf8 k \<and> valid_utf8 v) (tr_Metadata r) \<and> distinct (map fst (tr_Metadata r))"

lemma a2a_names:
  "list_all valid_utf8 [''type'', ''text'', ''role'', ''parts'', ''name'', ''code'', ''message'', ''id'', ''status'', ''artifacts'',
     ''error'', ''metadata'']"
  by (simp add: valid_ascii)

lemma a2a_folded:
  "fold_name ''type'' = ''type''" "fold_name ''text'' = ''text''" "fold_name ''role'' = ''role''" "fold_name ''parts'' = ''parts''"
  "fold_name ''name'' = ''name''" "fold_name ''code'' = ''code''" "fold_name ''message'' = ''message''" "fold_name ''id'' = ''id''"
  "fold_name ''status'' = ''status''" "fold_name ''artifacts'' = ''artifacts''" "fold_name ''error'' = ''error''"
  "fold_name ''metadata'' = ''metadata''"
  by code_simp+

text \<open>The values that the texts denote.\<close>

definition partValue :: "A2ATextPart \<Rightarrow> gval" where
  "partValue p = VMap [(''type'', VStr (pt_Type p)), (''text'', VStr (pt_Text p))]"

definition partsValue :: "A2ATextPart list \<Rightarrow> gval" where
  "partsValue ps = (if ps = [] then VNil else VSeq (map partValue ps))"

definition messageValue :: "A2AMessage \<Rightarrow> gval" where
  "messageValue m = VMap [(''role'', VStr (ms_Role m)), (''parts'', partsValue (ms_Parts m))]"

lemma reads_more: "reads k text v \<Longrightarrow> k \<le> l \<Longrightarrow> reads l text v"
  unfolding reads_def by (meson add_le_cancel_left le_trans)

lemma part_reads: "partOk p \<Longrightarrow> reads 1 (partJson p) (partValue p)"
  unfolding partJson_def partValue_def One_nat_def
  by (rule reads_obj) (use a2a_names in \<open>auto simp: member_def partOk_def intro: reads_intros\<close>)

text \<open>A list of objects, each of which is read.\<close>

lemma reads_objects:
  assumes "xs \<noteq> []" and "list_all P xs" and "\<And>x. P x \<Longrightarrow> reads k (f x) (g x)" and "\<And>x. \<exists>fs. f x = json_obj fs"
  shows "reads (Suc k) (json_list (map f xs)) (VSeq (map g xs))"
proof (rule reads_list)
  show "list_all2 (reads k) (map f xs) (map g xs)" using assms(2,3) by (induction xs) auto
  obtain fs where "hd (map f xs) = json_obj fs" using assms(1,4) by (metis hd_map)
  then show "hd (map f xs) \<noteq> []" "\<not> is_ws (hd (hd (map f xs)))" "hd (hd (map f xs)) \<noteq> CHR '']''" by (simp_all add: is_ws_def)
qed (use assms(1) in simp)

lemma parts_reads: "list_all partOk ps \<Longrightarrow> reads 2 (partsJson ps) (partsValue ps)"
proof (cases "ps = []")
  case False
  assume ok: "list_all partOk ps"
  have "reads (Suc 1) (json_list (map partJson ps)) (VSeq (map partValue ps))"
    by (rule reads_objects [OF False ok part_reads]) (auto simp: partJson_def)
  with False show ?thesis by (simp add: partsJson_def partsValue_def numeral_2_eq_2)
qed (simp add: partsJson_def partsValue_def reads_up reads_null)

lemma message_reads: "messageOk m \<Longrightarrow> reads 3 (messageJson m) (messageValue m)"
proof -
  assume "messageOk m"
  then have "reads (Suc 2) (messageJson m) (messageValue m)"
    unfolding messageJson_def messageValue_def
    by (intro reads_obj) (use a2a_names parts_reads in \<open>auto simp: member_def messageOk_def intro: reads_intros [THEN reads_up]\<close>)
  then show ?thesis by (simp add: numeral_3_eq_3 numeral_2_eq_2)
qed

definition artifactValue :: "A2AArtifact \<Rightarrow> gval" where
  "artifactValue a = VMap [(''name'', VStr (af_Name a)), (''parts'', partsValue (af_Parts a))]"

definition errorValue :: "A2AError \<Rightarrow> gval" where
  "errorValue e = VMap ((if ae_Code e = 0 then [] else [(''code'', VFloat (show_int (ae_Code e)) None)]) @ [(''message'', VStr (ae_Message e))])"

definition responseValue :: "A2ATaskResponse \<Rightarrow> (string \<times> gval) list" where
  "responseValue r = [(''id'', VStr (ts_ID r)), (''status'', VStr (ts_Status r)), (''message'', messageValue (ts_Message r))]
     @ (if ts_Artifacts r = [] then [] else [(''artifacts'', VSeq (map artifactValue (ts_Artifacts r)))])
     @ (case ts_Error r of None \<Rightarrow> [] | Some e \<Rightarrow> [(''error'', errorValue e)])"

lemma artifact_reads: "artifactOk a \<Longrightarrow> reads 3 (artifactJson a) (artifactValue a)"
proof -
  assume "artifactOk a"
  then have "reads (Suc 2) (artifactJson a) (artifactValue a)"
    unfolding artifactJson_def artifactValue_def
    by (intro reads_obj) (use a2a_names parts_reads in \<open>auto simp: member_def artifactOk_def intro: reads_intros [THEN reads_up]\<close>)
  then show ?thesis by (simp add: numeral_3_eq_3 numeral_2_eq_2)
qed

lemma artifacts_reads:
  "list_all artifactOk as \<Longrightarrow> as \<noteq> [] \<Longrightarrow> reads 4 (json_list (map artifactJson as)) (VSeq (map artifactValue as))"
  using reads_objects [of as artifactOk 3 artifactJson artifactValue] artifact_reads
  by (auto simp: artifactJson_def eval_nat_numeral)

lemma error_reads: "valid_utf8 (ae_Message e) \<Longrightarrow> reads 4 (errorJson e) (errorValue e)"
proof -
  assume ok: "valid_utf8 (ae_Message e)"
  have "reads (Suc 0) (errorJson e) (errorValue e)"
    unfolding errorJson_def errorValue_def
    by (rule reads_obj) (use a2a_names ok in \<open>auto simp: member_def intro: reads_intros\<close>)
  then show ?thesis by (rule reads_more) simp
qed

lemma response_reads:
  assumes "responseOk r"
  shows "reads 5 (responseJson r) (VMap (responseValue r))"
proof -
  note ok = assms [unfolded responseOk_def]
  have m: "reads 4 (messageJson (ts_Message r)) (messageValue (ts_Message r))"
    by (rule reads_more [OF message_reads]) (use ok in simp_all)
  have "reads (Suc 4) (responseJson r) (VMap (responseValue r))"
    unfolding responseJson_def responseValue_def
    by (rule reads_obj)
      (use a2a_names ok m artifacts_reads error_reads in
        \<open>auto simp: member_def intro: reads_intros [THEN reads_up] split: option.split\<close>)
  then show ?thesis by (simp add: eval_nat_numeral)
qed

declare fold_name.simps [simp del]

lemma part_decoded: "dObj partFields (partValue p) zeroPart = Some p"
  by (simp add: dObj_def partValue_def partFields_def a2a_folded str_field zeroPart_def)

lemma parts_decoded: "dList (dObj partFields) zeroPart f (partsValue ps) s = Some (f ps s)"
proof -
  have "those (map (\<lambda>x. dObj partFields x zeroPart) (map partValue ps)) = Some ps" by (induction ps) (simp_all add: part_decoded)
  then show ?thesis by (simp add: dList_def partsValue_def)
qed

lemma message_decoded: "dObj messageFields (messageValue m) zeroMessage = Some m"
  by (simp add: dObj_def messageValue_def messageFields_def a2a_folded str_field parts_decoded zeroMessage_def)

lemma artifact_decoded: "dObj artifactFields (artifactValue a) zeroArtifact = Some a"
  by (simp add: dObj_def artifactValue_def artifactFields_def a2a_folded str_field parts_decoded zeroArtifact_def)

lemma artifacts_decoded: "dList (dObj artifactFields) zeroArtifact f (VSeq (map artifactValue as)) s = Some (f as s)"
proof -
  have "those (map (\<lambda>x. dObj artifactFields x zeroArtifact) (map artifactValue as)) = Some as"
    by (induction as) (simp_all add: artifact_decoded)
  then show ?thesis by (simp add: dList_def)
qed

lemma error_decoded: "int64 (ae_Code e) \<Longrightarrow> dObj errorFields (errorValue e) zeroError = Some e"
  by (simp add: dObj_def errorValue_def errorFields_def a2a_folded str_field int_field zeroError_def)

lemma error_field:
  "int64 (ae_Code e) \<Longrightarrow> ts_Error s = None \<Longrightarrow>
     dPtr (dObj errorFields) zeroError ts_Error (\<lambda>x s. s\<lparr>ts_Error := x\<rparr>) (errorValue e) s = Some (s\<lparr>ts_Error := Some e\<rparr>)"
  using error_decoded [of e] by (simp add: dPtr_def errorValue_def)

lemma dMembers_append:
  "dMembers fs (es @ es') s = (case dMembers fs es s of None \<Rightarrow> None | Some s' \<Rightarrow> dMembers fs es' s')"
  by (induction fs es s rule: dMembers.induct) (auto split: option.split)

lemma response_decoded:
  assumes "responseOk r"
  shows "dObj responseFields (VMap (responseValue r)) zeroResponse = Some r"
proof -
  have m: "dSub (dObj messageFields) ts_Message (\<lambda>x s. s\<lparr>ts_Message := x\<rparr>) (messageValue (ts_Message r)) s
      = Some (s\<lparr>ts_Message := ts_Message r\<rparr>)" if "ts_Message s = zeroMessage" for s
    using that message_decoded by (simp add: dSub_def)
  have 1: "dMembers responseFields [(''id'', VStr (ts_ID r)), (''status'', VStr (ts_Status r)), (''message'', messageValue (ts_Message r))] zeroResponse
      = Some (zeroResponse\<lparr>ts_ID := ts_ID r, ts_Status := ts_Status r, ts_Message := ts_Message r\<rparr>)"
    by (simp add: responseFields_def a2a_folded str_field zeroResponse_def m)
  have 2: "dMembers responseFields (if ts_Artifacts r = [] then [] else [(''artifacts'', VSeq (map artifactValue (ts_Artifacts r)))]) s
      = Some (if ts_Artifacts r = [] then s else s\<lparr>ts_Artifacts := ts_Artifacts r\<rparr>)" for s
    by (simp add: responseFields_def a2a_folded artifacts_decoded)
  have 3: "dMembers responseFields (case ts_Error r of None \<Rightarrow> [] | Some e \<Rightarrow> [(''error'', errorValue e)]) s
      = Some (s\<lparr>ts_Error := ts_Error r\<rparr>)" if "ts_Error s = None" for s
    using assms that by (cases "ts_Error r") (simp_all add: responseOk_def responseFields_def a2a_folded error_field)
  have "dMembers responseFields (responseValue r) zeroResponse = Some r"
    unfolding responseValue_def dMembers_append 1 2 option.case by (subst 3) (simp_all add: zeroResponse_def)
  then show ?thesis by (simp add: dObj_def)
qed

lemma response_round_trip: "responseOk r \<Longrightarrow> decodeResponse (Inr (responseJson r)) = Inr r"
  using unmarshalTo_reads [OF response_reads, of r "dObj responseFields" zeroResponse] response_decoded [of r]
  by (simp add: decodeResponse_def)

text \<open>Requests; the metadata come back in the order of their keys.\<close>

definition requestValue :: "A2ATaskRequest \<Rightarrow> (string \<times> gval) list" where
  "requestValue r = [(''id'', VStr (tr_ID r)), (''message'', messageValue (tr_Message r))]
     @ (if tr_Metadata r = [] then []
        else [(''metadata'', VMap (map (\<lambda>(k, v). (k, VStr v)) (sort_key fst (tr_Metadata r))))])"

lemma distinct_sorted: "distinct (map fst (sort_key fst (xs :: (string \<times> 'a) list))) \<longleftrightarrow> distinct (map fst xs)"
  by (rule mset_eq_imp_distinct_iff) simp

lemma metadata_reads:
  assumes "list_all (\<lambda>(k, v). valid_utf8 k \<and> valid_utf8 v) md" and "distinct (map fst md)" and "md \<noteq> []"
  shows "reads 1 (json_obj (map (\<lambda>(k, v). (k, json_quote v)) md)) (VMap (map (\<lambda>(k, v). (k, VStr v)) md))"
  unfolding One_nat_def
proof (rule reads_obj)
  show "list_all2 (member 0) (map (\<lambda>(k, v). (k, json_quote v)) md) (map (\<lambda>(k, v). (k, VStr v)) md)"
    using assms(1) by (induction md) (auto simp: member_def intro: reads_intros)
  show "distinct (map fst (map (\<lambda>(k, v). (k, json_quote v)) md))" using assms(2) by (simp add: comp_def case_prod_beta)
qed (use assms(3) in simp)

lemma request_reads:
  assumes "requestOk r"
  shows "reads 4 (requestJson r) (VMap (requestValue r))"
proof -
  let ?md = "sort_key fst (tr_Metadata r)"
  note ok = assms [unfolded requestOk_def]
  have md: "reads 3 (json_obj (map (\<lambda>(k, v). (k, json_quote v)) ?md)) (VMap (map (\<lambda>(k, v). (k, VStr v)) ?md))" if "tr_Metadata r \<noteq> []"
  proof (rule reads_more [OF metadata_reads])
    show "?md \<noteq> []" using that by (metis length_0_conv length_sort)
  qed (use ok in \<open>simp_all add: list_all_iff distinct_sorted\<close>)
  have "reads (Suc 3) (requestJson r) (VMap (requestValue r))"
    unfolding requestJson_def requestValue_def
    by (rule reads_obj)
      (use a2a_names ok md message_reads in \<open>auto simp: member_def intro: reads_intros [THEN reads_up]\<close>)
  then show ?thesis by (simp add: eval_nat_numeral)
qed

lemma metadata_decoded: "dMetadata (VMap (map (\<lambda>(k, v). (k, VStr v)) md)) s = Some (s\<lparr>tr_Metadata := md\<rparr>)"
proof -
  have "dStrings (map (\<lambda>(k, v). (k, VStr v)) md) = Some md" by (induction md) auto
  then show ?thesis by (simp add: dMetadata_def)
qed

lemma request_decoded:
  "dObj requestFields (VMap (requestValue r)) zeroRequest = Some (r\<lparr>tr_Metadata := sort_key fst (tr_Metadata r)\<rparr>)"
proof -
  have m: "dSub (dObj messageFields) tr_Message (\<lambda>x s. s\<lparr>tr_Message := x\<rparr>) (messageValue (tr_Message r)) s
      = Some (s\<lparr>tr_Message := tr_Message r\<rparr>)" if "tr_Message s = zeroMessage" for s
    using that message_decoded by (simp add: dSub_def)
  have 1: "dMembers requestFields [(''id'', VStr (tr_ID r)), (''message'', messageValue (tr_Message r))] zeroRequest
      = Some (zeroRequest\<lparr>tr_ID := tr_ID r, tr_Message := tr_Message r\<rparr>)"
    by (simp add: requestFields_def a2a_folded str_field zeroRequest_def m)
  have 2: "dMembers requestFields (if tr_Metadata r = [] then [] else
        [(''metadata'', VMap (map (\<lambda>(k, v). (k, VStr v)) (sort_key fst (tr_Metadata r))))]) s
      = Some (if tr_Metadata r = [] then s else s\<lparr>tr_Metadata := sort_key fst (tr_Metadata r)\<rparr>)" for s
    by (simp add: requestFields_def a2a_folded metadata_decoded)
  have "dMembers requestFields (requestValue r) zeroRequest = Some (r\<lparr>tr_Metadata := sort_key fst (tr_Metadata r)\<rparr>)"
    unfolding requestValue_def dMembers_append 1 2 option.case by (simp add: zeroRequest_def)
  then show ?thesis by (simp add: dObj_def)
qed

lemma decodeFirst_reads:
  assumes "reads k text0 v" and "k \<le> maxNestingDepth"
  shows "decodeFirst d zero text0 = d v zero"
proof -
  have "jvalue literal (2 * length text0 + 2) 0 (text0 @ []) = Some (v, [])"
    by (rule assms(1) [unfolded reads_def, rule_format]) (use assms(2) in \<open>simp_all add: delim_def\<close>)
  then show ?thesis by (simp add: decodeFirst_def)
qed

lemma request_round_trip:
  "requestOk r \<Longrightarrow> decodeFirst (dObj requestFields) zeroRequest (requestJson r) = Some (r\<lparr>tr_Metadata := sort_key fst (tr_Metadata r)\<rparr>)"
  using decodeFirst_reads [OF request_reads, of r "dObj requestFields" zeroRequest] request_decoded [of r] by simp

section \<open>Submitting and asking\<close>

lemma firstText_ok: "list_all partOk ps \<Longrightarrow> valid_utf8 (firstText ps)"
  by (induction ps) (auto simp: partOk_def)

lemma responses_ok:
  "valid_utf8 taskID \<Longrightarrow> valid_utf8 text0 \<Longrightarrow> responseOk (workingResponse taskID text0)"
  by (simp add: responseOk_def workingResponse_def zeroResponse_def messageOk_def partOk_def valid_ascii)

lemma valid_prefix: "(\<forall>c\<in>set xs. (of_char c :: nat) < 0x80) \<Longrightarrow> valid_utf8 s \<Longrightarrow> valid_utf8 (xs @ s)"
  by (induction xs) (simp_all add: valid_utf8_ascii)

text \<open>Which handler a request of the client reaches.\<close>

lemma routed_submit: "muxMatch RegisterRoutes ''/a2a/tasks'' = Some RSubmit"
  by (simp add: muxMatch_def RegisterRoutes_def)

lemma routed_status: "taskID \<noteq> [] \<Longrightarrow> muxMatch RegisterRoutes (''/a2a/tasks/'' @ taskID) = Some RStatus"
  by (simp add: muxMatch_def RegisterRoutes_def)

lemma status_known:
  assumes "map_of (wa_taskToWorkflow wa) taskID = Some i" and "taskID \<noteq> []"
  shows "handleTaskStatus wa \<lparr>hq_Method = m, hq_Path = ''/a2a/tasks/'' @ taskID, hq_Body = b\<rparr> =
    writeJSON 200 (workingResponse taskID (''Workflow instance: '' @ i))"
  using assms by (simp add: handleTaskStatus_def extractTaskIDFromPath_def Let_def)

lemma status_answer:
  assumes "map_of (wa_taskToWorkflow wa) taskID = Some i" and "taskID \<noteq> []" and "valid_utf8 taskID" and "valid_utf8 i"
    and "r = handleTaskStatus wa \<lparr>hq_Method = m, hq_Path = ''/a2a/tasks/'' @ taskID, hq_Body = b\<rparr>"
  shows "decodeResponse (httpResult path (Inr (hr_Code r, hr_Body r))) = Inr (workingResponse taskID (''Workflow instance: '' @ i))"
proof -
  have "valid_utf8 (''Workflow instance: '' @ i)" by (rule valid_prefix) (use assms(4) in simp_all)
  from response_round_trip [OF responses_ok [OF assms(3) this]] status_known [OF assms(1,2)] assms(5) show ?thesis
    by (simp add: writeJSON_def httpResult_def)
qed

text \<open>The parameter with which an agent starts its workflow.\<close>

definition agentParam :: "workflowAgent \<Rightarrow> A2ATaskRequest \<Rightarrow> workflowParam" where
  "agentParam wa req = \<lparr>p_ID = ac_Name (wa_card wa), p_InstanceID = [], p_TaskInstanceID = [], p_Input = extractTaskInput req\<rparr>"

definition agentTask :: "'db env \<Rightarrow> A2ATaskRequest \<Rightarrow> 'db world \<Rightarrow> string" where
  "agentTask env req w = (if tr_ID req \<noteq> [] then tr_ID req else ev_uuid env (wd_uuids w))"

lemma submit_200:
  assumes "requestOk req" and "hq_Body r = requestJson req" and "handleSubmitTask env decodeErr errText r (wa, w) = (Ok resp, wa', w')"
    and "hr_Code resp = 200"
  obtains i where "Start env (agentParam wa req) (w\<lparr>wd_uuids := Suc (wd_uuids w)\<rparr>) = (Ok i, w')"
    and "resp = writeJSON 200 (workingResponse (agentTask env req w) (''Workflow execution started: '' @ i))"
    and "map_of (wa_taskToWorkflow wa') (agentTask env req w) = Some i"
proof -
  let ?req = "req\<lparr>tr_Metadata := sort_key fst (tr_Metadata req)\<rparr>"
  have dec: "decodeFirst (dObj requestFields) zeroRequest (hq_Body r) = Some ?req"
    unfolding assms(2) by (rule request_round_trip [OF assms(1)])
  have p: "agentParam wa ?req = agentParam wa req" by (simp add: agentParam_def extractTaskInput_def)
  have "startFor env errText ?req (wa, w) = (Ok resp, wa', w')"
    using assms(3,4) dec by (auto simp: handleSubmitTask_def httpError_def writeJSON_def split: if_splits)
  then obtain i where s: "Start env (agentParam wa req) (w\<lparr>wd_uuids := Suc (wd_uuids w)\<rparr>) = (Ok i, w')"
      "resp = writeJSON 200 (workingResponse (agentTask env req w) (''Workflow execution started: '' @ i))"
      "wa' = (if tr_ID req \<noteq> [] then remember (tr_ID req) i (remember (ev_uuid env (wd_uuids w)) i wa)
        else remember (ev_uuid env (wd_uuids w)) i wa)"
    using assms(4) p unfolding startFor_def agentParam_def [of wa ?req, symmetric]
    by (auto simp: newUUID_def Let_def agentTask_def agentParam_def writeJSON_def split: prod.splits outcome.splits)
  from s(3) have "map_of (wa_taskToWorkflow wa') (agentTask env req w) = Some i"
    by (simp add: remember_def agentTask_def update_conv')
  with s show thesis by (intro that)
qed

lemma started_uuids: "started view param i (w\<lparr>wd_uuids := n\<rparr>) w' \<longleftrightarrow> started view param i w w'"
  by (simp add: started_def)

text \<open>A request with text is answered 200 when the workflow can be started.\<close>

lemma submit_starts:
  assumes "requestOk req" and "extractTaskInput req \<noteq> []"
    and "Start env (agentParam wa req) (w\<lparr>wd_uuids := Suc (wd_uuids w)\<rparr>) = (Ok i, w')"
  shows "\<exists>resp wa'. serveAgent env decodeErr errText \<lparr>hq_Method = ''POST'', hq_Path = ''/a2a/tasks'', hq_Body = requestJson req\<rparr> (wa, w)
    = (Ok resp, wa', w') \<and> hr_Code resp = 200"
proof -
  have "extractTaskInput (req\<lparr>tr_Metadata := m\<rparr>) = extractTaskInput req" for m by (simp add: extractTaskInput_def)
  with assms request_round_trip [OF assms(1)] show ?thesis
    by (simp add: serveAgent_def routed_submit handleSubmitTask_def startFor_def newUUID_def agentParam_def writeJSON_def Let_def)
qed

text \<open>
  C36: Client and agent agree on a task. When the agent answers 200 to a request as the client writes it, the
  workflow the agent stands for has been started with the text of the request as input (one instance
  added, its start task in flight); the client reads the answer as a task in progress, under the
  identifier of the request or a fresh one; and asking for that identifier is answered 200 with the
  instance that was started.
\<close>

theorem agent_task_round_trip:
  assumes "memEnv env view" and "requestOk req" and "ac_Name (wa_card wa) \<noteq> []" and "\<forall>n. valid_utf8 (ev_uuid env n) \<and> ev_uuid env n \<noteq> []"
    and "serveAgent env decodeErr errText \<lparr>hq_Method = ''POST'', hq_Path = ''/a2a/tasks'', hq_Body = requestJson req\<rparr> (wa, w)
      = (Ok resp, wa', w')" and "hr_Code resp = 200"
  shows "\<exists>i. started view (agentParam wa req) i w w' \<and>
    decodeResponse (httpResult ''/a2a/tasks'' (Inr (hr_Code resp, hr_Body resp))) =
      Inr (workingResponse (agentTask env req w) (''Workflow execution started: '' @ i)) \<and>
    (\<exists>r. serveAgent env decodeErr errText \<lparr>hq_Method = ''GET'', hq_Path = ''/a2a/tasks/'' @ agentTask env req w, hq_Body = []\<rparr> (wa', w')
       = (Ok r, wa', w') \<and> hr_Code r = 200 \<and>
       decodeResponse (httpResult p (Inr (hr_Code r, hr_Body r))) = Inr (workingResponse (agentTask env req w) (''Workflow instance: '' @ i)))"
proof -
  let ?r = "\<lparr>hq_Method = ''POST'', hq_Path = ''/a2a/tasks'', hq_Body = requestJson req\<rparr>"
  let ?t = "agentTask env req w"
  have "handleSubmitTask env decodeErr errText ?r (wa, w) = (Ok resp, wa', w')"
    using assms(5) routed_submit by (simp add: serveAgent_def)
  from submit_200 [OF assms(2) _ this assms(6)] obtain i where
    i: "Start env (agentParam wa req) (w\<lparr>wd_uuids := Suc (wd_uuids w)\<rparr>) = (Ok i, w')"
      "resp = writeJSON 200 (workingResponse ?t (''Workflow execution started: '' @ i))" "map_of (wa_taskToWorkflow wa') ?t = Some i" by auto
  have "p_ID (agentParam wa req) \<noteq> []" using assms(3) by (simp add: agentParam_def)
  from Start_started [OF assms(1) this i(1)] have st: "i = ev_uuid env (Suc (wd_uuids w))" "started view (agentParam wa req) i w w'"
    unfolding started_uuids by (simp, blast)
  have t: "valid_utf8 ?t" "?t \<noteq> []" using assms(2,4) by (auto simp: agentTask_def requestOk_def)
  have vi: "valid_utf8 i" using st(1) assms(4) by simp
  then have "valid_utf8 (''Workflow execution started: '' @ i)" by (intro valid_prefix) simp_all
  from response_round_trip [OF responses_ok [OF t(1) this]] i(2)
  have "decodeResponse (httpResult ''/a2a/tasks'' (Inr (hr_Code resp, hr_Body resp))) =
      Inr (workingResponse ?t (''Workflow execution started: '' @ i))" by (simp add: writeJSON_def httpResult_def)
  moreover have "\<exists>r. serveAgent env decodeErr errText \<lparr>hq_Method = ''GET'', hq_Path = ''/a2a/tasks/'' @ ?t, hq_Body = []\<rparr> (wa', w')
       = (Ok r, wa', w') \<and> hr_Code r = 200 \<and>
       decodeResponse (httpResult p (Inr (hr_Code r, hr_Body r))) = Inr (workingResponse ?t (''Workflow instance: '' @ i))"
    using routed_status [OF t(2)] status_known [OF i(3) t(2)] status_answer [OF i(3) t(2,1) vi refl, of p "''GET''" "[]"]
    by (simp add: serveAgent_def writeJSON_def)
  ultimately show ?thesis using st(2) by blast
qed

definition demo_request :: A2ATaskRequest where
  "demo_request = zeroRequest\<lparr>tr_Message := \<lparr>ms_Role = ''user'', ms_Parts = [\<lparr>pt_Type = ''text'', pt_Text = ''go''\<rparr>]\<rparr>\<rparr>"

lemma demo_request_ok: "requestOk demo_request"
  by (simp add: requestOk_def demo_request_def zeroRequest_def messageOk_def partOk_def valid_ascii)

theorem agent_task_round_trip_witness:
  "\<exists>i w'. started (\<lambda>db. db) (agentParam (NewWorkflowAgent ''w'' ''u'') demo_request) i (demo_world demo_tables) w'"
proof -
  let ?wa = "NewWorkflowAgent ''w'' ''u''" and ?w = "demo_world demo_tables"
  let ?s = "Start demo_env (agentParam ?wa demo_request) (?w\<lparr>wd_uuids := Suc (wd_uuids ?w)\<rparr>)"
  have "is_ok (fst ?s)" by code_simp
  then obtain i w' where s: "?s = (Ok i, w')" by (cases ?s; cases "fst ?s") auto
  have "extractTaskInput demo_request \<noteq> []" by code_simp
  from submit_starts [OF demo_request_ok this s] obtain resp wa' where
    r: "serveAgent demo_env (\<lambda>_. []) (\<lambda>_. []) \<lparr>hq_Method = ''POST'', hq_Path = ''/a2a/tasks'', hq_Body = requestJson demo_request\<rparr> (?wa, ?w)
      = (Ok resp, wa', w')" "hr_Code resp = 200" by blast
  have n: "ac_Name (wa_card ?wa) \<noteq> []" by (simp add: NewWorkflowAgent_def BuildAgentCard_def)
  have u: "\<forall>n. valid_utf8 (ev_uuid demo_env n) \<and> ev_uuid demo_env n \<noteq> []"
    by (auto simp: demo_env_def demo_uuid_def intro!: valid_ascii)
  from agent_task_round_trip [OF demo_memEnv demo_request_ok n u r] show ?thesis by blast
qed

text \<open>
  C37: Waiting for an agent is in vain. Whatever becomes of the workflow instance of a task, the agent answers
  every question about the task with the status of work in progress; so the executor of another
  workflow that calls this agent asks thirty times and then reports a time-out.
\<close>

theorem agent_never_completes:
  assumes "map_of (wa_taskToWorkflow wa) taskID = Some i" and "taskID \<noteq> []" and "valid_utf8 taskID" and "valid_utf8 i"
    and "\<forall>n. \<exists>r. ev_get env n (url @ ''/a2a/tasks/'' @ taskID) = Inr (hr_Code r, hr_Body r) \<and>
      r = handleTaskStatus wa \<lparr>hq_Method = ''GET'', hq_Path = ''/a2a/tasks/'' @ taskID, hq_Body = []\<rparr>"
  shows "fst (pollUntilComplete env (NewA2AExecutor url) taskID w) = Err (A2AFailed (A2ATimedOut taskID 30))"
proof -
  let ?e = "NewA2AExecutor url"
  have e: "ex_maxRetry ?e = 30" "cl_BaseURL (ex_client ?e) = url" by (simp_all add: NewA2AExecutor_def NewA2AClient_def)
  have "verdict taskID (pollAnswer env ?e taskID n) = None" for n
  proof -
    obtain r where r: "ev_get env n (url @ ''/a2a/tasks/'' @ taskID) = Inr (hr_Code r, hr_Body r)"
        "r = handleTaskStatus wa \<lparr>hq_Method = ''GET'', hq_Path = ''/a2a/tasks/'' @ taskID, hq_Body = []\<rparr>" using assms(5) by blast
    from status_answer [OF assms(1-4) r(2)] r(1) e(2) show ?thesis
      by (simp add: pollAnswer_def verdict_def workingResponse_def zeroResponse_def)
  qed
  then have "first_some (\<lambda>k. verdict taskID (pollAnswer env ?e taskID (wd_calls w + k))) [0..<30] = None" by simp
  with pollLoop_verdicts [of env ?e taskID 30 w] e(1) show ?thesis by (simp add: pollUntilComplete_def del: upt_rec_numeral)
qed

theorem agent_never_completes_witness:
  "\<exists>(env :: tables env) (wa :: workflowAgent). fst (pollUntilComplete env (NewA2AExecutor ''u'') ''t'' (demo_world demo_tables)) = Err (A2AFailed (A2ATimedOut ''t'' 30)) \<and>
     map_of (wa_taskToWorkflow wa) ''t'' = Some ''i''"
proof -
  let ?wa = "remember ''t'' ''i'' (NewWorkflowAgent ''w'' ''u'')"
  let ?r = "handleTaskStatus ?wa \<lparr>hq_Method = ''GET'', hq_Path = ''/a2a/tasks/'' @ ''t'', hq_Body = []\<rparr>"
  let ?env = "demo_env\<lparr>ev_get := \<lambda>_ _. Inr (hr_Code ?r, hr_Body ?r)\<rparr>"
  have m: "map_of (wa_taskToWorkflow ?wa) ''t'' = Some ''i''" by (simp add: remember_def NewWorkflowAgent_def)
  have "valid_utf8 ''t''" "valid_utf8 ''i''" by (simp_all add: valid_ascii)
  from agent_never_completes [OF m _ this, of ?env "''u''" "demo_world demo_tables"]
  have "fst (pollUntilComplete ?env (NewA2AExecutor ''u'') ''t'' (demo_world demo_tables)) = Err (A2AFailed (A2ATimedOut ''t'' 30))" by simp
  with m show ?thesis by blast
qed

end
