(* ===== verification/Controller.thy ===== *)
theory Controller
  imports FlowSpec
begin

text \<open>
  The HTTP controller, \<open>cmd/controller\<close>: the requests and responses, the six handlers, the
  cross-origin middleware and the routes. gin is not part of the sources: what \<open>ShouldBind\<close> makes of a
  request is an argument of the handler (an error text or the bound struct), and the record \<open>gin\<close> has its router, which
  finds the route of a method and a path together with the value of the path parameter, or tells it to add or drop a
  trailing slash, its recovery middleware, and the handler of the generated documentation, which is a package outside the sources
  that serves pages. An answer is a status and a payload; the payload of an error is the error itself, of which the code
  sends the text.
\<close>

section \<open>Requests and responses\<close>

record saveWorkflowRequest =
  sw_Workflow :: mWorkflow

record queryWorkflowsRequest =
  qw_WorkflowID :: string
  qw_Status :: int
  qw_Page :: int
  qw_Size :: int

record queryWorkflowInstancesRequest =
  qi_WorkflowID :: string
  qi_Page :: int
  qi_Size :: int

record startWorkflowRequest =
  st_WorkflowID :: string
  st_Input :: string

record startWorkflowResponse =
  sr_InstanceID :: string

record queryWorkflowsResponse =
  qr_Workflows :: "mWorkflow list"
  qr_Total :: int

record queryWorkflowResponse =
  qd_Workflow :: mWorkflow

record queryWorkflowInstancesResponse =
  ir_WorkflowInstances :: "mWorkflowInstance list"
  ir_Total :: int

datatype payload =
    NilBody
  | BindText string
  | ErrorText run_error
  | WorkflowsBody queryWorkflowsResponse
  | WorkflowBody queryWorkflowResponse
  | InstancesBody queryWorkflowInstancesResponse
  | StartBody startWorkflowResponse
  | PlainText string

type_synonym response = "int \<times> payload"

abbreviation (input) StatusOK :: int where "StatusOK \<equiv> 200"
abbreviation (input) StatusNoContent :: int where "StatusNoContent \<equiv> 204"
abbreviation (input) StatusBadRequest :: int where "StatusBadRequest \<equiv> 400"
abbreviation (input) StatusMovedPermanently :: int where "StatusMovedPermanently \<equiv> 301"
abbreviation (input) StatusTemporaryRedirect :: int where "StatusTemporaryRedirect \<equiv> 307"
abbreviation (input) StatusNotFound :: int where "StatusNotFound \<equiv> 404"
abbreviation (input) StatusInternalServerError :: int where "StatusInternalServerError \<equiv> 500"

section \<open>Handlers\<close>

text \<open>A request that does not bind is answered at once.\<close>

definition shouldBind :: "string + 'q \<Rightarrow> ('q \<Rightarrow> ('db, response) rt) \<Rightarrow> ('db, response) rt" where
  "shouldBind bound k = (case bound of Inl e \<Rightarrow> ret (StatusBadRequest, BindText e) | Inr request \<Rightarrow> k request)"

text \<open>The error of a call is answered with status 500, its value with status 200.\<close>

definition answer :: "('db, 'a) rt \<Rightarrow> ('a \<Rightarrow> payload) \<Rightarrow> ('db, response) rt" where
  "answer call body w =
     (case call w of
        (Ok x, w') \<Rightarrow> (Ok (StatusOK, body x), w')
      | (Err e, w') \<Rightarrow> (Ok (StatusInternalServerError, ErrorText e), w')
      | (Panic s, w') \<Rightarrow> (Panic s, w'))"

text \<open>
  \<open>Save\<close> and \<open>Delete\<close> of the data access layer in the world. A save sets aside one identifier per task of
  the text; those that it does not use are never used again.
\<close>

definition saveIdentifiers :: "(string \<Rightarrow> string + gomap) \<Rightarrow> mWorkflow \<Rightarrow> nat" where
  "saveIdentifiers yaml record =
     (case Parse yaml (w_Definition record) of Inr (Some flow) \<Rightarrow> length (FlattenTasks flow) | _ \<Rightarrow> 0)"

definition saveWorkflow :: "'db env \<Rightarrow> (string \<Rightarrow> string + gomap) \<Rightarrow> mWorkflow \<Rightarrow> ('db, unit) rt" where
  "saveWorkflow env yaml record =
     bnd (timeNow env) (\<lambda>now w.
       dalRun (Save (ev_sched env) yaml (ev_uuid env) (wd_uuids w) (ev_store env) now record)
         (w\<lparr>wd_uuids := wd_uuids w + saveIdentifiers yaml record\<rparr>))"

definition deleteWorkflow :: "'db env \<Rightarrow> string \<Rightarrow> ('db, unit) rt" where
  "deleteWorkflow env workflowID =
     bnd (timeNow env) (\<lambda>now. dalRun (Delete (ev_sched env) (ev_store env) now workflowID))"

text \<open>A read that returns rows, a total and an error.\<close>

definition readRows :: "('db \<Rightarrow> ('r list \<times> int \<times> dal_error option) \<times> queryParam) \<Rightarrow> ('db, 'r list \<times> int) rt" where
  "readRows f = dalRead (\<lambda>db. case f db of
     ((res, cnt, err), _) \<Rightarrow> (case err of Some e \<Rightarrow> Inl e | None \<Rightarrow> Inr (res, cnt)))"

definition WorkflowController_Save :: "'db env \<Rightarrow> (string \<Rightarrow> string + gomap) \<Rightarrow>
    string + saveWorkflowRequest \<Rightarrow> ('db, response) rt" where
  "WorkflowController_Save env yaml bound =
     shouldBind bound (\<lambda>request. answer (saveWorkflow env yaml (sw_Workflow request)) (\<lambda>_. NilBody))"

definition WorkflowController_QueryList :: "'db env \<Rightarrow> string + queryWorkflowsRequest \<Rightarrow> ('db, response) rt" where
  "WorkflowController_QueryList env bound =
     shouldBind bound (\<lambda>request.
       answer (readRows (SelectList (ev_sched env) (ev_store env)
                 \<lparr>q_WorkflowID = qw_WorkflowID request, q_Status = qw_Status request,
                   q_Page = qw_Page request, q_Size = qw_Size request\<rparr>))
         (\<lambda>(res, cnt). WorkflowsBody \<lparr>qr_Workflows = res, qr_Total = cnt\<rparr>))"

definition WorkflowController_QueryDetail :: "'db env \<Rightarrow> string \<Rightarrow> ('db, response) rt" where
  "WorkflowController_QueryDetail env workflowID =
     answer (dalRead (Select (ev_store env) workflowID))
       (\<lambda>res. case res of None \<Rightarrow> NilBody | Some r \<Rightarrow> WorkflowBody \<lparr>qd_Workflow = r\<rparr>)"

definition WorkflowController_Delete :: "'db env \<Rightarrow> string \<Rightarrow> ('db, response) rt" where
  "WorkflowController_Delete env workflowID = answer (deleteWorkflow env workflowID) (\<lambda>_. NilBody)"

definition startParam :: "startWorkflowRequest \<Rightarrow> workflowParam" where
  "startParam request = \<lparr>p_ID = st_WorkflowID request, p_InstanceID = [], p_TaskInstanceID = [], p_Input = st_Input request\<rparr>"

definition WorkflowController_Start :: "'db env \<Rightarrow> string + startWorkflowRequest \<Rightarrow> ('db, response) rt" where
  "WorkflowController_Start env bound =
     shouldBind bound (\<lambda>request.
       answer (Start env (startParam request)) (\<lambda>instanceID. StartBody \<lparr>sr_InstanceID = instanceID\<rparr>))"

definition WorkflowController_QueryInstances :: "'db env \<Rightarrow> string + queryWorkflowInstancesRequest \<Rightarrow> ('db, response) rt" where
  "WorkflowController_QueryInstances env bound =
     shouldBind bound (\<lambda>request.
       answer (readRows (SelectInstances (ev_store env)
                 \<lparr>q_WorkflowID = qi_WorkflowID request, q_Status = 0, q_Page = qi_Page request, q_Size = qi_Size request\<rparr>))
         (\<lambda>(res, cnt). InstancesBody \<lparr>ir_WorkflowInstances = res, ir_Total = cnt\<rparr>))"

section \<open>Routes and middleware\<close>

datatype route = RSwagger | RSave | RQueryList | RQueryDetail | RDelete | RQueryInstances | RStart

definition swagger :: "(string \<times> string \<times> route) list" where
  "swagger = [(''GET'', ''/swagger/*any'', RSwagger)]"

definition router :: "(string \<times> string \<times> route) list" where
  "router =
     [(''POST'', ''/workflow'', RSave),
      (''GET'', ''/workflow'', RQueryList),
      (''GET'', ''/workflow/:workflowId'', RQueryDetail),
      (''DELETE'', ''/workflow/:workflowId'', RDelete),
      (''GET'', ''/workflow/instances'', RQueryInstances),
      (''POST'', ''/workflow/start'', RStart)]"

text \<open>What the body or the query of a request binds to, for each handler that binds one.\<close>

record boundRequest =
  br_Save :: "string + saveWorkflowRequest"
  br_List :: "string + queryWorkflowsRequest"
  br_Instances :: "string + queryWorkflowInstancesRequest"
  br_Start :: "string + startWorkflowRequest"

record httpRequest =
  hr_Method :: string
  hr_Path :: string
  hr_Origin :: string
  hr_Bound :: boundRequest

text \<open>\<open>docs\<close> is the handler of the documentation: what it serves under a path.\<close>

fun runRoute :: "'db env \<Rightarrow> (string \<Rightarrow> string + gomap) \<Rightarrow> (string \<Rightarrow> response) \<Rightarrow> boundRequest \<Rightarrow> string \<Rightarrow> route \<Rightarrow>
    ('db, response) rt" where
  "runRoute env yaml docs b param RSwagger = ret (docs param)"
| "runRoute env yaml docs b param RSave = WorkflowController_Save env yaml (br_Save b)"
| "runRoute env yaml docs b param RQueryList = WorkflowController_QueryList env (br_List b)"
| "runRoute env yaml docs b param RQueryDetail = WorkflowController_QueryDetail env param"
| "runRoute env yaml docs b param RDelete = WorkflowController_Delete env param"
| "runRoute env yaml docs b param RQueryInstances = WorkflowController_QueryInstances env (br_Instances b)"
| "runRoute env yaml docs b param RStart = WorkflowController_Start env (br_Start b)"

definition corsHeaders :: "string \<Rightarrow> (string \<times> string) list" where
  "corsHeaders origin =
     (if origin \<noteq> []
      then [(''Access-Control-Allow-Origin'', ''*''),
            (''Access-Control-Allow-Methods'', ''POST, GET, OPTIONS, PUT, DELETE, UPDATE''),
            (''Access-Control-Allow-Headers'', ''Origin, X-Requested-With, Content-Type, Accept, '' @ ''Authorization''),
            (''Access-Control-Expose-Headers'', ''Content-Length, Access-Control-Allow-Origin, '' @
               ''Access-Control-Allow-Headers, Cache-Control, Content-Language, Content-Type''),
            (''Access-Control-Allow-Credentials'', ''true'')]
      else [])"

text \<open>An aborted request runs no further handler.\<close>

definition cors :: "httpRequest \<Rightarrow> ('db, response) rt \<Rightarrow> ('db, (string \<times> string) list \<times> response) rt" where
  "cors req next =
     (let headers = corsHeaders (hr_Origin req) in
      if hr_Method req = ''OPTIONS'' then ret (headers, StatusNoContent, NilBody)
      else bnd next (\<lambda>res. ret (headers, res)))"

text \<open>
  What the controller uses of gin: the router, the redirection of a path that has a route but for its trailing slash, the recovery
  middleware, the handler of the documentation and the answer to a request that has no route. A redirection is
  the router's own answer, which no middleware sees; a request without a route passes through the middleware.
\<close>

datatype muxResult = Routed route string | RedirectSlash | Unrouted

record 'db gin =
  gn_mux :: "(string \<times> string \<times> route) list \<Rightarrow> string \<Rightarrow> string \<Rightarrow> muxResult"
  gn_Redirect :: "string \<Rightarrow> string \<Rightarrow> (string \<times> string) list \<times> response"
  gn_Recovery :: "('db, response) rt \<Rightarrow> ('db, response) rt"
  gn_Swagger :: "string \<Rightarrow> response"
  gn_NoRoute :: response

definition serveController :: "'db env \<Rightarrow> (string \<Rightarrow> string + gomap) \<Rightarrow> 'db gin \<Rightarrow>
    httpRequest \<Rightarrow> ('db, (string \<times> string) list \<times> response) rt" where
  "serveController env yaml gin req =
     (case gn_mux gin (swagger @ router) (hr_Method req) (hr_Path req) of
        RedirectSlash \<Rightarrow> ret (gn_Redirect gin (hr_Method req) (hr_Path req))
      | Unrouted \<Rightarrow> cors req (gn_Recovery gin (ret (gn_NoRoute gin)))
      | Routed route param \<Rightarrow>
          cors req (gn_Recovery gin (runRoute env yaml (gn_Swagger gin) (hr_Bound req) param route)))"

end
