(* ===== verification/ControllerSpec.thy ===== *)
theory ControllerSpec
  imports Controller
begin

text \<open>
  What a client of the controller sees: a workflow that was saved can be read back and started, a
  deleted one is gone, and no request gets around the guards of the handlers.
\<close>

section \<open>Answers\<close>

lemma shouldBind_simps [simp]:
  "shouldBind (Inl e) k = ret (StatusBadRequest, BindText e)" "shouldBind (Inr q) k = k q"
  by (simp_all add: shouldBind_def)

lemma answer_OkE:
  assumes "answer call body w = (Ok (StatusOK, b), w')"
  obtains x where "call w = (Ok x, w')" and "b = body x"
  using assms by (auto simp: answer_def split: prod.splits outcome.splits)

lemma answer_Ok: "call w = (Ok x, w') \<Longrightarrow> answer call body w = (Ok (StatusOK, body x), w')"
  by (simp add: answer_def)

lemma answer_Err: "fst (call w) = Err e \<Longrightarrow> answer call body w = (Ok (StatusInternalServerError, ErrorText e), snd (call w))"
  by (cases "call w") (simp add: answer_def)

lemma keeps_answer [keeps_intros]: "keeps f call \<Longrightarrow> keeps f (answer call body)"
  by (simp add: keeps_def answer_def split: prod.split outcome.split) (metis snd_conv)

lemma keeps_readRows [keeps_intros]: "keeps f (readRows g)"
  by (simp add: readRows_def keeps_dalRead)

lemma keeps_shouldBind [keeps_intros]: "(\<And>q. keeps f (k q)) \<Longrightarrow> keeps f (shouldBind b k)"
  by (cases b) (auto intro: keeps_intros)

lemma saveWorkflow_OkE:
  assumes "saveWorkflow env yaml record w = (Ok x, w')"
  obtains now where "Save (ev_sched env) yaml (ev_uuid env) (wd_uuids w) (ev_store env) now record (wd_db w) = (Ok (), wd_db w')"
    and "wd_metrics w' = wd_metrics w" and "wd_queue w' = wd_queue w"
  using assms by (auto simp: saveWorkflow_def timeNow_def bnd_apply dalRun_def split: prod.splits outcome.splits)

lemma deleteWorkflow_apply:
  assumes "delete_all (ev_sched env) (ev_store env) (ev_clock env (wd_ticks w)) i (wd_db w) = (Ok (), db')"
  shows "deleteWorkflow env i w = (Ok (), w\<lparr>wd_ticks := Suc (wd_ticks w), wd_db := db'\<rparr>)"
  using assms by (simp add: deleteWorkflow_def timeNow_def bnd_apply dalRun_def Delete_def)

lemma saveWorkflow_apply:
  assumes "Save (ev_sched env) yaml (ev_uuid env) (wd_uuids w) (ev_store env) (ev_clock env (wd_ticks w)) record (wd_db w)
    = (Ok (), db')"
  shows "saveWorkflow env yaml record w =
    (Ok (), w\<lparr>wd_ticks := Suc (wd_ticks w), wd_uuids := wd_uuids w + saveIdentifiers yaml record, wd_db := db'\<rparr>)"
  using assms by (simp add: saveWorkflow_def timeNow_def bnd_apply dalRun_def)

section \<open>Saved workflows\<close>

context gorm_store
begin

lemma Select_Some:
  assumes "Select G i db = Inr (Some r)" and "i \<noteq> []"
  shows "r\<lparr>w_ID := 0\<rparr> \<in># lv_workflow (live (view db) i)"
proof -
  from assms(1) have "find (ro_match workflowRow (zeroWorkflow\<lparr>w_WorkflowID := i, w_Status := NormalStatus\<rparr>))
      (tb_workflow (view db)) = Some r"
    by (intro wfT.first_ok) (auto simp: Select_def maybe_def split: sum.splits gerr.splits)
  then have "r \<in> set (tb_workflow (view db))" "w_Status r = NormalStatus" "w_WorkflowID r = i"
    using assms(2) by (auto simp: find_Some_iff workflowRow_def agrees_def zero_defs)
  then show ?thesis by (auto simp: live_def in_bag workflowRow_def)
qed

end

context gorm_reliable
begin

lemma Select_single:
  assumes "lv_workflow (live (view db) i) = {#x#}" and "i \<noteq> []"
  obtains r where "Select G i db = Inr (Some r)" and "r\<lparr>w_ID := 0\<rparr> = x"
proof -
  from Select_total [OF assms(2), of db] assms(1) obtain r where r: "Select G i db = Inr (Some r)"
    by (auto split: sum.splits option.splits)
  from that [OF r] Select_Some [OF r assms(2)] assms(1) show thesis by simp
qed

lemma Select_gone:
  assumes "lv_workflow (live (view db) i) = {#}" and "i \<noteq> []"
  shows "Select G i db = Inr None"
  using Select_total [OF assms(2), of db] assms(1) by (auto split: sum.splits option.splits)

end

text \<open>The task that a start puts in flight is the one that \<open>SelectStartTask\<close> finds.\<close>

lemma Start_queue:
  assumes "memEnv env view" and "Start env param w = (Ok i, w')"
    and "SelectStartTask (ev_store env) (zeroTask\<lparr>t_WorkflowID := p_ID param\<rparr>) (wd_db w) = Inr (Some t)"
  shows "\<exists>tid. wd_queue w' = wd_queue w @ [Some ((newTaskInstance i (p_ID param) (t_TaskID t) tid TaskInstanceWaitStatus
    (p_Input param))\<lparr>ti_IsStart := True\<rparr>)]"
proof -
  from Start_OkE [OF assms(1,2)] obtain t' w1 w2 w3 tid where
    s: "SelectStartTask (ev_store env) (zeroTask\<lparr>t_WorkflowID := p_ID param\<rparr>) (wd_db w) = Inr (Some t')"
    and q: "wd_queue w1 = wd_queue w" "wd_queue w3 = wd_queue w2"
    and ins: "insertInstance env (newInstance (p_ID param) i) w1 = (Ok (), w2)"
    and pub: "queuePublish env [(newTaskInstance i (p_ID param) (t_TaskID t') tid TaskInstanceWaitStatus
           (p_Input param))\<lparr>ti_IsStart := True\<rparr>] w3 = (Ok (), w')" by metis
  from s assms(3) have "t' = t" by simp
  with queuePublish_ok [OF assms(1) pub] q keepsD [OF keeps_dal_ops(1) ins] show ?thesis by auto
qed

text \<open>The same for a workflow without a start task: nothing is put in flight.\<close>

lemma Start_refused:
  assumes "reliableEnv engine view" and "metrics_typed (wd_metrics v)"
    and "SelectStartTask (ev_store engine) (zeroTask\<lparr>t_WorkflowID := p_ID param\<rparr>) (wd_db v) = Inr None"
  shows "fst (Start engine param v) = Err WorkflowNotExists \<and> wd_queue (snd (Start engine param v)) = wd_queue v"
proof -
  obtain p where "metric (Inc ''engine'' ''start_request'') v = (Ok (), v\<lparr>wd_metrics := p\<rparr>)"
    using gauge_ok [OF assms(2)] unfolding Inc_def by blast
  with assms(3) show ?thesis by (simp add: Start_def bnd_apply dalRead_def fail_def)
qed

text \<open>
  C3: The life of a workflow, across the two processes and for both versions of the DSL. On a store that does not fail, once
  the controller has answered a save with 200, asking it for the workflow by the id in the text returns the saved row with
  that very text. If the workflow has a task of the name it gives as its start, the engine, working on the same tables,
  starts it: \<open>Start\<close> returns a fresh instance identifier and one task is in flight, the stored task of that name,
  waiting, with the input of the request. If it has none, the engine refuses to start it and puts nothing in flight;
  this happens only to texts of the older DSL, whose start is not checked.
\<close>

theorem controller_save_then_start:
  assumes G: "gorm_reliable (ev_store env) view" and sch: "sched_ok (ev_sched env)" and u: "uuid_ok (ev_uuid env)"
    and inv: "store_inv (view (wd_db w))"
    and saved: "WorkflowController_Save env yaml (Inr request) w = (Ok (StatusOK, body), w1)"
    and parsed: "Parse yaml (w_Definition (sw_Workflow request)) = Inr (Some flow)"
    and engine: "reliableEnv engine view" "ev_store engine = ev_store env"
    and shared: "wd_db v = wd_db w1" "metrics_typed (wd_metrics v)" and param: "p_ID param = wfID flow"
  shows "\<exists>now r.
    WorkflowController_QueryDetail env (wfID flow) w1 = (Ok (StatusOK, WorkflowBody \<lparr>qd_Workflow = r\<rparr>), w1) \<and>
    r\<lparr>w_ID := 0\<rparr> = workflowRecord now (w_Definition (sw_Workflow request)) flow \<and>
    (if wfStart flow \<in> tName ` set (FlattenTasks flow)
     then \<exists>t\<in>set (buildTask (ev_uuid env) (wd_uuids w) now flow). t_TaskName t = wfStart flow \<and>
       (\<exists>tid v'. Start engine param v = (Ok (ev_uuid engine (wd_uuids v)), v') \<and>
          wd_queue v' = wd_queue v @ [Some ((newTaskInstance (ev_uuid engine (wd_uuids v)) (wfID flow) (t_TaskID t) tid
            TaskInstanceWaitStatus (p_Input param))\<lparr>ti_IsStart := True\<rparr>)])
     else wfLegacy flow \<and> fst (Start engine param v) = Err WorkflowNotExists \<and> wd_queue (snd (Start engine param v)) = wd_queue v)"
proof -
  have mem: "memEnv engine view" using engine(1) by (simp add: reliableEnv_def)
  have st: "gorm_store (ev_store env) view" using memEnv_store [OF mem] engine(2) by simp
  note id = Parse_id [OF parsed]
  obtain now where now: "Save (ev_sched env) yaml (ev_uuid env) (wd_uuids w) (ev_store env) now (sw_Workflow request) (wd_db w)
      = (Ok (), wd_db w1)"
    using saved by (auto simp: WorkflowController_Save_def elim!: answer_OkE saveWorkflow_OkE)
  have "lv_workflow (live (view (wd_db w1)) (wfID flow)) = {#workflowRecord now (w_Definition (sw_Workflow request)) flow#}"
    using gorm_store.Save_live [OF st sch inv now parsed] by (simp add: spec_save_def compiled_def Let_def)
  then obtain r where r: "Select (ev_store env) (wfID flow) (wd_db w1) = Inr (Some r)"
    "r\<lparr>w_ID := 0\<rparr> = workflowRecord now (w_Definition (sw_Workflow request)) flow"
    by (rule gorm_reliable.Select_single [OF G _ id])
  obtain res where res: "SelectStartTask (ev_store env) (zeroTask\<lparr>t_WorkflowID := wfID flow\<rparr>) (wd_db w1) = Inr res"
    using gorm_reliable.SelectStartTask_total [OF G] by blast
  note found = start_task_after_save [OF st sch u inv now parsed res]
  have detail: "WorkflowController_QueryDetail env (wfID flow) w1 = (Ok (StatusOK, WorkflowBody \<lparr>qd_Workflow = r\<rparr>), w1)"
    using r(1) by (simp add: WorkflowController_QueryDetail_def dalRead_def answer_Ok)
  show ?thesis
  proof (cases "wfStart flow \<in> tName ` set (FlattenTasks flow)")
    case True
    with found obtain t where
      t: "t \<in> set (buildTask (ev_uuid env) (wd_uuids w) now flow)" "t_TaskName t = wfStart flow"
        "res = Some (zeroTask\<lparr>t_TaskID := t_TaskID t, t_WorkflowID := wfID flow\<rparr>)" by auto
    from SelectStartTask_edge [OF st id res] t(3) have "startEdges (view (wd_db v)) (p_ID param) \<noteq> []"
      by (auto simp: param shared)
    with Start_result [OF engine(1) shared(2)] id have "fst (Start engine param v) = Ok (ev_uuid engine (wd_uuids v))"
      by (metis param)
    then obtain v' where v': "Start engine param v = (Ok (ev_uuid engine (wd_uuids v)), v')" by (metis prod.collapse)
    from Start_queue [OF mem v'] res t(3) have "\<exists>tid. wd_queue v' = wd_queue v @ [Some ((newTaskInstance (ev_uuid engine (wd_uuids v))
        (wfID flow) (t_TaskID t) tid TaskInstanceWaitStatus (p_Input param))\<lparr>ti_IsStart := True\<rparr>)]"
      by (simp add: param shared engine(2))
    with True detail r(2) t(1,2) v' show ?thesis by auto
  next
    case False
    with found have "res = None" by simp
    with res have "SelectStartTask (ev_store engine) (zeroTask\<lparr>t_WorkflowID := p_ID param\<rparr>) (wd_db v) = Inr None"
      by (simp add: engine(2) param shared(1))
    from Start_refused [OF engine(1) shared(2) this] v1_start_named [OF parsed] False detail r(2) show ?thesis by auto
  qed
qed

lemma demo_reliable: "reliableEnv demo_env (\<lambda>db. db)"
  using demo_memEnv memr.gorm_reliable_axioms by (simp add: reliableEnv_def demo_env_def)

lemma demo_save_answered:
  obtains flow w1 where "Parse demo_yaml (w_Definition demo_record) = Inr (Some flow)" "\<not> wfLegacy flow"
    "WorkflowController_Save demo_env demo_yaml (Inr \<lparr>sw_Workflow = demo_record\<rparr>) (demo_world empty_tables) = (Ok (200, NilBody), w1)"
proof -
  let ?w = "demo_world empty_tables" and ?q = "\<lparr>sw_Workflow = demo_record\<rparr>"
  obtain flow where p: "Parse demo_yaml (w_Definition demo_record) = Inr (Some flow)" "\<not> wfLegacy flow"
    by (rule demo_Parse)
  have e: "ev_store demo_env = mem_gorm" "ev_sched demo_env = (\<lambda>k. rev [0..<k])" "ev_uuid demo_env = demo_uuid"
    "wd_db ?w = empty_tables"
    by (simp_all add: demo_env_def demo_world_def)
  have "fst (Save (\<lambda>k. rev [0..<k]) demo_yaml demo_uuid n mem_gorm now demo_record empty_tables) = Ok ()" for n now
    using memr.Save_result [OF sched_ok_rev, of demo_yaml demo_uuid n now demo_record empty_tables] p(1)
    by (simp add: live_def bag_def empty_tables_def)
  then obtain db' where "Save (ev_sched demo_env) demo_yaml (ev_uuid demo_env) (wd_uuids ?w) (ev_store demo_env)
      (ev_clock demo_env (wd_ticks ?w)) demo_record (wd_db ?w) = (Ok (), db')"
    unfolding e by (metis prod.collapse)
  from saveWorkflow_apply [OF this] p that show thesis by (simp add: WorkflowController_Save_def answer_Ok)
qed

theorem controller_save_then_start_witness:
  "\<exists>w1 i v' param. WorkflowController_Save demo_env demo_yaml (Inr \<lparr>sw_Workflow = demo_record\<rparr>) (demo_world empty_tables) =
      (Ok (200, NilBody), w1) \<and> Start demo_env (param :: workflowParam) (demo_world (wd_db w1)) = (Ok i, v') \<and> length (wd_queue v') = 1"
proof -
  let ?w = "demo_world empty_tables" and ?q = "\<lparr>sw_Workflow = demo_record\<rparr>"
  obtain flow w1 where p: "Parse demo_yaml (w_Definition demo_record) = Inr (Some flow)" "\<not> wfLegacy flow"
    and s: "WorkflowController_Save demo_env demo_yaml (Inr ?q) ?w = (Ok (200, NilBody), w1)"
    by (rule demo_save_answered)
  let ?p = "\<lparr>p_ID = wfID flow, p_InstanceID = [], p_TaskInstanceID = [], p_Input = ''{}''\<rparr>"
  have q: "Parse demo_yaml (w_Definition (sw_Workflow ?q)) = Inr (Some flow)" using p(1) by simp
  have e: "gorm_reliable (ev_store demo_env) (\<lambda>db. db)" "sched_ok (ev_sched demo_env)" "uuid_ok (ev_uuid demo_env)"
    "store_inv (wd_db ?w)" "wd_db (demo_world (wd_db w1)) = wd_db w1" "p_ID ?p = wfID flow"
    using memr.gorm_reliable_axioms sched_ok_rev demo_uuid_ok empty_inv by (simp_all add: demo_env_def demo_world_def)
  from controller_save_then_start [OF e(1-4) s q demo_reliable refl e(5) demo_metrics_typed e(6)]
    v1_start_named [OF p(1)] p(2) obtain i v' x where
    "Start demo_env ?p (demo_world (wd_db w1)) = (Ok i, v')" "wd_queue v' = wd_queue (demo_world (wd_db w1)) @ [x]"
    by auto
  with s show ?thesis by (intro exI conjI) (assumption, assumption, simp add: demo_world_def)
qed

section \<open>Deleted workflows\<close>

lemma SelectInstances_rows:
  assumes "gorm_store G view" and "SelectInstances G param db = ((res, cnt, None), p)"
  shows "\<forall>r\<in>set res. r \<in> set (tb_instance (view db)) \<and> i_WorkflowID r = q_WorkflowID param \<and> i_WorkflowStatus r \<noteq> InvalidStatus"
proof (cases "g_pageInstances G (q_WorkflowID param) (q_Size (clampParam param)) (pageOffset (clampParam param)) db")
  case (Inl e)
  with assms(2) show ?thesis by (auto simp: SelectInstances_def Let_def split: gerr.splits)
next
  case (Inr b)
  with gorm_store.pageInstances_ok [OF assms(1)] assms(2) show ?thesis
    by (cases b) (fastforce simp: SelectInstances_def Let_def)
qed

lemma startEdges_gone:
  assumes "live t i = noRows"
  shows "startEdges t i = []"
proof -
  from assms have "{#r \<in># bag relationRow (tb_relation t). r_Status r = NormalStatus \<and> r_WorkflowID r = i#} = {#}"
    by (simp add: live_def noRows_def)
  then show ?thesis by (auto simp: bag_def startEdges_def filter_mset_eq_conv filter_empty_conv)
qed

text \<open>
  C38: Deleting a workflow. On a store that does not fail the controller answers the request with 200; afterwards asking
  for the workflow returns null, no page of its instances has a row, and the engine, working on the same tables, refuses to
  start it because it does not exist, and puts no task in flight.
\<close>

theorem controller_delete_retires:
  assumes G: "gorm_reliable (ev_store env) view" and sch: "sched_ok (ev_sched env)" and i: "i \<noteq> []"
    and engine: "reliableEnv engine view" "ev_store engine = ev_store env" and param: "p_ID param = i"
  shows "\<exists>w1. WorkflowController_Delete env i w = (Ok (StatusOK, NilBody), w1) \<and>
    WorkflowController_QueryDetail env i w1 = (Ok (StatusOK, NilBody), w1) \<and>
    (\<forall>page size res. fst (WorkflowController_QueryInstances env
        (Inr \<lparr>qi_WorkflowID = i, qi_Page = page, qi_Size = size\<rparr>) w1) = Ok (StatusOK, InstancesBody res) \<longrightarrow>
       ir_WorkflowInstances res = []) \<and>
    (\<forall>v. wd_db v = wd_db w1 \<and> metrics_typed (wd_metrics v) \<longrightarrow>
       fst (Start engine param v) = Err WorkflowNotExists \<and> wd_queue (snd (Start engine param v)) = wd_queue v)"
proof -
  have st: "gorm_store (ev_store env) view"
    using G by (simp add: gorm_reliable_def)
  obtain db' where d: "delete_all (ev_sched env) (ev_store env) (ev_clock env (wd_ticks w)) i (wd_db w) = (Ok (), db')"
    using gorm_reliable.delete_all_total [OF G sch] by blast
  define w1 where "w1 = w\<lparr>wd_ticks := Suc (wd_ticks w), wd_db := db'\<rparr>"
  have del: "WorkflowController_Delete env i w = (Ok (StatusOK, NilBody), w1)"
    using deleteWorkflow_apply [OF d] by (simp add: WorkflowController_Delete_def answer_Ok w1_def)
  have gone: "live (view (wd_db w1)) i = noRows"
    using gorm_store.delete_all_refines [OF st sch d] by (simp add: w1_def spec_delete_def)
  then have "Select (ev_store env) i (wd_db w1) = Inr None"
    by (intro gorm_reliable.Select_gone [OF G _ i]) (simp add: noRows_def)
  then have detail: "WorkflowController_QueryDetail env i w1 = (Ok (StatusOK, NilBody), w1)"
    by (simp add: WorkflowController_QueryDetail_def dalRead_def answer_Ok)
  have start: "fst (Start engine param v) = Err WorkflowNotExists \<and> wd_queue (snd (Start engine param v)) = wd_queue v"
    if "wd_db v = wd_db w1" "metrics_typed (wd_metrics v)" for v
    using Start_result [OF engine(1) that(2), of param] startEdges_gone [OF gone] i that(1) param by auto
  have insts: "ir_WorkflowInstances res = []"
    if q: "fst (WorkflowController_QueryInstances env
        (Inr \<lparr>qi_WorkflowID = i, qi_Page = page, qi_Size = size\<rparr>) w1) = Ok (StatusOK, InstancesBody res)" for page size res
  proof -
    obtain cnt p where s: "SelectInstances (ev_store env) \<lparr>q_WorkflowID = i, q_Status = 0, q_Page = page, q_Size = size\<rparr> (wd_db w1)
        = ((ir_WorkflowInstances res, cnt, None), p)"
      using q by (auto simp: WorkflowController_QueryInstances_def answer_def readRows_def dalRead_def
          split: prod.splits outcome.splits sum.splits option.splits)
    have "view (wd_db w1) = invalidateAll (ev_clock env (wd_ticks w)) i (view (wd_db w))"
      using gorm_store.delete_all_effect [OF st sch d] by (simp add: w1_def)
    with SelectInstances_rows [OF st s] invalidateAll_instances(1) have "r \<notin> set (ir_WorkflowInstances res)" for r
      by fastforce
    then show ?thesis by (cases "ir_WorkflowInstances res") auto
  qed
  show ?thesis using del detail start insts by blast
qed

theorem controller_delete_retires_witness:
  "\<exists>w1. WorkflowController_Delete demo_env ''w'' (demo_world demo_tables) = (Ok (200, NilBody), w1) \<and>
     fst (Start demo_env demo_param (demo_world (wd_db w1))) = Err WorkflowNotExists"
proof -
  have e: "gorm_reliable (ev_store demo_env) (\<lambda>db. db)" "sched_ok (ev_sched demo_env)" "p_ID demo_param = ''w''" "''w'' \<noteq> []"
    using memr.gorm_reliable_axioms sched_ok_rev by (simp_all add: demo_env_def demo_param_def)
  from controller_delete_retires [OF e(1,2,4) demo_reliable refl e(3), of "demo_world demo_tables"] obtain w1 where
    d: "WorkflowController_Delete demo_env ''w'' (demo_world demo_tables) = (Ok (200, NilBody), w1)"
    and n: "\<forall>v. wd_db v = wd_db w1 \<and> metrics_typed (wd_metrics v) \<longrightarrow> fst (Start demo_env demo_param v) = Err WorkflowNotExists"
    by blast
  have "wd_db (demo_world (wd_db w1)) = wd_db w1" by (simp add: demo_world_def)
  with n demo_metrics_typed d show ?thesis by blast
qed

section \<open>Every request\<close>

text \<open>How a handler may end: it panics, or it answers with one of three statuses, and 400 without having done anything.\<close>

definition answered :: "'w \<Rightarrow> ('e, response) outcome \<times> 'w \<Rightarrow> bool" where
  "answered w end = (case end of
     (Ok (status, _), w') \<Rightarrow> status \<in> {200, 400, 500} \<and> (status = 400 \<longrightarrow> w' = w)
   | (Err _, _) \<Rightarrow> False
   | (Panic _, _) \<Rightarrow> True)"

lemma answered_answer: "answered w (answer call body w)"
  by (auto simp: answered_def answer_def split: prod.split outcome.split)

lemma answered_shouldBind: "(\<And>q. answered w (k q w)) \<Longrightarrow> answered w (shouldBind b k w)"
  by (cases b) (simp_all add: answered_def ret_def)

lemmas controller_defs = WorkflowController_Save_def WorkflowController_QueryList_def WorkflowController_QueryDetail_def
  WorkflowController_Delete_def WorkflowController_Start_def WorkflowController_QueryInstances_def

lemma runRoute_answered: "route \<noteq> RSwagger \<Longrightarrow> answered w (runRoute env yaml docs b i route w)"
  by (cases route) (simp_all add: controller_defs answered_shouldBind answered_answer)

text \<open>The routes of \<open>GET\<close> only read.\<close>

lemma runRoute_reads:
  assumes "route \<in> {RSwagger, RQueryList, RQueryDetail, RQueryInstances}"
  shows "keeps f (runRoute env yaml docs b i route)"
  using assms by (auto simp: controller_defs intro!: keeps_intros)

text \<open>The rows in force are the business of saving and deleting alone.\<close>

lemma keeps_live: "keeps wd_db p \<Longrightarrow> keeps (\<lambda>w. live (view (wd_db w))) p"
  by (simp add: keeps_def)

lemma live_instances [simp]: "live (tb_instance_update f t) = live t"
  by (rule ext) (simp add: live_def)

lemma insertInstance_live:
  assumes "gorm_store (ev_store env) view"
  shows "keeps (\<lambda>w. live (view (wd_db w))) (insertInstance env r)"
proof (rule keepsI)
  fix w
  obtain res w' where run: "insertInstance env r w = (res, w')" by force
  show "live (view (wd_db (snd (insertInstance env r w)))) = live (view (wd_db w))"
  proof (cases res)
    case (Ok x)
    with insertInstance_effect [OF assms] run show ?thesis by fastforce
  qed (use run in \<open>auto simp: insertInstance_def InsertInstance_def timeNow_def bnd_apply dalRun_def stmt_def
      split: sum.splits prod.splits outcome.splits\<close>)
qed

lemma Start_live:
  assumes "gorm_store (ev_store env) view"
  shows "keeps (\<lambda>w. live (view (wd_db w))) (Start env param)"
  unfolding Start_def
  by (intro keeps_bnd keeps_option keeps_fail keeps_ret keeps_dalRead insertInstance_live [OF assms]
      keeps_live [OF keeps_metric(1)] keeps_live [OF keeps_steps(1)] keeps_live [OF keeps_queuePublish(1)])

lemma saveWorkflow_inv:
  assumes "gorm_store (ev_store env) view" and "sched_ok (ev_sched env)" and "store_inv (view (wd_db w))"
    and "saveWorkflow env yaml record w = (res, w')"
  shows "store_inv (view (wd_db w')) \<and> (\<not> is_ok res \<longrightarrow> view (wd_db w') = view (wd_db w))"
proof -
  obtain r db' where s: "Save (ev_sched env) yaml (ev_uuid env) (wd_uuids w) (ev_store env) (ev_clock env (wd_ticks w)) record (wd_db w)
      = (r, db')" by force
  from Save_consistent [OF assms(1,2,3) s] assms(4) s show ?thesis
    by (cases r) (auto simp: saveWorkflow_def timeNow_def bnd_apply dalRun_def)
qed

lemma save_route_inv:
  assumes "gorm_store (ev_store env) view" and "sched_ok (ev_sched env)" and "store_inv (view (wd_db w))"
    and "WorkflowController_Save env yaml b w = (res, w')"
  shows "store_inv (view (wd_db w')) \<and> ((\<forall>p. res \<noteq> Ok (StatusOK, p)) \<longrightarrow> view (wd_db w') = view (wd_db w))"
proof (cases b)
  case (Inr q)
  obtain r w2 where r: "saveWorkflow env yaml (sw_Workflow q) w = (r, w2)" by force
  from saveWorkflow_inv [OF assms(1,2,3) r] r assms(4) Inr show ?thesis
    by (cases r) (auto simp: WorkflowController_Save_def answer_def)
qed (use assms in \<open>auto simp: WorkflowController_Save_def ret_def\<close>)

text \<open>
  What gin promises: the router finds a route, or redirects, only under a method something was registered for; a redirection has
  status 301 for \<open>GET\<close> and 307 for the other methods; the recovery middleware answers a panic with
  status 500 and lets everything else through, and a request without a route is answered with status 404.
\<close>

definition recovered :: "('db, response) rt \<Rightarrow> ('db, response) rt" where
  "recovered next w = (case next w of (Panic _, w') \<Rightarrow> (Ok (StatusInternalServerError, NilBody), w') | res \<Rightarrow> res)"

definition gin_ok :: "'db gin \<Rightarrow> bool" where
  "gin_ok gin \<longleftrightarrow>
     (\<forall>table method path route i. gn_mux gin table method path = Routed route i \<longrightarrow> (\<exists>pattern. (method, pattern, route) \<in> set table)) \<and>
     (\<forall>table method path. gn_mux gin table method path = RedirectSlash \<longrightarrow> (\<exists>pattern route. (method, pattern, route) \<in> set table)) \<and>
     (\<forall>method path. fst (snd (gn_Redirect gin method path)) = (if method = ''GET'' then StatusMovedPermanently else StatusTemporaryRedirect)) \<and>
     gn_Recovery gin = recovered \<and> fst (gn_NoRoute gin) = StatusNotFound"

lemma route_inv:
  assumes "gorm_store (ev_store env) view" and "sched_ok (ev_sched env)" and "store_inv (view (wd_db w))"
    and run: "runRoute env yaml docs b i route w = (res, w')" and "route \<noteq> RDelete"
  shows "store_inv (view (wd_db w'))"
proof (cases route)
  case RSave
  with run save_route_inv [OF assms(1-3)] show ?thesis by simp
next
  case RStart
  have "keeps (\<lambda>w. live (view (wd_db w))) (runRoute env yaml docs b i RStart)"
    by (auto simp: controller_defs intro!: keeps_shouldBind keeps_answer Start_live [OF assms(1)])
  with run RStart assms(3) show ?thesis by (auto simp: store_inv_def dest: keepsD)
next
  case RDelete
  with assms(5) show ?thesis by simp
qed (use assms(3) keepsD [OF runRoute_reads [where f = "\<lambda>w. w"] run] in auto)

lemma delete_route_inv:
  assumes "gorm_store (ev_store env) view" and "sched_ok (ev_sched env)" and "store_inv (view (wd_db w))"
    and "WorkflowController_Delete env i w = (Ok (StatusOK, p), w')"
  shows "store_inv (view (wd_db w'))"
proof -
  from assms(4) obtain now where "Delete (ev_sched env) (ev_store env) now i (wd_db w) = (Ok (), wd_db w')"
    by (auto simp: WorkflowController_Delete_def deleteWorkflow_def elim!: answer_OkE stampE)
  then have "live (view (wd_db w')) = spec_delete i (live (view (wd_db w)))"
    unfolding Delete_def by (rule gorm_store.delete_all_refines [OF assms(1,2)])
  with assms(3) show ?thesis by (simp add: store_inv_def cat_inv_delete)
qed

lemma router_methods:
  assumes "gin_ok gin" and "gn_mux gin (swagger @ router) method path = Routed route i"
  shows "method = (case route of RSave \<Rightarrow> ''POST'' | RStart \<Rightarrow> ''POST'' | RDelete \<Rightarrow> ''DELETE'' | _ \<Rightarrow> ''GET'')"
proof -
  from assms obtain pattern where "(method, pattern, route) \<in> set (swagger @ router)" unfolding gin_ok_def by blast
  then show ?thesis by (auto simp: router_def swagger_def)
qed

lemma redirect_methods:
  assumes "gin_ok gin" and "gn_mux gin (swagger @ router) method path = RedirectSlash"
  shows "method \<noteq> ''OPTIONS''"
proof -
  from assms obtain pattern route where "(method, pattern, route) \<in> set (swagger @ router)" unfolding gin_ok_def by blast
  then show ?thesis by (auto simp: router_def swagger_def)
qed

text \<open>The four ways of a request: what is left of it after the middleware.\<close>

lemma serve_routeE:
  assumes "gin_ok gin" and "serveController env yaml gin req w = (res, w')"
  obtains (redirected) headers body where "gn_mux gin (swagger @ router) (hr_Method req) (hr_Path req) = RedirectSlash" "w' = w"
        "res = Ok (headers, if hr_Method req = ''GET'' then StatusMovedPermanently else StatusTemporaryRedirect, body)"
    | (preflight) "hr_Method req = ''OPTIONS''" "res = Ok (corsHeaders (hr_Origin req), StatusNoContent, NilBody)" "w' = w"
    | (unrouted) body where "res = Ok (corsHeaders (hr_Origin req), StatusNotFound, body)" "w' = w"
        "gn_mux gin (swagger @ router) (hr_Method req) (hr_Path req) = Unrouted"
    | (routed) route i out where "gn_mux gin (swagger @ router) (hr_Method req) (hr_Path req) = Routed route i"
        "runRoute env yaml (gn_Swagger gin) (hr_Bound req) i route w = (out, w')"
        "res = Ok (corsHeaders (hr_Origin req), case out of Ok r \<Rightarrow> r | _ \<Rightarrow> (StatusInternalServerError, NilBody))"
proof (cases "gn_mux gin (swagger @ router) (hr_Method req) (hr_Path req)")
  case RedirectSlash
  let ?r = "gn_Redirect gin (hr_Method req) (hr_Path req)"
  have "?r = (fst ?r, if hr_Method req = ''GET'' then StatusMovedPermanently else StatusTemporaryRedirect, snd (snd ?r))"
    using assms(1) by (simp add: gin_ok_def prod_eq_iff)
  with assms(2) RedirectSlash show thesis by (intro redirected [of "fst ?r" "snd (snd ?r)"]) (auto simp: serveController_def ret_def)
next
  case Unrouted
  have gin: "gn_Recovery gin = recovered" "gn_NoRoute gin = (StatusNotFound, snd (gn_NoRoute gin))"
    using assms(1) by (simp_all add: gin_ok_def prod_eq_iff)
  show thesis
  proof (cases "hr_Method req = ''OPTIONS''")
    case True
    with assms(2) Unrouted preflight show thesis by (simp add: serveController_def cors_def Let_def ret_def)
  next
    case False
    have "serveController env yaml gin req w = (Ok (corsHeaders (hr_Origin req), gn_NoRoute gin), w)"
      using Unrouted False gin(1) by (simp add: serveController_def cors_def recovered_def Let_def bnd_apply ret_def)
    with assms(2) gin(2) Unrouted show thesis by (intro unrouted [of "snd (gn_NoRoute gin)"]) auto
  qed
next
  case (Routed route i)
  from router_methods [OF assms(1) Routed] have False: "hr_Method req \<noteq> ''OPTIONS''" by (cases route) auto
  obtain out w2 where out: "runRoute env yaml (gn_Swagger gin) (hr_Bound req) i route w = (out, w2)" by force
  have noerr: "\<And>e. out \<noteq> Err e"
    using runRoute_answered [of route w env yaml "gn_Swagger gin" "hr_Bound req" i] out
    by (cases "route = RSwagger") (auto simp: answered_def ret_def)
  show thesis
    by (rule routed [of route i out], insert assms False Routed out noerr)
      (cases out; auto simp: serveController_def cors_def gin_ok_def recovered_def Let_def bnd_apply ret_def)+
qed

text \<open>
  C13: Every request to the controller gets an answer, whatever its handler does, when the
  queue of the process is not the in-memory one, whose channel nobody reads there. It has one of seven statuses, unless it is a
  page of the generated documentation, which has the status that the handler of the documentation gives it; a path that has a
  route but for its trailing slash is redirected. A \<open>GET\<close> or a preflight request, one that is redirected, one that does not bind
  and one that has no route leave the world as it is; a save that is
  not answered with 200 leaves the tables as they are; and the store stays consistent, unless a delete is
  answered with an error, which may stop between its six updates.
\<close>

theorem controller_guards:
  assumes st: "gorm_store (ev_store env) view" and sch: "sched_ok (ev_sched env)" and inv: "store_inv (view (wd_db w))"
    and queue: "GetQueue (ev_queues env) (ev_queueStore env) \<noteq> Some InMemoryQueue"
    and gin: "gin_ok gin" and run: "serveController env yaml gin req w = (res, w')"
  shows "\<exists>headers status body. res = Ok (headers, status, body) \<and>
    (status \<in> {200, 204, 301, 307, 400, 404, 500} \<or>
     (\<exists>any. gn_mux gin (swagger @ router) (hr_Method req) (hr_Path req) = Routed RSwagger any \<and> (status, body) = gn_Swagger gin any)) \<and>
    (gn_mux gin (swagger @ router) (hr_Method req) (hr_Path req) = RedirectSlash \<longrightarrow> status = (if hr_Method req = ''GET'' then 301 else 307)) \<and>
    (hr_Method req \<in> {''GET'', ''OPTIONS''} \<or> status \<in> {204, 301, 307, 400, 404} \<longrightarrow> w' = w) \<and>
    (\<forall>i. gn_mux gin (swagger @ router) (hr_Method req) (hr_Path req) = Routed RSave i \<and> status \<noteq> 200 \<longrightarrow>
       view (wd_db w') = view (wd_db w)) \<and>
    (hr_Method req \<noteq> ''DELETE'' \<or> status = 200 \<longrightarrow> store_inv (view (wd_db w')))"
  using gin run
proof (cases rule: serve_routeE)
  case (routed route i out)
  note meth = router_methods [OF gin routed(1)]
    and ans = runRoute_answered [of route w env yaml "gn_Swagger gin" "hr_Bound req" i]
  have get: "w' = w" if "hr_Method req = ''GET''"
    using that meth keepsD [OF runRoute_reads [where f = "\<lambda>w. w"] routed(2)] by (cases route) auto
  have save: "view (wd_db w') = view (wd_db w)" if "route = RSave" "\<forall>p. out \<noteq> Ok (StatusOK, p)"
    using save_route_inv [OF st sch inv] routed(2) that by simp
  have consistent: "store_inv (view (wd_db w'))" if "route = RDelete \<Longrightarrow> \<exists>p. out = Ok (StatusOK, p)"
    using route_inv [OF st sch inv routed(2)] delete_route_inv [OF st sch inv] routed(2) that by (cases route) auto
  show ?thesis
  proof (cases "route = RSwagger")
    case True
    with routed meth inv show ?thesis by (cases "gn_Swagger gin i") (auto simp: ret_def)
  next
    case False
    with ans have ans: "answered w (runRoute env yaml (gn_Swagger gin) (hr_Bound req) i route w)" by simp
    show ?thesis
    proof (cases out)
      case (Ok r)
      then show ?thesis using ans routed meth get save consistent False
        by (cases r; cases route) (auto simp: answered_def)
    next
      case (Panic s)
      then show ?thesis using routed meth get save consistent False by (cases route) auto
    qed (use ans routed in \<open>simp add: answered_def\<close>)
  qed
next
  case (redirected headers body)
  with inv redirect_methods [OF gin redirected(1)] show ?thesis by auto
qed (use inv redirect_methods [OF gin] in auto)

text \<open>A router of exact paths, which redirects a path with a slash too many.\<close>

definition demo_mux :: "(string \<times> string \<times> route) list \<Rightarrow> string \<Rightarrow> string \<Rightarrow> muxResult" where
  "demo_mux table method path =
     (case find (\<lambda>(m, pattern, _). m = method \<and> pattern = path) table of
        Some (_, _, route) \<Rightarrow> Routed route path
      | None \<Rightarrow> (case find (\<lambda>(m, pattern, _). m = method \<and> pattern @ ''/'' = path) table of
          Some _ \<Rightarrow> RedirectSlash | None \<Rightarrow> Unrouted))"

definition demo_redirect :: "string \<Rightarrow> string \<Rightarrow> (string \<times> string) list \<times> response" where
  "demo_redirect method path = ([(''Location'', butlast path)], if method = ''GET'' then 301 else 307, NilBody)"

definition demo_gin :: "tables gin" where
  "demo_gin = \<lparr>gn_mux = demo_mux, gn_Redirect = demo_redirect, gn_Recovery = recovered,
     gn_Swagger = (\<lambda>_. (200, PlainText ''Workflow API'')), gn_NoRoute = (404, PlainText ''404 page not found'')\<rparr>"

lemma find_entry:
  assumes "find (\<lambda>(m, pattern, _). m = method \<and> P pattern) table = Some entry"
  shows "(method, fst (snd entry), snd (snd entry)) \<in> set table"
  using assms by (induction table) (auto split: if_splits)

lemma demo_mux_entry:
  "demo_mux table method path = Routed route i \<Longrightarrow> \<exists>pattern. (method, pattern, route) \<in> set table"
  "demo_mux table method path = RedirectSlash \<Longrightarrow> \<exists>pattern route. (method, pattern, route) \<in> set table"
  using find_entry [where table = table and P = "\<lambda>p. p = path"] find_entry [where table = table and P = "\<lambda>p. p @ ''/'' = path"]
  by (fastforce simp: demo_mux_def split: option.splits)+

lemma demo_gin_ok: "gin_ok demo_gin"
  using demo_mux_entry by (auto simp: gin_ok_def demo_gin_def demo_redirect_def)

definition demo_request :: "string \<Rightarrow> string \<Rightarrow> httpRequest" where
  "demo_request method path = \<lparr>hr_Method = method, hr_Path = path, hr_Origin = ''http://localhost'',
     hr_Bound = \<lparr>br_Save = Inl ''EOF'', br_List = Inl ''EOF'', br_Instances = Inl ''EOF'', br_Start = Inl ''EOF''\<rparr>\<rparr>"

text \<open>The environment of a controller with the configuration of the repository, which names no queue.\<close>

definition demo_controller :: "tables env" where
  "demo_controller = demo_env\<lparr>ev_queueStore := []\<rparr>"

lemma demo_controller_queue: "GetQueue (ev_queues demo_controller) (ev_queueStore demo_controller) = None"
  by code_simp

lemma demo_controller_sel: "ev_store demo_controller = mem_gorm" "ev_sched demo_controller = (\<lambda>k. rev [0..<k])"
  by (simp_all add: demo_controller_def demo_env_def)

theorem controller_guards_witness:
  "\<exists>headers status body w'. serveController demo_controller demo_yaml demo_gin (demo_request ''POST'' ''/workflow'') (demo_world empty_tables)
     = (Ok (headers, status, body), w') \<and> store_inv (wd_db w')"
proof -
  let ?s = "serveController demo_controller demo_yaml demo_gin (demo_request ''POST'' ''/workflow'') (demo_world empty_tables)"
  have st: "gorm_store (ev_store demo_controller) (\<lambda>db. db)" "sched_ok (ev_sched demo_controller)"
    using mem.gorm_store_axioms sched_ok_rev by (simp_all add: demo_controller_sel)
  have inv: "store_inv (wd_db (demo_world empty_tables))" by (simp add: demo_world_def empty_inv)
  have q: "GetQueue (ev_queues demo_controller) (ev_queueStore demo_controller) \<noteq> Some InMemoryQueue"
    by (simp add: demo_controller_queue)
  have "hr_Method (demo_request ''POST'' ''/workflow'') \<noteq> ''DELETE''" by (simp add: demo_request_def)
  with controller_guards [OF st inv q demo_gin_ok prod.collapse [symmetric, of ?s]] show ?thesis
    by (metis prod.collapse)
qed

section \<open>Starting without a queue\<close>

text \<open>
  C39: A controller whose configuration names no registered queue cannot start a workflow. For a workflow with a start edge in
  force, on a store that does not fail, the request is answered with 500 by the recovery middleware, because
  publishing to the nil queue panics; but the instance has already been recorded, in process, and no task of it is in
  flight, so it stays in process.
\<close>

theorem controller_start_orphans_instance:
  assumes G: "gorm_reliable (ev_store env) view" and m: "metrics_typed (wd_metrics w)"
    and queue: "GetQueue (ev_queues env) (ev_queueStore env) = None"
    and gin: "gin_ok gin"
    and req: "hr_Method req = ''POST''" "gn_mux gin (swagger @ router) ''POST'' (hr_Path req) = Routed RStart i" "br_Start (hr_Bound req) = Inr request"
    and edge: "st_WorkflowID request \<noteq> []" "startEdges (view (wd_db w)) (st_WorkflowID request) \<noteq> []"
  shows "\<exists>k now w'. serveController env yaml gin req w = (Ok (corsHeaders (hr_Origin req), StatusInternalServerError, NilBody), w') \<and>
    view (wd_db w') = tb_instance_update (\<lambda>rs. rs @ [(newInstance (st_WorkflowID request) (ev_uuid env (wd_uuids w)))\<lparr>
      i_CreateTime := now, i_UpdateTime := now, i_ID := k\<rparr>]) (view (wd_db w)) \<and>
    wd_queue w' = wd_queue w \<and> wd_topic w' = wd_topic w"
proof -
  let ?p = "startParam request" and ?r = "newInstance (st_WorkflowID request) (ev_uuid env (wd_uuids w))"
  have st: "gorm_store (ev_store env) view" using G by (simp add: gorm_reliable_def)
  have id: "p_ID ?p = st_WorkflowID request" by (simp add: startParam_def)
  obtain p where p: "metric (Inc ''engine'' ''start_request'') w = (Ok (), w\<lparr>wd_metrics := p\<rparr>)"
    using gauge_ok [OF m] unfolding Inc_def by blast
  obtain res where res: "SelectStartTask (ev_store env) (zeroTask\<lparr>t_WorkflowID := st_WorkflowID request\<rparr>) (wd_db w) = Inr res"
    using gorm_reliable.SelectStartTask_total [OF G] by blast
  from SelectStartTask_edge [OF st edge(1) res] edge(2) obtain t where t: "res = Some t" by (cases res) auto
  define w1 where "w1 = w\<lparr>wd_metrics := p, wd_uuids := Suc (wd_uuids w)\<rparr>"
  obtain db' where ins: "insertInstance env ?r w1 = (Ok (), w1\<lparr>wd_ticks := Suc (wd_ticks w1), wd_db := db'\<rparr>)"
    using insertInstance_total [OF G] by blast
  define w2 where "w2 = w1\<lparr>wd_ticks := Suc (wd_ticks w1), wd_db := db', wd_uuids := Suc (wd_uuids w1)\<rparr>"
  have "Start env ?p w = (Panic ''nil pointer dereference'', w2)"
    using p res t ins queue by (simp add: Start_def bnd_apply dalRead_def newUUID_def w1_def w2_def id queuePublish_def)
  then have "serveController env yaml gin req w = (Ok (corsHeaders (hr_Origin req), StatusInternalServerError, NilBody), w2)"
    using req gin by (simp add: serveController_def cors_def gin_ok_def recovered_def Let_def WorkflowController_Start_def answer_def bnd_apply ret_def)
  moreover obtain k now where "view (wd_db w2) = tb_instance_update
      (\<lambda>rs. rs @ [?r\<lparr>i_CreateTime := now, i_UpdateTime := now, i_ID := k\<rparr>]) (view (wd_db w))"
    using insertInstance_effect [OF st ins] by (auto simp: w1_def w2_def)
  ultimately show ?thesis by (intro exI conjI) (assumption, assumption, simp_all add: w1_def w2_def)
qed

definition demo_start :: httpRequest where
  "demo_start = \<lparr>hr_Method = ''POST'', hr_Path = ''/workflow/start'', hr_Origin = [],
     hr_Bound = \<lparr>br_Save = Inl ''EOF'', br_List = Inl ''EOF'', br_Instances = Inl ''EOF'',
       br_Start = Inr \<lparr>st_WorkflowID = ''w'', st_Input = ''{}''\<rparr>\<rparr>\<rparr>"

theorem controller_start_orphans_instance_witness:
  "\<exists>w'. serveController demo_controller demo_yaml demo_gin demo_start (demo_world demo_tables) = (Ok ([], 500, NilBody), w') \<and>
     length (tb_instance (wd_db w')) = 1 \<and> wd_queue w' = []"
proof -
  let ?w = "demo_world demo_tables" and ?r = "\<lparr>st_WorkflowID = ''w'', st_Input = ''{}''\<rparr>"
  have G: "gorm_reliable (ev_store demo_controller) (\<lambda>db. db)"
    using memr.gorm_reliable_axioms by (simp add: demo_controller_sel)
  have q: "hr_Method demo_start = ''POST''" "gn_mux demo_gin (swagger @ router) ''POST'' (hr_Path demo_start) = Routed RStart ''/workflow/start''"
    "br_Start (hr_Bound demo_start) = Inr ?r" "st_WorkflowID ?r \<noteq> []"
    by (simp_all add: demo_start_def demo_gin_def demo_mux_def router_def swagger_def)
  have e: "startEdges (wd_db ?w) (st_WorkflowID ?r) \<noteq> []" by code_simp
  from controller_start_orphans_instance [where yaml = demo_yaml and w = ?w,
      OF G demo_metrics_typed demo_controller_queue demo_gin_ok q e] show ?thesis
    by (auto simp: demo_start_def corsHeaders_def demo_world_def demo_tables_def empty_tables_def)
qed

end
