(* ===== verification/Process.thy ===== *)
theory Process
  imports ScheduleSpec ControllerSpec
begin

text \<open>
  The two processes, \<open>cmd/engine/main.go\<close> and \<open>cmd/controller/main.go\<close>, from their start to the call that
  serves requests, and before it the initialisation of the packages. The server library (its configuration file, plug-ins and registry), the file system, the
  opening of the database and of the listening socket are outside calls, gathered in a record of parameters. A fatal
  error of \<open>main\<close> is an error of the program; a process that serves has the value \<open>()\<close>.
\<close>

section \<open>Configuration files\<close>

text \<open>What \<open>os.Stat\<close> answers: no error, or an error with what \<open>os.IsExist\<close> says of it.\<close>

datatype statResult = StatOk | StatError bool

definition Exists :: "(string \<Rightarrow> statResult) \<Rightarrow> string \<Rightarrow> bool" where
  "Exists stat path = (case stat path of StatOk \<Rightarrow> True | StatError isExist \<Rightarrow> isExist)"

text \<open>The entries of the server library's configuration that the processes read.\<close>

record serverConfig =
  sc_Name :: string
  sc_Port :: int
  sc_QueueStore :: string

record boot =
  bt_stat :: "string \<Rightarrow> statResult"
  bt_LoadConfig :: "string \<Rightarrow> string + serverConfig"
  bt_pluginSetup :: "serverConfig \<Rightarrow> string option"
  bt_readFile :: "string \<Rightarrow> string + string"
  bt_decode :: "string \<Rightarrow> config \<Rightarrow> string + config"
  bt_registry :: "string \<Rightarrow> (string \<Rightarrow> string option) option"
  bt_Open :: "string option"
  bt_Listen :: "int \<Rightarrow> string option"
  bt_Serve :: "string option"

datatype boot_error =
    LoadFailed string
  | PluginFailed string
  | ConfigFailed config_error
  | NotFindRegistry string
  | RegisterFailed string
  | SchedulerFailed string
  | OpenFailed string
  | ListenFailed string
  | ServeFailed string

text \<open>
  The package variables the start-up assigns, and what the process has going: the name it is registered under,
  whether its queue is observed and whether its scheduler runs.
\<close>

record globals =
  gl_ServerConfigPath :: string
  gl_GlobalConfig :: "serverConfig option"
  gl_config :: "config option"
  gl_registered :: "string option"
  gl_open :: bool
  gl_observing :: bool
  gl_scheduling :: bool
  gl_prometheusMetrics :: "metrics option"

type_synonym 'a startup = "(globals, boot_error, 'a) prog"

definition failWith :: "string option \<Rightarrow> (string \<Rightarrow> boot_error) \<Rightarrow> unit startup" where
  "failWith err e = (case err of None \<Rightarrow> ret () | Some s \<Rightarrow> fail (e s))"

definition assign :: "(globals \<Rightarrow> globals) \<Rightarrow> unit startup" where
  "assign f g = (Ok (), f g)"

definition configPath :: "(string \<Rightarrow> statResult) \<Rightarrow> string \<Rightarrow> string" where
  "configPath stat name =
     (let path = ''./configs/'' @ name;
          path = (if \<not> Exists stat path then ''../configs/'' @ name else path);
          path = (if \<not> Exists stat path then ''../conf/'' @ name else path)
      in path)"

definition pconfigSetup :: "boot \<Rightarrow> string \<Rightarrow> unit startup" where
  "pconfigSetup B path g =
     (case Setup (bt_readFile B) (bt_decode B) path (gl_config g) of
        (Ok _, c) \<Rightarrow> (Ok (), g\<lparr>gl_config := c\<rparr>)
      | (Err e, c) \<Rightarrow> (Err (ConfigFailed e), g\<lparr>gl_config := c\<rparr>)
      | (Panic s, c) \<Rightarrow> (Panic s, g\<lparr>gl_config := c\<rparr>))"

text \<open>\<open>setupConfig\<close>, the same in both processes but for the name of the file.\<close>

definition setupConfig :: "boot \<Rightarrow> string \<Rightarrow> serverConfig startup" where
  "setupConfig B name =
     (let path = configPath (bt_stat B) name in
      bnd (assign (gl_ServerConfigPath_update (\<lambda>_. path))) (\<lambda>_.
      case bt_LoadConfig B path of
        Inl e \<Rightarrow> fail (LoadFailed e)
      | Inr cfg \<Rightarrow>
          bnd (assign (gl_GlobalConfig_update (\<lambda>_. Some cfg))) (\<lambda>_.
          bnd (failWith (bt_pluginSetup B cfg) PluginFailed) (\<lambda>_.
          bnd (pconfigSetup B path) (\<lambda>_. ret cfg)))))"

section \<open>The engine\<close>

record engineServer =
  es_schedule :: scheduler
  es_queue :: "observeQueue option"

definition engine_setupConfig :: "boot \<Rightarrow> serverConfig startup" where
  "engine_setupConfig B = setupConfig B ''workflow.yaml''"

definition register :: "boot \<Rightarrow> string \<Rightarrow> unit startup" where
  "register B name =
     (case bt_registry B name of
        None \<Rightarrow> fail (NotFindRegistry name)
      | Some reg \<Rightarrow>
          bnd (failWith (reg name) RegisterFailed) (\<lambda>_. assign (gl_registered_update (\<lambda>_. Some name))))"

definition newScheduler :: "scheduler startup" where
  "newScheduler g =
     (case Get (gl_config g) of
        None \<Rightarrow> (Panic ''nil pointer dereference'', g)
      | Some cfg \<Rightarrow>
          (case NewScheduler cfg of Inl e \<Rightarrow> (Err (SchedulerFailed e), g) | Inr s \<Rightarrow> (Ok s, g)))"

definition openDal :: "boot \<Rightarrow> unit startup" where
  "openDal B = bnd (failWith (bt_Open B) OpenFailed) (\<lambda>_. assign (gl_open_update (\<lambda>_. True)))"

definition engine_initServer :: "boot \<Rightarrow> (string \<times> observeQueue) list \<Rightarrow> (serverConfig \<times> engineServer) startup" where
  "engine_initServer B queues =
     bnd (engine_setupConfig B) (\<lambda>cfg.
     bnd (register B (sc_Name cfg)) (\<lambda>_.
     bnd newScheduler (\<lambda>scheduler.
     bnd (openDal B) (\<lambda>_.
     ret (cfg, \<lparr>es_schedule = scheduler, es_queue = GetQueue queues (sc_QueueStore cfg)\<rparr>)))))"

definition observe :: "observeQueue option \<Rightarrow> unit startup" where
  "observe q = (case q of
     None \<Rightarrow> (\<lambda>g. (Panic ''nil pointer dereference'', g))
   | Some _ \<Rightarrow> assign (gl_observing_update (\<lambda>_. True)))"

definition engine_listen :: "boot \<Rightarrow> serverConfig \<Rightarrow> unit startup" where
  "engine_listen B cfg = failWith (bt_Listen B (sc_Port cfg)) ListenFailed"

definition engine_run :: "boot \<Rightarrow> serverConfig \<Rightarrow> engineServer \<Rightarrow> unit startup" where
  "engine_run B cfg s =
     bnd (observe (es_queue s)) (\<lambda>_.
     bnd (assign (gl_scheduling_update (\<lambda>_. True))) (\<lambda>_.
     bnd (engine_listen B cfg) (\<lambda>_.
     failWith (bt_Serve B) ServeFailed)))"

definition engine_main :: "boot \<Rightarrow> (string \<times> observeQueue) list \<Rightarrow> serverConfig startup" where
  "engine_main B queues =
     bnd (engine_initServer B queues) (\<lambda>(cfg, s). bnd (engine_run B cfg s) (\<lambda>_. ret cfg))"

section \<open>The controller\<close>

text \<open>
  The engine that the controller embeds takes its queue from the configuration, and nothing in the
  process observes that queue. The result is the queue of that engine.
\<close>

definition controller_setupConfig :: "boot \<Rightarrow> serverConfig startup" where
  "controller_setupConfig B = setupConfig B ''controller.yaml''"

definition NewWorkflowController :: "(string \<times> observeQueue) list \<Rightarrow> serverConfig \<Rightarrow> observeQueue option" where
  "NewWorkflowController queues cfg = GetQueue queues (sc_QueueStore cfg)"

definition controller_initServer :: "boot \<Rightarrow> (string \<times> observeQueue) list \<Rightarrow> (serverConfig \<times> observeQueue option) startup" where
  "controller_initServer B queues =
     bnd (controller_setupConfig B) (\<lambda>cfg.
     bnd (openDal B) (\<lambda>_.
     ret (cfg, NewWorkflowController queues cfg)))"

definition controller_main :: "boot \<Rightarrow> (string \<times> observeQueue) list \<Rightarrow> (serverConfig \<times> observeQueue option) startup" where
  "controller_main B queues =
     bnd (controller_initServer B queues) (\<lambda>s.
     bnd (failWith (bt_Listen B (sc_Port (fst s))) ListenFailed) (\<lambda>_. ret s))"

section \<open>From the start of a process\<close>

text \<open>
  The packages are initialised before \<open>main\<close>, in the order in which they import each other: the queues import the metrics, so the
  collectors are made first.
\<close>

definition init_metrics :: "accepts \<Rightarrow> unit startup" where
  "init_metrics accepts g =
     (case loadAllCollectors accepts (getPrometheusMetricsByConfig (Get (gl_config g))) of
        (Ok _, p) \<Rightarrow> (Ok (), g\<lparr>gl_prometheusMetrics := Some p\<rparr>)
      | (Err _, p) \<Rightarrow> (Ok (), g\<lparr>gl_prometheusMetrics := Some p\<rparr>)
      | (Panic s, p) \<Rightarrow> (Panic s, g\<lparr>gl_prometheusMetrics := Some p\<rparr>))"

definition engine_process :: "accepts \<Rightarrow> boot \<Rightarrow> serverConfig startup" where
  "engine_process accepts B =
     bnd (init_metrics accepts) (\<lambda>_ g. engine_main B (initQueues (gl_config g)) g)"

definition controller_process :: "accepts \<Rightarrow> boot \<Rightarrow> (serverConfig \<times> observeQueue option) startup" where
  "controller_process accepts B =
     bnd (init_metrics accepts) (\<lambda>_ g. controller_main B (initQueues (gl_config g)) g)"

text \<open>
  Neither process gets as far as its \<open>main\<close>: the collectors are initialised first, and that panics. No configuration is
  read, nothing is registered, opened, observed or scheduled.
\<close>

lemma no_process_starts:
  "\<exists>p. m_gauges p = None \<and>
     engine_process accepts B g = (Panic (if accepts [] ''event_task'' histogram then ''assignment to entry in nil map''
       else ''duplicate metrics collector registration attempted''), g\<lparr>gl_prometheusMetrics := Some p\<rparr>) \<and>
     controller_process accepts B g = (Panic (if accepts [] ''event_task'' histogram then ''assignment to entry in nil map''
       else ''duplicate metrics collector registration attempted''), g\<lparr>gl_prometheusMetrics := Some p\<rparr>)"
  using loadAllCollectors_panics [of accepts "Get (gl_config g)"]
  by (auto simp: engine_process_def controller_process_def init_metrics_def bnd_apply)

section \<open>What \<open>main\<close> sets up\<close>

text \<open>The rest of the theory is about the code of \<open>main\<close>, which would run if the packages were initialised.\<close>

lemma assign_Ok [simp]: "assign f g = (Ok x, g') \<longleftrightarrow> g' = f g"
  by (auto simp: assign_def)

lemma failWith_Ok [simp]: "failWith err e g = (Ok x, g') \<longleftrightarrow> err = None \<and> g' = g"
  by (cases err) (auto simp: failWith_def ret_def fail_def)

lemma pconfigSetup_OkE:
  assumes "pconfigSetup B path g = (Ok x, g')"
  obtains c where "g' = g\<lparr>gl_config := Some c\<rparr>" and "parseConfigFromFile (bt_readFile B) (bt_decode B) path = Inr c"
  using assms by (auto simp: pconfigSetup_def Setup_def split: sum.splits)

lemma setupConfig_OkE:
  assumes "setupConfig B name g = (Ok cfg, g')"
  obtains c where "bt_LoadConfig B (configPath (bt_stat B) name) = Inr cfg"
    and "parseConfigFromFile (bt_readFile B) (bt_decode B) (configPath (bt_stat B) name) = Inr c"
    and "g' = g\<lparr>gl_ServerConfigPath := configPath (bt_stat B) name, gl_GlobalConfig := Some cfg, gl_config := Some c\<rparr>"
  using assms unfolding setupConfig_def Let_def
  by (auto simp: fail_def ret_def split: sum.splits elim!: bnd_OkE pconfigSetup_OkE)

lemma only_in_memory:
  assumes "GetQueue (initQueues initialConfig) name = Some q"
  shows "name = QueueTypeInMemory \<and> q = InMemoryQueue"
  using assms
  by (simp add: initQueues_def init_in_memory_def init_eventmesh_def initialConfig_def Get_def RegisterQueue_def GetQueue_def
      split: if_splits)

lemma scheduler_in_line: "NewScheduler c = Inr s \<Longrightarrow> Flow_Scheduler_Type c = ''in-line''"
  by (simp add: NewScheduler_def schedulerBuilder_def split: if_splits)

text \<open>
  If the \<open>main\<close> of the engine gets as far as serving, it has everything the runtime relies on: its configuration is the
  file \<open>workflow.yaml\<close> of the first of three directories that has it (the last when none has), the scheduler is the
  in-line one and runs, the service is registered under its name and the database is open; and, because the queues
  are registered before any configuration is read, its queue is the in-memory one, and it is being observed.
\<close>

lemma engine_serves_in_memory:
  assumes "engine_main B (initQueues initialConfig) g = (Ok cfg, g')"
  shows "bt_LoadConfig B (configPath (bt_stat B) ''workflow.yaml'') = Inr cfg \<and> gl_GlobalConfig g' = Some cfg \<and>
    (\<exists>c. gl_config g' = Some c \<and> Flow_Scheduler_Type c = ''in-line'') \<and> gl_scheduling g' \<and>
    gl_registered g' = Some (sc_Name cfg) \<and> gl_open g' \<and>
    sc_QueueStore cfg = QueueTypeInMemory \<and> GetQueue (initQueues initialConfig) (sc_QueueStore cfg) = Some InMemoryQueue \<and>
    gl_observing g'"
proof -
  from assms obtain s g1 where init: "engine_initServer B (initQueues initialConfig) g = (Ok (cfg, s), g1)"
      and run: "engine_run B cfg s g1 = (Ok (), g')"
    unfolding engine_main_def by (auto simp: ret_def elim!: bnd_OkE)
  from run obtain q where q: "es_queue s = Some q" "g' = g1\<lparr>gl_observing := True, gl_scheduling := True\<rparr>"
    unfolding engine_run_def engine_listen_def observe_def by (auto split: option.splits elim!: bnd_OkE)
  from init obtain g0 sch where g0: "setupConfig B ''workflow.yaml'' g = (Ok cfg, g0)"
      and sch: "newScheduler (g0\<lparr>gl_registered := Some (sc_Name cfg)\<rparr>) = (Ok sch, g0\<lparr>gl_registered := Some (sc_Name cfg)\<rparr>)"
      and g1: "g1 = g0\<lparr>gl_registered := Some (sc_Name cfg), gl_open := True\<rparr>"
      and s: "es_queue s = GetQueue (initQueues initialConfig) (sc_QueueStore cfg)"
    unfolding engine_initServer_def engine_setupConfig_def register_def openDal_def
    by (auto simp: ret_def fail_def newScheduler_def split: option.splits sum.splits elim!: bnd_OkE)
  from g0 obtain c where c: "bt_LoadConfig B (configPath (bt_stat B) ''workflow.yaml'') = Inr cfg" "gl_config g0 = Some c"
      "gl_GlobalConfig g0 = Some cfg"
    by (rule setupConfig_OkE) simp
  with sch have "Flow_Scheduler_Type c = ''in-line''"
    by (auto simp: newScheduler_def Get_def split: sum.splits dest: scheduler_in_line)
  with c q g1 s only_in_memory [of "sc_QueueStore cfg" q] show ?thesis by simp
qed

text \<open>
  With the configuration files of the repository, \<open>configs/engine.yaml\<close> and \<open>configs/controller.yaml\<close>, and started in the
  directory above them, the engine looks for a file that is not there, and ends with the error of its loader.
\<close>

lemma shipped_files_stop_engine:
  assumes "\<And>p. bt_stat B p = (if p \<in> {''./configs/engine.yaml'', ''./configs/controller.yaml''} then StatOk else StatError False)"
    and "bt_LoadConfig B ''../conf/workflow.yaml'' = Inl e"
  shows "fst (engine_main B queues g) = Err (LoadFailed e)"
proof -
  have "configPath (bt_stat B) ''workflow.yaml'' = ''../conf/workflow.yaml''"
    by (simp add: configPath_def Exists_def assms(1) Let_def)
  then show ?thesis
    by (simp add: engine_main_def engine_initServer_def engine_setupConfig_def setupConfig_def Let_def assms(2) bnd_def assign_def fail_def)
qed

text \<open>A controller that serves has no queue, or an in-memory one that nobody observes.\<close>

lemma controller_never_observes:
  assumes "controller_main B (initQueues initialConfig) g = (Ok (cfg, q), g')"
  shows "gl_observing g' = gl_observing g \<and> q \<in> {None, Some InMemoryQueue}"
proof -
  from assms obtain g0 where g0: "setupConfig B ''controller.yaml'' g = (Ok cfg, g0)" "g' = g0\<lparr>gl_open := True\<rparr>"
      and q: "q = GetQueue (initQueues initialConfig) (sc_QueueStore cfg)"
    unfolding controller_main_def controller_initServer_def controller_setupConfig_def openDal_def NewWorkflowController_def
    by (auto simp: ret_def elim!: bnd_OkE)
  from g0(1) have "gl_observing g0 = gl_observing g" by (rule setupConfig_OkE) simp
  moreover have "q \<in> {None, Some InMemoryQueue}"
    using only_in_memory [of "sc_QueueStore cfg"] unfolding q by (metis insertCI not_None_eq)
  ultimately show ?thesis using g0(2) by simp
qed

end
