(* ===== verification/Spec2Isabelle.thy ===== *)
theory Spec2Isabelle
  imports DalQuery JqerEval TaskChoices ScheduleSpec AgentSpec Process
begin

text \<open>
  The workflow runtime of Apache EventMesh, \<open>eventmesh-workflow-go\<close>: its two processes, the language of its
  workflows, the store, the engine, the scheduler and the tasks, as executable definitions with the theorems that make them
  correct.

  \<^bold>\<open>The program.\<close> A user posts the text of a workflow (YAML, DSL 1.0.3 or the older 0.8) to the controller
  (\<open>cmd/controller\<close>). The data access layer (\<open>internal/dal\<close>) parses it (\<open>third_party/swf\<close>), compiles it to rows for the workflow,
  its tasks, their actions and the relations between tasks, and writes them in one transaction. The engine process (\<open>cmd/engine\<close>)
  answers the gRPC call \<open>Execute\<close> (\<open>api/workflow.go\<close>, \<open>flow/engine.go\<close>): a start records an instance of the workflow and
  publishes its first task to the queue (\<open>internal/queue\<close>); a transition wakes a sleeping task. The observer of the queue
  writes each task as a waiting row. At every tick the scheduler (\<open>internal/schedule\<close>) takes a newest waiting row under a
  lock kept in MySQL (\<open>middleware/dblock\<close>), filters its input (\<open>internal/filter\<close>, with the queries of \<open>third_party/jqer\<close>, cut
  by \<open>third_party/lexer\<close>), runs its task (\<open>internal/task\<close>) and records how the run ended. A task publishes its successors to the
  queue, sends an event through EventMesh (\<open>internal/protocol\<close>), or calls an agent over HTTP (\<open>internal/bridge\<close>), which
  may itself be a workflow.

  \<^bold>\<open>Effects.\<close> A Go call that can fail is a program on a state that ends with a value, an error or a panic (\<open>Prelude\<close>:
  \<open>prog\<close>, \<open>outcome\<close>, \<open>bnd\<close>). The state of the runtime is the record \<open>world\<close> of \<open>Runtime\<close>: the database, the tasks and messages in
  flight, the collectors, and how many identifiers, clock readings and outside calls have been used. Concurrent handlers
  (\<open>Util\<close>: \<open>GoAndWait\<close>, and \<open>GoSteps\<close> where handlers share a variable) run in every order that a schedule \<open>sched\<close> allows, and the theorems hold for each. Code outside the
  sources is an argument: the store (\<open>gorm\<close>), the YAML decoder, gojq, the clock, the identifiers, EventMesh, the
  naming service, the catalog, HTTP, gin with the handler of the generated documentation, the Prometheus registry and the server library
  (\<open>env\<close>, \<open>boot\<close>, \<open>gin\<close>, \<open>accepts\<close>). The locks of MySQL are the exception: their documented behaviour is written out (\<open>DbLock\<close>).

  \<^bold>\<open>Theories and sources.\<close>
  \<^item> \<open>Prelude\<close>, \<open>GoStrings\<close>, \<open>GoValue\<close>: Go results, the functions of \<open>strings\<close>, \<open>strconv\<close>, \<open>unicode/utf8\<close> and \<open>fmt\<close> that are used, dynamic values.
  \<^item> \<open>Lexer\<close>, \<open>Jqer\<close>, \<open>JqerSpec\<close>, \<open>JqerEval\<close>: \<open>third_party/lexer\<close> and \<open>third_party/jqer\<close>. The lexer ends on every input and emits the
    tokens of a reference scanner, which fit its channel; interpolation puts the texts of the query results in place.
  \<^item> \<open>Swf\<close>, \<open>SwfParse\<close>: \<open>third_party/swf\<close>. \<open>Validate\<close> accepts exactly the well-formed workflows and its errors are accurate; what \<open>Parse\<close> accepts is well formed.
  \<^item> \<open>Model\<close>, \<open>Gorm\<close>: the six row types of \<open>internal/dal/model\<close> with the constants of \<open>internal/constants\<close>; the laws of the store as the locales \<open>gorm_table\<close>,
    \<open>gorm_store\<close> and \<open>gorm_reliable\<close> (no call fails), interpreted on a store in memory.
  \<^item> \<open>DalGraph\<close>, \<open>Dal\<close>, \<open>DalSpec\<close>, \<open>DalQuery\<close>: \<open>internal/dal/workflow.go\<close>. The compiled relations are the edges of an abstract graph, which is closed; \<open>Save\<close> and \<open>Delete\<close>
    refine operations on an abstract catalog, for every order of their statements; \<open>Save\<close> is all or nothing; the queries return the rows they should, a page of at most 100 for every positive size; a read of the next task instance can lose an error.
  \<^item> \<open>Util\<close>, \<open>Config\<close>, \<open>Metrics\<close>, \<open>DbLock\<close>: \<open>internal/util/flow_util.go\<close>, \<open>config/config.go\<close>, \<open>internal/metrics/metrics.go\<close>, \<open>middleware/dblock\<close>. Collectors are
    never read at a wrong type, but the package cannot be initialised; no two locks share a key in any interleaving, and in every fair run a release completes unless the lock was lost.
  \<^item> \<open>Json\<close>, \<open>JsonStruct\<close>, \<open>JsonTrip\<close>: JSON as \<open>encoding/json\<close> reads and writes it; what is written is read back.
  \<^item> \<open>DataFilter\<close>, \<open>Runtime\<close>, \<open>Protocol\<close>: \<open>internal/filter/data_filter.go\<close>, the world, \<open>internal/protocol\<close>.
  \<^item> \<open>Queue\<close>, \<open>QueueSpec\<close>: \<open>internal/queue\<close>. Both queues meet the contract \<open>observe_queue\<close>; a task survives the trip through EventMesh.
  \<^item> \<open>Flow\<close>, \<open>FlowSpec\<close>: \<open>flow/engine.go\<close>, \<open>api/workflow.go\<close>. What a start and a transition do to store and queue, and when they succeed.
  \<^item> \<open>A2A\<close>, \<open>Agent\<close>, \<open>AgentSpec\<close>: \<open>internal/bridge\<close>. Polling ends; client and agent understand each other.
  \<^item> \<open>LocalRuntime\<close>, \<open>Tasks\<close>, \<open>TasksSpec\<close>, \<open>TaskChoices\<close>: \<open>internal/task\<close>. A run touches only its own workflow instance and the successors of its task; which branch a
    switch takes and which tasks a fork starts.
  \<^item> \<open>Schedule\<close>, \<open>ScheduleSpec\<close>: \<open>internal/schedule\<close>. What a tick does, and that it makes progress; retry-go is the locale \<open>retry_library\<close>.
  \<^item> \<open>Controller\<close>, \<open>ControllerSpec\<close>: \<open>cmd/controller\<close>. The life of a workflow across the two processes; every request is answered, and rejected ones change nothing.
  \<^item> \<open>Process\<close>: \<open>cmd/engine/main.go\<close>, \<open>cmd/controller/main.go\<close>, \<open>internal/util/file_utils.go\<close>. The initialisation of the packages, which no process survives, and what the code of \<open>main\<close> sets up.

  \<^bold>\<open>How the parts fit.\<close> As the code stands, both processes end in a panic while their collectors are initialised (\<open>Process\<close>,
  \<open>no_process_starts\<close>); the theorems on the other packages are about their code, in a process whose collectors are of their types. An engine whose
  \<open>main\<close> serves has the in-memory queue and observes it (\<open>Process\<close>), which is what \<open>memEnv\<close> asks of the
  environment in the theorems on starts, tasks and ticks. A saved workflow of DSL 1.0.3 has one start task, which a start puts in flight (\<open>ControllerSpec\<close>),
  which the observer stores as a waiting row (\<open>QueueSpec\<close>), which a tick takes and settles (\<open>ScheduleSpec\<close>), and whose run
  puts only successors in flight (\<open>TasksSpec\<close>), which are the edges of the graph that the text denotes (\<open>DalGraph\<close>).

  \<^bold>\<open>Bounds and fuel.\<close> The JSON reader has fuel, twice the length of its text and two, and is proved never to run out of it; the loop that reads a
  duration has one unit more than the length of its text, of which each round takes at least one byte. An agent is polled at most thirty
  times and an action tried at most five times, as the sources say. The other recursions are structural or have a measure.
  Statuses, sizes and pages are integers; the offset of a page wraps at 64 bits. Time is a number that the clock gives; one call of the data access
  layer reads it once.

  \<^bold>\<open>Known defects.\<close> Where the code does not do what it means to, the theorem says what it does: the conditions of a switch that are
  stored without their wrapper, local tasks without a definition and short operation names (\<open>TaskChoices\<close>), a lost lock and a refresher that never ends (\<open>DbLock\<close>), the collectors (\<open>Metrics\<close>),
  the error that the three reads of a task instance can lose (\<open>DalQuery\<close>), the start of a workflow of the older DSL that is never checked (\<open>DalQuery\<close>,
  \<open>ControllerSpec\<close>), a waiting row without a task (\<open>ScheduleSpec\<close>), the agent that never completes (\<open>AgentSpec\<close>), the controller without a queue (\<open>ControllerSpec\<close>) and the
  engine's configuration file (\<open>Process\<close>).

  \<^bold>\<open>Not modelled.\<close> The generated code of \<open>api/proto\<close> and \<open>cmd/controller/docs\<close>; opening the database (\<open>internal/dal/config.go\<close>), the HTTP endpoint of the
  metrics, gin's and gRPC's serving of requests, which are calls of libraries; logging, which has no effect on the rest. The
  channel of the in-memory queue is unbuffered: a \<open>Publish\<close> that waits for the observer is not told from one that has been received. The server of an agent
  takes paths as they are, where \<open>http.ServeMux\<close> would redirect one that is not clean. Weak
  memory is not modelled: a concurrent handler is one statement on the store, one assignment or a list of such steps. The error texts are kept as values, not spelled out,
  except where the code reads them.
\<close>

end
